theory Spec2Isabelle
  imports Main "HOL-Library.Word" "HOL-Library.Sublist"
begin

section \<open>Buffers, base64 and the random source\<close>

text \<open>
  A Node \<open>Buffer\<close> is a list of octets. The two text encodings the service uses,
  \<open>buf.toString('base64')\<close>, \<open>buf.toString('base64url')\<close> and \<open>Buffer.from(s, 'base64')\<close>,
  are written out after RFC 4648: three octets become four sextets, the standard alphabet is
  padded with \<open>=\<close>, the URL-safe one is not, and the decoder accepts both alphabets, skips
  every other character and stops at the first padding character.
\<close>

type_synonym byte = "8 word"
type_synonym buffer = "byte list"

definition b64char :: "nat \<Rightarrow> char" where
  "b64char n =
     (if n < 26 then char_of (n + 65)
      else if n < 52 then char_of (n + 71)
      else if n < 62 then char_of (n - 4)
      else if n = 62 then CHR ''+'' else CHR ''/'')"

definition b64urlchar :: "nat \<Rightarrow> char" where
  "b64urlchar n =
     (if n < 26 then char_of (n + 65)
      else if n < 52 then char_of (n + 71)
      else if n < 62 then char_of (n - 4)
      else if n = 62 then CHR ''-'' else CHR ''_'')"

definition unbase64 :: "char \<Rightarrow> nat option" where
  "unbase64 c =
     (let x = (of_char c :: nat) in
      if 65 \<le> x \<and> x \<le> 90 then Some (x - 65)
      else if 97 \<le> x \<and> x \<le> 122 then Some (x - 71)
      else if 48 \<le> x \<and> x \<le> 57 then Some (x + 4)
      else if x = 43 \<or> x = 45 then Some 62
      else if x = 47 \<or> x = 95 then Some 63
      else None)"

fun sextets :: "buffer \<Rightarrow> nat list" where
  "sextets (a # b # c # rest) =
     [unat a div 4, (unat a mod 4) * 16 + unat b div 16,
      (unat b mod 16) * 4 + unat c div 64, unat c mod 64] @ sextets rest"
| "sextets [a, b] =
     [unat a div 4, (unat a mod 4) * 16 + unat b div 16, (unat b mod 16) * 4]"
| "sextets [a] = [unat a div 4, (unat a mod 4) * 16]"
| "sextets [] = []"

definition toString_base64 :: "buffer \<Rightarrow> string" where
  "toString_base64 buf =
     map b64char (sextets buf) @ replicate ((3 - length buf mod 3) mod 3) CHR ''=''"

definition toString_base64url :: "buffer \<Rightarrow> string" where
  "toString_base64url buf = map b64urlchar (sextets buf)"

fun octets :: "nat list \<Rightarrow> buffer" where
  "octets (p # q # r # s # rest) =
     [of_nat (p * 4 + q div 16), of_nat ((q mod 16) * 16 + r div 4),
      of_nat ((r mod 4) * 64 + s)] @ octets rest"
| "octets [p, q, r] = [of_nat (p * 4 + q div 16), of_nat ((q mod 16) * 16 + r div 4)]"
| "octets [p, q] = [of_nat (p * 4 + q div 16)]"
| "octets _ = []"

definition Buffer_from_base64 :: "string \<Rightarrow> buffer" where
  "Buffer_from_base64 s =
     octets (List.map_filter unbase64 (takeWhile (\<lambda>c. c \<noteq> CHR ''='') s))"

text \<open>\<open>Buffer.from(s)\<close> of an ASCII string: one octet per character.\<close>

definition Buffer_from_ascii :: "string \<Rightarrow> buffer" where
  "Buffer_from_ascii s = map (\<lambda>c. of_nat (of_char c)) s"

text \<open>\<open>buf.subarray(start, end)\<close> with non-negative indices: both ends are clamped to the
  length of the buffer, so the call never throws.\<close>

definition subarray :: "buffer \<Rightarrow> nat \<Rightarrow> nat \<Rightarrow> buffer" where
  "subarray buf start end = take (end - start) (drop start buf)"

definition subarray_from :: "buffer \<Rightarrow> nat \<Rightarrow> buffer" where
  "subarray_from buf start = drop start buf"

text \<open>The decimal digits of a natural number, as \<open>String(n)\<close> and a template literal
  write it.\<close>

fun show_nat :: "nat \<Rightarrow> string" where
  "show_nat n =
     (if n < 10 then [''0123456789'' ! n]
      else show_nat (n div 10) @ [''0123456789'' ! (n mod 10)])"

declare show_nat.simps [simp del]

text \<open>
  \<open>crypto.randomBytes\<close> reads the operating system's random source. The source is an
  explicit input: an infinite supply of octets, of which each call takes the first \<open>n\<close>
  and hands the rest on.
\<close>

type_synonym entropy = "nat \<Rightarrow> byte"

definition randomBytes :: "nat \<Rightarrow> entropy \<Rightarrow> buffer \<times> entropy" where
  "randomBytes n e = (map e [0..<n], \<lambda>i. e (i + n))"

section \<open>services/crypto.js\<close>

text \<open>
  The primitives of Node's \<open>crypto\<close> module are parameters of the model:
  the AES-256-GCM cipher (\<open>createCipheriv\<close> \<dots> \<open>getAuthTag\<close> as one sealing function,
  \<open>createDecipheriv\<close> \<dots> \<open>final\<close> as one opening function, \<open>None\<close> when any of the calls
  throws), PBKDF2 and SHA-256.
\<close>

record node_crypto =
  aes_256_gcm_seal :: "buffer \<Rightarrow> buffer \<Rightarrow> buffer \<Rightarrow> buffer \<Rightarrow> (buffer \<times> buffer) option"
  aes_256_gcm_open :: "buffer \<Rightarrow> buffer \<Rightarrow> buffer \<Rightarrow> buffer \<Rightarrow> buffer \<Rightarrow> buffer option"
  pbkdf2 :: "string \<Rightarrow> buffer \<Rightarrow> nat \<Rightarrow> nat \<Rightarrow> string \<Rightarrow> buffer"
  sha256_hex :: "buffer \<Rightarrow> string"

text \<open>
  What the library documents of them: with a 32-octet key and a 12-octet IV sealing succeeds,
  the ciphertext is as long as the plaintext, the tag has 16 octets, and opening with the
  same key, IV, associated data and tag returns the plaintext; PBKDF2 returns as many
  octets as asked for.
\<close>

definition node_crypto_ok :: "node_crypto \<Rightarrow> bool" where
  "node_crypto_ok L \<longleftrightarrow>
     (\<forall>key nonce aad plaintext. length key = 32 \<and> length nonce = 12 \<longrightarrow>
        (\<exists>ct tag. aes_256_gcm_seal L key nonce aad plaintext = Some (ct, tag)
           \<and> length ct = length plaintext \<and> length tag = 16
           \<and> aes_256_gcm_open L key nonce aad tag ct = Some plaintext))
     \<and> (\<forall>password salt iterations keylen digest.
          length (pbkdf2 L password salt iterations keylen digest) = keylen)"

datatype js_error =
    ERR_INVALID_ARG_TYPE
  | ERR_BUFFER_OUT_OF_BOUNDS
  | CipherError
  | SyntaxError
  | Missing_required_parameters
  | No_encrypted_blob_returned
  | Supabase_upload_failed
  | Unique_constraint_failed
  | Cannot_read_properties_of_null
  | Invalid_image_format
  | File_key_encryption_failed js_error
  | File_key_decryption_failed js_error

record encrypted =
  encryptedData :: buffer
  iv :: buffer
  authTag :: buffer

record stored = encrypted +
  fileKey :: buffer

record wrapped =
  encryptedKeyBlob :: string
  salt :: string

definition generateFileKey :: "entropy \<Rightarrow> buffer \<times> entropy" where
  "generateFileKey e = randomBytes 32 e"

definition generateSalt :: "entropy \<Rightarrow> buffer \<times> entropy" where
  "generateSalt e = randomBytes 32 e"

definition deriveKeyFromPassword :: "node_crypto \<Rightarrow> string \<Rightarrow> buffer \<Rightarrow> buffer" where
  "deriveKeyFromPassword L password salt' = pbkdf2 L password salt' 100000 32 ''sha256''"

definition AAD :: buffer where
  "AAD = Buffer_from_ascii ''DisguiseDrive-v1''"

definition encryptData ::
  "node_crypto \<Rightarrow> entropy \<Rightarrow> buffer \<Rightarrow> buffer \<Rightarrow> (js_error + encrypted) \<times> entropy" where
  "encryptData L e data key =
     (let (nonce, e') = randomBytes 12 e in
      (case aes_256_gcm_seal L key nonce AAD data of
         None \<Rightarrow> (Inl CipherError, e')
       | Some (ct, tag) \<Rightarrow>
           (Inr \<lparr>encryptedData = ct, iv = nonce, authTag = tag\<rparr>, e')))"

definition decryptData ::
  "node_crypto \<Rightarrow> buffer \<Rightarrow> buffer \<Rightarrow> buffer \<Rightarrow> buffer \<Rightarrow> js_error + buffer" where
  "decryptData L ct key nonce tag =
     (case aes_256_gcm_open L key nonce AAD tag ct of
        None \<Rightarrow> Inl CipherError
      | Some decryptedData \<Rightarrow> Inr decryptedData)"

text \<open>
  \<open>encryptFileKey\<close>. The password may be \<open>undefined\<close> at the call (\<open>None\<close>); a Buffer is
  always truthy, so of the guard \<open>!fileKey || !password || !salt\<close> only the password's part
  can fire, on \<open>undefined\<close> and on the empty string. The later guards test Buffers and
  never fire. Every error is rethrown as ``File key encryption failed: \<dots>''.
\<close>

definition encryptFileKey ::
  "node_crypto \<Rightarrow> entropy \<Rightarrow> buffer \<Rightarrow> string option \<Rightarrow> buffer \<Rightarrow> (js_error + wrapped) \<times> entropy"
  where
  "encryptFileKey L e fileKey' password salt' =
     (case password of
        None \<Rightarrow> (Inl (File_key_encryption_failed Missing_required_parameters), e)
      | Some pw \<Rightarrow>
          if pw = [] then (Inl (File_key_encryption_failed Missing_required_parameters), e)
          else
            (let passwordKey = deriveKeyFromPassword L pw salt' in
             (case encryptData L e fileKey' passwordKey of
                (Inl err, e') \<Rightarrow> (Inl (File_key_encryption_failed err), e')
              | (Inr r, e') \<Rightarrow>
                  (let keyBlob = iv r @ authTag r @ encryptedData r in
                   (Inr \<lparr>encryptedKeyBlob = toString_base64 keyBlob,
                         salt = toString_base64 salt'\<rparr>, e')))))"

text \<open>
  \<open>decryptFileKey\<close>. The two stored fields are nullable columns; \<open>Buffer.from(null, 'base64')\<close>
  throws a TypeError. Every error is rethrown as ``File key decryption failed: \<dots>''.
\<close>

definition decryptFileKey ::
  "node_crypto \<Rightarrow> string option \<Rightarrow> string \<Rightarrow> string option \<Rightarrow> js_error + buffer" where
  "decryptFileKey L encryptedKeyBlob' password saltBase64 =
     (case encryptedKeyBlob' of
        None \<Rightarrow> Inl (File_key_decryption_failed ERR_INVALID_ARG_TYPE)
      | Some blob64 \<Rightarrow>
          (case saltBase64 of
             None \<Rightarrow> Inl (File_key_decryption_failed ERR_INVALID_ARG_TYPE)
           | Some salt64 \<Rightarrow>
               (let keyBlob = Buffer_from_base64 blob64;
                    salt' = Buffer_from_base64 salt64;
                    nonce = subarray keyBlob 0 12;
                    tag = subarray keyBlob 12 28;
                    ct = subarray_from keyBlob 28;
                    passwordKey = deriveKeyFromPassword L password salt'
                in (case decryptData L ct passwordKey nonce tag of
                      Inl err \<Rightarrow> Inl (File_key_decryption_failed err)
                    | Inr fileKey' \<Rightarrow> Inr fileKey'))))"

definition calculateHash :: "node_crypto \<Rightarrow> buffer \<Rightarrow> string" where
  "calculateHash L data = sha256_hex L data"

definition generateToken :: "entropy \<Rightarrow> string \<times> entropy" where
  "generateToken e = (let (bytes, e') = randomBytes 32 e in (toString_base64url bytes, e'))"

definition encryptFileForStorage ::
  "node_crypto \<Rightarrow> entropy \<Rightarrow> buffer \<Rightarrow> (js_error + stored) \<times> entropy" where
  "encryptFileForStorage L e fileData =
     (let (key, e1) = generateFileKey e in
      (case encryptData L e1 fileData key of
         (Inl err, e2) \<Rightarrow> (Inl err, e2)
       | (Inr r, e2) \<Rightarrow>
           (Inr \<lparr>encryptedData = encryptedData r, iv = iv r, authTag = authTag r,
                 fileKey = key\<rparr>, e2)))"

text \<open>\<open>createStorageBlob\<close> returns at its first statement; the lines after it never run.\<close>

definition createStorageBlob :: "buffer \<Rightarrow> buffer \<Rightarrow> buffer \<Rightarrow> buffer" where
  "createStorageBlob ct nonce tag = nonce @ tag @ ct"

text \<open>
  \<open>parseStorageBlob\<close> reads a four-octet big-endian length, that many octets of JSON
  metadata, then an IV of \<open>metadata.ivLength\<close> octets and the ciphertext.
  \<open>readUInt32BE(0)\<close> throws a RangeError on a buffer of fewer than four octets.

  A parsed JSON value is a \<open>json\<close>; its numbers are taken to be integers, and a key that is
  repeated in an object keeps its last value.
\<close>

datatype json =
    JNull
  | JBool bool
  | JNumber int
  | JString string
  | JArray "json list"
  | JObject "(string \<times> json) list"

text \<open>
  What the JavaScript runtime does for the function, as parameters:
  \<open>JSON.parse(buf.toString('utf8'))\<close> (\<open>None\<close> for a SyntaxError), the string an array or an
  object is converted to when it is added to a number, and the integer \<open>subarray\<close> reads
  from a string index (0 for a string that is no number, any integer beyond the buffer's
  length for an infinity).
\<close>

record js_runtime =
  parse_utf8 :: "buffer \<Rightarrow> json option"
  to_primitive :: "json \<Rightarrow> string"
  string_index :: "string \<Rightarrow> int"

record parsed =
  parsed_encryptedData :: buffer
  parsed_iv :: buffer

definition readUInt32BE0 :: "buffer \<Rightarrow> js_error + nat" where
  "readUInt32BE0 buf =
     (case buf of
        a # b # c # d # _ \<Rightarrow>
          Inr (unat a * 16777216 + unat b * 65536 + unat c * 256 + unat d)
      | _ \<Rightarrow> Inl ERR_BUFFER_OUT_OF_BOUNDS)"

text \<open>
  \<open>metadata.ivLength\<close>: reading a property of \<open>null\<close> throws a TypeError; an object has the
  property or it is \<open>undefined\<close> (\<open>None\<close>); a boolean, a number, a string and an array have no
  property of that name.
\<close>

definition metadata_ivLength :: "json \<Rightarrow> js_error + json option" where
  "metadata_ivLength metadata =
     (case metadata of
        JNull \<Rightarrow> Inl Cannot_read_properties_of_null
      | JObject members \<Rightarrow> Inr (map_of (rev members) ''ivLength'')
      | _ \<Rightarrow> Inr None)"

text \<open>
  \<open>4 + metadataLength + metadata.ivLength\<close> as \<open>subarray\<close> reads it, the left operand being
  the number \<open>n\<close>. Adding \<open>undefined\<close> gives NaN, which is read as index 0; \<open>null\<close> adds 0,
  a boolean 0 or 1, a number itself; a string, an array or an object is concatenated to the
  digits of \<open>n\<close>, and the resulting string is read as an index.
\<close>

definition plus_ivLength :: "js_runtime \<Rightarrow> nat \<Rightarrow> json option \<Rightarrow> int" where
  "plus_ivLength R n ivLength =
     (case ivLength of
        None \<Rightarrow> 0
      | Some JNull \<Rightarrow> int n
      | Some (JBool b) \<Rightarrow> int n + (if b then 1 else 0)
      | Some (JNumber k) \<Rightarrow> int n + k
      | Some (JString s) \<Rightarrow> string_index R (show_nat n @ s)
      | Some v \<Rightarrow> string_index R (show_nat n @ to_primitive R v))"

text \<open>
  \<open>buf.subarray(start, end)\<close> with any integer indices: a negative index counts from the end
  of the buffer, and both are clamped to the buffer.
\<close>

definition relative_index :: "nat \<Rightarrow> int \<Rightarrow> nat" where
  "relative_index len k = (if k < 0 then nat (int len + k) else min (nat k) len)"

definition subarray_rel :: "buffer \<Rightarrow> int \<Rightarrow> int \<Rightarrow> buffer" where
  "subarray_rel buf start end =
     take (relative_index (length buf) end - relative_index (length buf) start)
       (drop (relative_index (length buf) start) buf)"

definition subarray_rel_from :: "buffer \<Rightarrow> int \<Rightarrow> buffer" where
  "subarray_rel_from buf start = drop (relative_index (length buf) start) buf"

definition parseStorageBlob :: "js_runtime \<Rightarrow> buffer \<Rightarrow> js_error + parsed" where
  "parseStorageBlob R storageBlob =
     (case readUInt32BE0 storageBlob of
        Inl err \<Rightarrow> Inl err
      | Inr metadataLength \<Rightarrow>
          (let metadataBuffer = subarray storageBlob 4 (4 + metadataLength) in
           (case parse_utf8 R metadataBuffer of
              None \<Rightarrow> Inl SyntaxError
            | Some metadata \<Rightarrow>
                (case metadata_ivLength metadata of
                   Inl err \<Rightarrow> Inl err
                 | Inr ivLength \<Rightarrow>
                     Inr \<lparr>parsed_encryptedData =
                            subarray_rel_from storageBlob
                              (plus_ivLength R (4 + metadataLength) ivLength),
                          parsed_iv =
                            subarray_rel storageBlob (int (4 + metadataLength))
                              (plus_ivLength R (4 + metadataLength) ivLength)\<rparr>))))"

section \<open>The stores\<close>

text \<open>
  The Prisma tables the routes read and write, as lists of rows, and the Supabase bucket,
  as a map from paths to objects. The stores are assumed to answer: a query or write fails
  only where a constraint of the schema says so (the unique index on a token, an existing
  object path of the bucket). Times are milliseconds since the epoch, and one request sees
  one instant. \<open>created\<close> counts the rows created so far; the id of a new row is drawn
  from it.
\<close>

record file_row =
  file_id :: string
  file_originalName :: string
  file_mimeType :: string
  file_size :: nat
  file_storagePath :: string
  file_coverPath :: string
  file_encryptedKeyBlob :: "string option"
  file_salt :: "string option"
  file_uploadMode :: string
  file_ownerId :: string
  file_folderId :: string

record folder_row =
  folder_id :: string
  folder_isProtected :: bool
  folder_passwordHash :: "string option"
  folder_ownerId :: string

record token_row =
  token :: string
  token_folderId :: string
  token_userId :: string
  expiresAt :: nat

datatype metadata =
    FileId string
  | FileIdError string js_error
  | FolderId string
  | FolderIdReason string string
  | UploadCounts string nat nat

record security_log =
  log_userId :: "string option"
  action :: string
  success :: bool
  ipAddress :: string
  userAgent :: string
  metadata :: metadata

record world =
  files :: "file_row list"
  folders :: "folder_row list"
  folderAccessTokens :: "token_row list"
  securityLogs :: "security_log list"
  bucket :: "string \<Rightarrow> buffer option"
  created :: nat

text \<open>The part of an authenticated request every handler reads: \<open>req.user.id\<close> (set by the
  authentication middleware), the \<open>x-folder-token\<close> header, \<open>req.ip\<close> and the User-Agent.\<close>

record request =
  user_id :: string
  x_folder_token :: "string option"
  ip :: string
  user_agent :: string

text \<open>What \<open>prisma.file.create\<close> returns under the \<open>select\<close> of the upload route (the
  timestamp columns are left out of the model).\<close>

record saved_file =
  saved_id :: string
  saved_originalName :: string
  saved_mimeType :: string
  saved_size :: nat
  saved_coverPath :: string

definition file_select :: "file_row \<Rightarrow> saved_file" where
  "file_select row =
     \<lparr>saved_id = file_id row, saved_originalName = file_originalName row,
      saved_mimeType = file_mimeType row, saved_size = file_size row,
      saved_coverPath = file_coverPath row\<rparr>"

datatype body =
    Error string
  | ErrorRequiresFolderPassword string
  | ErrorDetails string
  | ErrorSuccess string bool
  | Unhandled js_error
  | Message string
  | FileKey string
  | Octets buffer
  | Unlocked string string nat
  | Uploaded string "saved_file list" "(string \<times> js_error) list"

type_synonym response = "nat \<times> body"

text \<open>JavaScript's truthiness of a possibly missing string, and \<open>a || b\<close> on such values.\<close>

definition falsy :: "string option \<Rightarrow> bool" where
  "falsy v = (case v of None \<Rightarrow> True | Some s \<Rightarrow> s = [])"

definition js_or :: "string option \<Rightarrow> string option \<Rightarrow> string option" where
  "js_or a b = (if falsy a then b else a)"

definition or_default :: "string option \<Rightarrow> string \<Rightarrow> string" where
  "or_default v d = (case js_or v (Some d) of Some s \<Rightarrow> s | None \<Rightarrow> d)"

definition nth_opt :: "'a list \<Rightarrow> nat \<Rightarrow> 'a option" where
  "nth_opt xs i = (if i < length xs then Some (xs ! i) else None)"

definition securityLog_create :: "security_log \<Rightarrow> world \<Rightarrow> world" where
  "securityLog_create entry w = w\<lparr>securityLogs := securityLogs w @ [entry]\<rparr>"

text \<open>\<open>prisma.folderAccessToken.findFirst\<close> with the \<open>where\<close> clause the middleware and the
  two file routes share: token, folder, user, and \<open>expiresAt: { gt: new Date() }\<close>.\<close>

definition folderAccessToken_findFirst ::
  "world \<Rightarrow> string \<Rightarrow> string \<Rightarrow> string \<Rightarrow> nat \<Rightarrow> token_row option" where
  "folderAccessToken_findFirst w accessToken folderId userId now =
     find (\<lambda>t. token t = accessToken \<and> token_folderId t = folderId
               \<and> token_userId t = userId \<and> expiresAt t > now)
       (folderAccessTokens w)"

definition file_findFirst :: "world \<Rightarrow> string \<Rightarrow> string \<Rightarrow> file_row option" where
  "file_findFirst w fileId ownerId =
     find (\<lambda>f. file_id f = fileId \<and> file_ownerId f = ownerId) (files w)"

definition folder_findFirst :: "world \<Rightarrow> string \<Rightarrow> string \<Rightarrow> folder_row option" where
  "folder_findFirst w folderId ownerId =
     find (\<lambda>d. folder_id d = folderId \<and> folder_ownerId d = ownerId) (folders w)"

text \<open>The \<open>folder\<close> relation of a file row (\<open>include: { folder: true }\<close>).\<close>

definition file_folder :: "world \<Rightarrow> file_row \<Rightarrow> folder_row option" where
  "file_folder w f = find (\<lambda>d. folder_id d = file_folderId f) (folders w)"

section \<open>middleware/auth.js: verifyFolderAccess\<close>

text \<open>
  The middleware answers itself (\<open>Inl\<close>) or calls \<open>next()\<close> with \<open>req.folder\<close> and, for a
  protected folder, \<open>req.folderAccessToken\<close> (\<open>Inr\<close>). It returns the stores as it found them.
\<close>

definition verifyFolderAccess ::
  "nat \<Rightarrow> request \<Rightarrow> string option \<Rightarrow> string option \<Rightarrow> world
    \<Rightarrow> (response + folder_row \<times> token_row option) \<times> world" where
  "verifyFolderAccess now req params_id params_folderId w =
     (case js_or params_id params_folderId of
        None \<Rightarrow> (Inl (400, Error ''Folder ID required''), w)
      | Some folderId \<Rightarrow>
          if folderId = [] then (Inl (400, Error ''Folder ID required''), w)
          else
            (case folder_findFirst w folderId (user_id req) of
               None \<Rightarrow> (Inl (404, Error ''Folder not found''), w)
             | Some folder \<Rightarrow>
                 if \<not> folder_isProtected folder then (Inr (folder, None), w)
                 else
                   (case x_folder_token req of
                      None \<Rightarrow>
                        (Inl (403, ErrorRequiresFolderPassword ''Folder access token required''), w)
                    | Some accessToken \<Rightarrow>
                        if accessToken = [] then
                          (Inl (403, ErrorRequiresFolderPassword ''Folder access token required''), w)
                        else
                          (case folderAccessToken_findFirst w accessToken folderId
                                  (user_id req) now of
                             None \<Rightarrow>
                               (Inl (403, ErrorRequiresFolderPassword
                                            ''Invalid or expired folder access token''), w)
                           | Some tokenRecord \<Rightarrow> (Inr (folder, Some tokenRecord), w)))))"

section \<open>routes/folders.js: POST /:id/unlock\<close>

text \<open>
  \<open>unlockFolderSchema\<close> asks for a non-empty string. A token that is already in the table
  violates its unique index: \<open>create\<close> throws and the handler's \<open>catch\<close> answers 500.
\<close>

definition folderAccessToken_create :: "token_row \<Rightarrow> world \<Rightarrow> js_error + world" where
  "folderAccessToken_create row w =
     (if list_ex (\<lambda>t. token t = token row) (folderAccessTokens w)
      then Inl Unique_constraint_failed
      else Inr (w\<lparr>folderAccessTokens := folderAccessTokens w @ [row]\<rparr>))"

definition unlock_log :: "request \<Rightarrow> bool \<Rightarrow> metadata \<Rightarrow> security_log" where
  "unlock_log req ok m =
     \<lparr>log_userId = Some (user_id req), action = ''folder_unlock_attempt'', success = ok,
      ipAddress = ip req, userAgent = user_agent req, metadata = m\<rparr>"

definition post_unlock ::
  "entropy \<Rightarrow> nat \<Rightarrow> request \<Rightarrow> string \<Rightarrow> string option \<Rightarrow> world
    \<Rightarrow> (response \<times> world) \<times> entropy" where
  "post_unlock e now req folderId body_password w =
     (if falsy body_password then (((400, ErrorDetails ''Validation failed''), w), e)
      else
        (case folder_findFirst w folderId (user_id req) of
           None \<Rightarrow> (((404, Error ''Folder not found''), w), e)
         | Some folder \<Rightarrow>
             if \<not> folder_isProtected folder then
               (((400, Error ''Folder is not password protected''), w), e)
             else if folder_passwordHash folder \<noteq> body_password then
               (((401, Error ''Invalid folder password''),
                 securityLog_create
                   (unlock_log req False (FolderIdReason folderId ''invalid_password'')) w), e)
             else
               (let (accessToken, e') = generateToken e;
                    expires = now + 2 * 60 * 60 * 1000
                in (case folderAccessToken_create
                           \<lparr>token = accessToken, token_folderId = folderId,
                            token_userId = user_id req, expiresAt = expires\<rparr> w of
                      Inl err \<Rightarrow>
                        (((500, Error ''Password verification failed''),
                          securityLog_create
                            (unlock_log req False
                               (FolderIdReason folderId ''verification_error'')) w), e')
                    | Inr w1 \<Rightarrow>
                        (((200, Unlocked ''Folder unlocked successfully'' accessToken expires),
                          securityLog_create (unlock_log req True (FolderId folderId)) w1),
                         e')))))"

section \<open>routes/files.js: the read and delete routes\<close>

text \<open>
  \<open>POST /:id/decrypt-key\<close>. After the password and the file are checked, the handler checks
  the folder's token inline, then runs the \<open>try\<close> block: the unwrap, the audit row, the
  response. The \<open>try\<close> block is \<open>decrypt_key_attempt\<close>.
\<close>

definition unlock_attempt_log :: "request \<Rightarrow> bool \<Rightarrow> metadata \<Rightarrow> security_log" where
  "unlock_attempt_log req ok m =
     \<lparr>log_userId = Some (user_id req), action = ''file_unlock_attempt'', success = ok,
      ipAddress = ip req, userAgent = user_agent req, metadata = m\<rparr>"

definition decrypt_key_attempt ::
  "node_crypto \<Rightarrow> request \<Rightarrow> string \<Rightarrow> string \<Rightarrow> file_row \<Rightarrow> world \<Rightarrow> response \<times> world" where
  "decrypt_key_attempt L req fileId password f w =
     (case decryptFileKey L (file_encryptedKeyBlob f) password (file_salt f) of
        Inr key \<Rightarrow>
          ((200, FileKey (toString_base64 key)),
           securityLog_create (unlock_attempt_log req True (FileId fileId)) w)
      | Inl err \<Rightarrow>
          ((401, ErrorSuccess ''Invalid password'' False),
           securityLog_create (unlock_attempt_log req False (FileIdError fileId err)) w))"

definition post_decrypt_key ::
  "node_crypto \<Rightarrow> nat \<Rightarrow> request \<Rightarrow> string \<Rightarrow> string option \<Rightarrow> world \<Rightarrow> response \<times> world"
  where
  "post_decrypt_key L now req fileId body_password w =
     (case body_password of
        None \<Rightarrow> ((400, Error ''Password required''), w)
      | Some password \<Rightarrow>
          if password = [] then ((400, Error ''Password required''), w)
          else
            (case file_findFirst w fileId (user_id req) of
               None \<Rightarrow> ((404, Error ''File not found''), w)
             | Some f \<Rightarrow>
                 (case file_folder w f of
                    None \<Rightarrow> ((500, Unhandled Cannot_read_properties_of_null), w)
                  | Some folder \<Rightarrow>
                      if folder_isProtected folder then
                        (case x_folder_token req of
                           None \<Rightarrow>
                             ((403, ErrorRequiresFolderPassword
                                      ''Folder access token required''), w)
                         | Some accessToken \<Rightarrow>
                             if accessToken = [] then
                               ((403, ErrorRequiresFolderPassword
                                        ''Folder access token required''), w)
                             else
                               (case folderAccessToken_findFirst w accessToken
                                       (folder_id folder) (user_id req) now of
                                  None \<Rightarrow>
                                    ((403, ErrorRequiresFolderPassword
                                             ''Invalid or expired folder access token''), w)
                                | Some tokenRecord \<Rightarrow>
                                    decrypt_key_attempt L req fileId password f w))
                      else decrypt_key_attempt L req fileId password f w)))"

text \<open>\<open>GET /:id/encrypted\<close>: the same inline check, then the download from the bucket.\<close>

definition downloadEncryptedFile :: "world \<Rightarrow> string \<Rightarrow> buffer option" where
  "downloadEncryptedFile w filePath = bucket w filePath"

definition get_encrypted_send :: "file_row \<Rightarrow> world \<Rightarrow> response \<times> world" where
  "get_encrypted_send f w =
     (case downloadEncryptedFile w (file_storagePath f) of
        None \<Rightarrow> ((500, Error ''Failed to get encrypted file''), w)
      | Some encryptedBuffer \<Rightarrow> ((200, Octets encryptedBuffer), w))"

definition get_encrypted :: "nat \<Rightarrow> request \<Rightarrow> string \<Rightarrow> world \<Rightarrow> response \<times> world" where
  "get_encrypted now req fileId w =
     (case file_findFirst w fileId (user_id req) of
        None \<Rightarrow> ((404, Error ''File not found''), w)
      | Some f \<Rightarrow>
          (case file_folder w f of
             None \<Rightarrow> ((500, Unhandled Cannot_read_properties_of_null), w)
           | Some folder \<Rightarrow>
               if folder_isProtected folder then
                 (case x_folder_token req of
                    None \<Rightarrow>
                      ((403, ErrorRequiresFolderPassword ''Folder access token required''), w)
                  | Some accessToken \<Rightarrow>
                      if accessToken = [] then
                        ((403, ErrorRequiresFolderPassword ''Folder access token required''), w)
                      else
                        (case folderAccessToken_findFirst w accessToken (file_folderId f)
                                (user_id req) now of
                           None \<Rightarrow>
                             ((403, ErrorRequiresFolderPassword
                                      ''Invalid or expired folder access token''), w)
                         | Some tokenRecord \<Rightarrow> get_encrypted_send f w))
               else get_encrypted_send f w))"

text \<open>
  \<open>DELETE /:id\<close>: the file is looked up by id and owner, its two objects are removed from
  the bucket (\<open>deleteFile\<close> swallows its errors), and the row is deleted. The handler reads
  neither the folder nor the \<open>x-folder-token\<close> header.
\<close>

definition deleteFile :: "string \<Rightarrow> world \<Rightarrow> world" where
  "deleteFile filePath w = w\<lparr>bucket := (bucket w)(filePath := None)\<rparr>"

definition file_delete :: "string \<Rightarrow> world \<Rightarrow> world" where
  "file_delete fileId w = w\<lparr>files := filter (\<lambda>f. file_id f \<noteq> fileId) (files w)\<rparr>"

definition delete_file :: "request \<Rightarrow> string \<Rightarrow> world \<Rightarrow> response \<times> world" where
  "delete_file req fileId w =
     (case file_findFirst w fileId (user_id req) of
        None \<Rightarrow> ((404, Error ''File not found''), w)
      | Some f \<Rightarrow>
          ((200, Message ''File deleted successfully''),
           file_delete fileId (deleteFile (file_coverPath f) (deleteFile (file_storagePath f) w))))"

section \<open>routes/files.js: POST /:folderId/files\<close>

text \<open>
  The collaborators of the upload: \<open>JSON.parse\<close> (\<open>None\<close> for a SyntaxError), the cover
  generator's URL, and the id Prisma gives a new row.
\<close>

record services =
  JSON_parse :: "string \<Rightarrow> json option"
  generateCover_data :: "buffer \<Rightarrow> string \<Rightarrow> string \<Rightarrow> string"
  cuid :: "nat \<Rightarrow> string"

record upload =
  originalname :: string
  mimetype :: string
  upload_buffer :: buffer
  upload_size :: nat

text \<open>\<open>secureUploadSchema\<close>: an array, every item a string of at least four characters, and
  at least one item (the item schema is \<open>required()\<close>). The schema is applied to the parsed
  value as it is.\<close>

fun password_item :: "json \<Rightarrow> string option" where
  "password_item (JString s) = (if 4 \<le> length s then Some s else None)"
| "password_item _ = None"

definition secureUploadSchema_validate :: "json \<Rightarrow> string list option" where
  "secureUploadSchema_validate j =
     (case j of
        JArray items \<Rightarrow>
          if items \<noteq> [] \<and> list_all (\<lambda>x. password_item x \<noteq> None) items
          then Some (map (\<lambda>x. the (password_item x)) items) else None
      | _ \<Rightarrow> None)"

text \<open>\<open>passwords[i] || passwords[0]\<close>\<close>

definition select_password :: "string list \<Rightarrow> nat \<Rightarrow> string option" where
  "select_password passwords i = js_or (nth_opt passwords i) (nth_opt passwords 0)"

definition imageSignatures :: "buffer list" where
  "imageSignatures =
     [0xFF, 0xD8, 0xFF] # [0x89, 0x50, 0x4E, 0x47] # [0x47, 0x49, 0x46] # [0x42, 0x4D]
       # [0x52, 0x49, 0x46, 0x46] # []"

definition validateImage :: "buffer \<Rightarrow> bool" where
  "validateImage buf \<longleftrightarrow>
     buf \<noteq> [] \<and> list_ex (\<lambda>signature. take (length signature) buf = signature) imageSignatures"

text \<open>The bucket refuses a path that already holds an object (no \<open>upsert\<close> is asked for);
  \<open>data.path\<close> of a successful upload is the path that was sent.\<close>

definition bucket_upload :: "string \<Rightarrow> buffer \<Rightarrow> world \<Rightarrow> js_error + string \<times> world" where
  "bucket_upload filePath fileBuffer w =
     (case bucket w filePath of
        Some _ \<Rightarrow> Inl Supabase_upload_failed
      | None \<Rightarrow> Inr (filePath, w\<lparr>bucket := (bucket w)(filePath \<mapsto> fileBuffer)\<rparr>))"

definition uploadEncryptedFile ::
  "nat \<Rightarrow> buffer \<Rightarrow> string \<Rightarrow> world \<Rightarrow> js_error + string \<times> world" where
  "uploadEncryptedFile now fileBuffer fileName w =
     bucket_upload (''encrypted/'' @ show_nat now @ ''-'' @ fileName) fileBuffer w"

definition uploadFile :: "nat \<Rightarrow> buffer \<Rightarrow> string \<Rightarrow> world \<Rightarrow> js_error + string \<times> world" where
  "uploadFile now fileBuffer fileName w =
     bucket_upload (''normal/'' @ show_nat now @ ''-'' @ fileName) fileBuffer w"

text \<open>
  The state of the loop over \<open>req.files\<close>: the stores, the random source, \<open>uploadedFiles\<close> and
  \<open>errors\<close>. \<open>store_file\<close> is the \<open>if (uploadMode === 'secure') \<dots> else \<dots>\<close> block of the
  body; it yields \<open>storagePath\<close>, \<open>encryptedKeyBlob\<close> and \<open>salt\<close> (the last two stay
  \<open>undefined\<close> in the \<open>else\<close> branch), or the error that was thrown.
\<close>

type_synonym loop_state =
  "world \<times> entropy \<times> saved_file list \<times> (string \<times> js_error) list"

definition store_file ::
  "node_crypto \<Rightarrow> nat \<Rightarrow> string \<Rightarrow> string option \<Rightarrow> upload \<Rightarrow> string \<Rightarrow> world \<Rightarrow> entropy
    \<Rightarrow> (js_error + string \<times> string option \<times> buffer option) \<times> world \<times> entropy" where
  "store_file L now uploadMode password file fileHash w e =
     (if uploadMode = ''secure'' then
        (case encryptFileForStorage L e (upload_buffer file) of
           (Inl err, e1) \<Rightarrow> (Inl err, w, e1)
         | (Inr enc, e1) \<Rightarrow>
             (let storageBlob = createStorageBlob (encryptedData enc) (iv enc) (authTag enc);
                  (salt', e2) = generateSalt e1
              in (case encryptFileKey L e2 (fileKey enc) password salt' of
                    (Inl err, e3) \<Rightarrow> (Inl err, w, e3)
                  | (Inr encryptionResult, e3) \<Rightarrow>
                      if encryptedKeyBlob encryptionResult = [] then
                        (Inl No_encrypted_blob_returned, w, e3)
                      else
                        (case uploadEncryptedFile now storageBlob
                                (''encrypted/'' @ fileHash @ ''-'' @ originalname file) w of
                           Inl err \<Rightarrow> (Inl err, w, e3)
                         | Inr (storagePath, w1) \<Rightarrow>
                             (Inr (storagePath, Some (encryptedKeyBlob encryptionResult),
                                   Some salt'), w1, e3)))))
      else
        (case uploadFile now (upload_buffer file)
                (''normal/'' @ fileHash @ ''-'' @ originalname file) w of
           Inl err \<Rightarrow> (Inl err, w, e)
         | Inr (storagePath, w1) \<Rightarrow> (Inr (storagePath, None, None), w1, e)))"

definition process_file ::
  "node_crypto \<Rightarrow> services \<Rightarrow> nat \<Rightarrow> request \<Rightarrow> string \<Rightarrow> string \<Rightarrow> string list
    \<Rightarrow> upload \<Rightarrow> nat \<Rightarrow> loop_state \<Rightarrow> loop_state" where
  "process_file L S now req folderId uploadMode passwords file i st =
     (case st of (w, e, uploadedFiles, errors) \<Rightarrow>
        (let password = (if uploadMode = ''secure'' then select_password passwords i else None);
             isImage = (take 6 (mimetype file) = ''image/'')
         in if isImage \<and> \<not> validateImage (upload_buffer file) then
              (w, e, uploadedFiles, errors @ [(originalname file, Invalid_image_format)])
            else
              (let fileHash = calculateHash L (upload_buffer file) in
               (case store_file L now uploadMode password file fileHash w e of
                  (Inl err, w1, e1) \<Rightarrow>
                    (w1, e1, uploadedFiles, errors @ [(originalname file, err)])
                | (Inr (storagePath, keyBlob, salt'), w1, e1) \<Rightarrow>
                    (let coverPath =
                           generateCover_data S (upload_buffer file) fileHash (user_id req);
                         row =
                           \<lparr>file_id = cuid S (created w1),
                            file_originalName = originalname file,
                            file_mimeType = mimetype file,
                            file_size = upload_size file,
                            file_storagePath = storagePath,
                            file_coverPath = coverPath,
                            file_encryptedKeyBlob = keyBlob,
                            file_salt = map_option toString_base64 salt',
                            file_uploadMode = uploadMode,
                            file_ownerId = user_id req,
                            file_folderId = folderId\<rparr>
                     in (w1\<lparr>files := files w1 @ [row], created := Suc (created w1)\<rparr>,
                         e1, uploadedFiles @ [file_select row], errors))))))"

fun process_files ::
  "node_crypto \<Rightarrow> services \<Rightarrow> nat \<Rightarrow> request \<Rightarrow> string \<Rightarrow> string \<Rightarrow> string list
    \<Rightarrow> upload list \<Rightarrow> nat \<Rightarrow> loop_state \<Rightarrow> loop_state" where
  "process_files L S now req folderId uploadMode passwords [] i st = st"
| "process_files L S now req folderId uploadMode passwords (file # rest) i st =
     process_files L S now req folderId uploadMode passwords rest (Suc i)
       (process_file L S now req folderId uploadMode passwords file i st)"

text \<open>
  The handler. \<open>coverTypes[i]\<close> is read outside the \<open>try\<close>: on a parsed \<open>null\<close> the first
  iteration throws a TypeError, which reaches the error handler before any file is touched.
  The cover generator ignores the cover type, so nothing else of it is kept.
\<close>

definition upload_log :: "request \<Rightarrow> string \<Rightarrow> nat \<Rightarrow> nat \<Rightarrow> security_log" where
  "upload_log req folderId filesUploaded filesError =
     \<lparr>log_userId = Some (user_id req), action = ''file_upload'', success = (filesUploaded > 0),
      ipAddress = ip req, userAgent = user_agent req,
      metadata = UploadCounts folderId filesUploaded filesError\<rparr>"

definition upload_loop ::
  "node_crypto \<Rightarrow> services \<Rightarrow> entropy \<Rightarrow> nat \<Rightarrow> request \<Rightarrow> string \<Rightarrow> string \<Rightarrow> string list
    \<Rightarrow> json \<Rightarrow> upload list \<Rightarrow> world \<Rightarrow> (response \<times> world) \<times> entropy" where
  "upload_loop L S e now req folderId uploadMode passwords coverTypes req_files w =
     (if coverTypes = JNull then (((500, Unhandled Cannot_read_properties_of_null), w), e)
      else
        (case process_files L S now req folderId uploadMode passwords req_files 0
                (w, e, [], []) of
           (w1, e1, uploadedFiles, errors) \<Rightarrow>
             (((201, Uploaded (show_nat (length uploadedFiles) @ '' files uploaded successfully'')
                       uploadedFiles errors),
               securityLog_create
                 (upload_log req folderId (length uploadedFiles) (length errors)) w1), e1)))"

definition post_files ::
  "node_crypto \<Rightarrow> services \<Rightarrow> entropy \<Rightarrow> nat \<Rightarrow> request \<Rightarrow> string \<Rightarrow> upload list
    \<Rightarrow> string option \<Rightarrow> string option \<Rightarrow> string option \<Rightarrow> world
    \<Rightarrow> (response \<times> world) \<times> entropy" where
  "post_files L S e now req folderId req_files body_uploadMode body_passwords body_coverTypes w =
     (if req_files = [] then (((400, Error ''No files provided''), w), e)
      else
        (let uploadMode = or_default body_uploadMode ''secure'' in
         (case (if uploadMode = ''secure''
                then JSON_parse S (or_default body_passwords ''[]'')
                else Some (JArray [])) of
            None \<Rightarrow> (((400, Error ''Invalid passwords format''), w), e)
          | Some passwords \<Rightarrow>
              (case JSON_parse S (or_default body_coverTypes ''[]'') of
                 None \<Rightarrow> (((400, Error ''Invalid cover types format''), w), e)
               | Some coverTypes \<Rightarrow>
                   if uploadMode = ''secure'' then
                     (case secureUploadSchema_validate passwords of
                        None \<Rightarrow> (((400, ErrorDetails ''Validation failed''), w), e)
                      | Some pws \<Rightarrow>
                          if length pws \<noteq> length req_files then
                            (((400, Error ''Number of passwords must match number of files''),
                              w), e)
                          else upload_loop L S e now req folderId uploadMode pws coverTypes
                                 req_files w)
                   else upload_loop L S e now req folderId uploadMode [] coverTypes
                          req_files w))))"

section \<open>A small instance of the library and sample data\<close>

text \<open>
  An instance of the library's interface that satisfies \<open>node_crypto_ok\<close>, to run the
  service on concrete inputs: a one-octet XOR mask as the cipher, a sum as the tag and as
  the key derivation. It stands for nothing beyond the interface.
\<close>

definition xor_mask :: "buffer \<Rightarrow> buffer \<Rightarrow> byte" where
  "xor_mask key nonce = sum_list (take 1 key) + sum_list nonce"

definition xor_tag :: "buffer \<Rightarrow> buffer \<Rightarrow> buffer \<Rightarrow> buffer \<Rightarrow> buffer" where
  "xor_tag key nonce aad ct =
     replicate 16 (sum_list (take 1 key) + sum_list nonce + sum_list aad + sum_list ct)"

definition xor_seal :: "buffer \<Rightarrow> buffer \<Rightarrow> buffer \<Rightarrow> buffer \<Rightarrow> (buffer \<times> buffer) option" where
  "xor_seal key nonce aad plaintext =
     (if length key = 32 \<and> nonce \<noteq> [] then
        (let ct = map (\<lambda>b. xor b (xor_mask key nonce)) plaintext
         in Some (ct, xor_tag key nonce aad ct))
      else None)"

definition xor_open :: "buffer \<Rightarrow> buffer \<Rightarrow> buffer \<Rightarrow> buffer \<Rightarrow> buffer \<Rightarrow> buffer option" where
  "xor_open key nonce aad tag ct =
     (if length key = 32 \<and> nonce \<noteq> [] \<and> tag = xor_tag key nonce aad ct
      then Some (map (\<lambda>b. xor b (xor_mask key nonce)) ct) else None)"

definition sum_pbkdf2 :: "string \<Rightarrow> buffer \<Rightarrow> nat \<Rightarrow> nat \<Rightarrow> string \<Rightarrow> buffer" where
  "sum_pbkdf2 password salt' iterations keylen digest =
     map (\<lambda>i. of_nat i + sum_list (Buffer_from_ascii password) + sum_list salt')
       [0..<keylen]"

definition sample_crypto :: node_crypto where
  "sample_crypto =
     \<lparr>aes_256_gcm_seal = xor_seal, aes_256_gcm_open = xor_open, pbkdf2 = sum_pbkdf2,
      sha256_hex = (\<lambda>buf. show_nat (unat (sum_list buf)))\<rparr>"

definition sample_services :: services where
  "sample_services =
     \<lparr>JSON_parse =
        (\<lambda>s. if s = ''[]'' then Some (JArray [])
             else if s = ''[\"abcd\"]'' then Some (JArray [JString ''abcd''])
             else if s = ''[\"abcd\",\"efgh\"]'' then Some (JArray [JString ''abcd'', JString ''efgh''])
             else None),
      generateCover_data = (\<lambda>buf fileHash ownerId. ''https://images.unsplash.com/cover''),
      cuid = (\<lambda>n. ''c'' @ show_nat n)\<rparr>"

definition sample_entropy :: entropy where
  "sample_entropy = (\<lambda>i. of_nat (7 * i + 3))"

definition sample_key :: buffer where
  "sample_key = map of_nat [100..<132]"

definition sample_salt :: buffer where
  "sample_salt = map of_nat [200..<232]"

definition alice :: request where
  "alice = \<lparr>user_id = ''alice'', x_folder_token = None, ip = ''10.0.0.1'',
            user_agent = ''curl''\<rparr>"

definition bob :: request where
  "bob = \<lparr>user_id = ''bob'', x_folder_token = None, ip = ''10.0.0.2'',
          user_agent = ''curl''\<rparr>"

definition vault :: folder_row where
  "vault = \<lparr>folder_id = ''vault'', folder_isProtected = True,
            folder_passwordHash = Some ''folder123'', folder_ownerId = ''alice''\<rparr>"

definition album :: folder_row where
  "album = \<lparr>folder_id = ''album'', folder_isProtected = False,
            folder_passwordHash = None, folder_ownerId = ''alice''\<rparr>"

definition secret_file :: file_row where
  "secret_file =
     \<lparr>file_id = ''f1'', file_originalName = ''cat.png'', file_mimeType = ''image/png'',
      file_size = 4, file_storagePath = ''encrypted/1-encrypted/7-cat.png'',
      file_coverPath = ''https://images.unsplash.com/cover'',
      file_encryptedKeyBlob = Some ''AAAA'', file_salt = Some ''AAAA'',
      file_uploadMode = ''secure'', file_ownerId = ''alice'', file_folderId = ''vault''\<rparr>"

definition plain_file :: file_row where
  "plain_file =
     \<lparr>file_id = ''f2'', file_originalName = ''dog.png'', file_mimeType = ''image/png'',
      file_size = 4, file_storagePath = ''normal/1-normal/7-dog.png'',
      file_coverPath = ''https://images.unsplash.com/cover'',
      file_encryptedKeyBlob = None, file_salt = None,
      file_uploadMode = ''normal'', file_ownerId = ''alice'', file_folderId = ''album''\<rparr>"

definition wrapped_file :: file_row where
  "wrapped_file =
     \<lparr>file_id = ''f3'', file_originalName = ''owl.png'', file_mimeType = ''image/png'',
      file_size = 4, file_storagePath = ''encrypted/1-encrypted/9-owl.png'',
      file_coverPath = ''https://images.unsplash.com/cover'',
      file_encryptedKeyBlob =
        Some ''AwoRGB8mLTQ7QklQ5+fn5+fn5+fn5+fn5+fn5wgJCgsEBQYHAAECAxwdHh8YGRobFBUWFxAREhPs7e7v'',
      file_salt = Some ''yMnKy8zNzs/Q0dLT1NXW19jZ2tvc3d7f4OHi4+Tl5uc='',
      file_uploadMode = ''secure'', file_ownerId = ''alice'', file_folderId = ''album''\<rparr>"

definition tampered_file :: file_row where
  "tampered_file =
     \<lparr>file_id = ''f4'', file_originalName = ''fox.png'', file_mimeType = ''image/png'',
      file_size = 4, file_storagePath = ''encrypted/1-encrypted/5-fox.png'',
      file_coverPath = ''https://images.unsplash.com/cover'',
      file_encryptedKeyBlob =
        Some ''AwoRGB8mLTQ7QklQ5+fn5+fn5+fn5+fn5+fn5wgJCgsEBQYHAAECAxwdHh8YGRobFBUWFxAREhPs7e7w'',
      file_salt = Some ''yMnKy8zNzs/Q0dLT1NXW19jZ2tvc3d7f4OHi4+Tl5uc='',
      file_uploadMode = ''secure'', file_ownerId = ''alice'', file_folderId = ''album''\<rparr>"

definition sample_world :: world where
  "sample_world =
     \<lparr>files = [secret_file, plain_file, wrapped_file, tampered_file],
      folders = [vault, album],
      folderAccessTokens = [],
      securityLogs = [],
      bucket = [''encrypted/1-encrypted/7-cat.png'' \<mapsto> [1, 2, 3, 4],
                ''normal/1-normal/7-dog.png'' \<mapsto> [0x89, 0x50, 0x4E, 0x47]],
      created = 4\<rparr>"

definition png_upload :: upload where
  "png_upload = \<lparr>originalname = ''bird.png'', mimetype = ''image/png'',
                  upload_buffer = [0x89, 0x50, 0x4E, 0x47, 0x0D], upload_size = 5\<rparr>"

definition gif_upload :: upload where
  "gif_upload = \<lparr>originalname = ''fish.gif'', mimetype = ''image/gif'',
                  upload_buffer = [0x47, 0x49, 0x46, 0x38], upload_size = 4\<rparr>"

definition vault_token :: token_row where
  "vault_token = \<lparr>token = ''tok'', token_folderId = ''vault'', token_userId = ''alice'',
                  expiresAt = 5000\<rparr>"

definition unlocked_world :: world where
  "unlocked_world = sample_world\<lparr>folderAccessTokens := [vault_token]\<rparr>"

definition alice_unlocked :: request where
  "alice_unlocked = alice\<lparr>x_folder_token := Some ''tok''\<rparr>"

section \<open>The sample instance satisfies the interface\<close>

lemma xor_roundtrip: "map (\<lambda>b. xor b m) (map (\<lambda>b. xor b m) xs) = (xs :: buffer)"
  by (induction xs) (simp_all add: xor.assoc)

lemma xor_seal_open:
  assumes "length key = 32" "length nonce = 12"
  shows "\<exists>ct tag. xor_seal key nonce aad plaintext = Some (ct, tag)
           \<and> length ct = length plaintext \<and> length tag = 16
           \<and> xor_open key nonce aad tag ct = Some plaintext"
proof -
  let ?ct = "map (\<lambda>b. xor b (xor_mask key nonce)) plaintext"
  have ne: "nonce \<noteq> []" using assms(2) by auto
  have "xor_seal key nonce aad plaintext = Some (?ct, xor_tag key nonce aad ?ct)"
    using assms(1) ne by (simp add: xor_seal_def Let_def)
  moreover have "length (xor_tag key nonce aad ?ct) = 16" by (simp add: xor_tag_def)
  moreover have "xor_open key nonce aad (xor_tag key nonce aad ?ct) ?ct = Some plaintext"
    using assms(1) ne xor_roundtrip [of "xor_mask key nonce" plaintext]
    by (simp add: xor_open_def del: map_map)
  ultimately show ?thesis by simp
qed

lemma sample_crypto_ok: "node_crypto_ok sample_crypto"
  unfolding node_crypto_ok_def
  by (simp add: sample_crypto_def xor_seal_open sum_pbkdf2_def)

section \<open>Encryption and key wrapping\<close>

lemma length_randomBytes: "length (fst (randomBytes n e)) = n"
  by (simp add: randomBytes_def)

lemma encryptData_ok:
  assumes "node_crypto_ok L" and "length K = 32"
  shows "\<exists>r. fst (encryptData L e P K) = Inr r
           \<and> snd (encryptData L e P K) = snd (randomBytes 12 e)
           \<and> iv r = fst (randomBytes 12 e) \<and> length (iv r) = 12
           \<and> length (authTag r) = 16 \<and> length (encryptedData r) = length P
           \<and> aes_256_gcm_seal L K (iv r) AAD P = Some (encryptedData r, authTag r)
           \<and> aes_256_gcm_open L K (iv r) AAD (authTag r) (encryptedData r) = Some P"
proof -
  obtain nonce e' where re: "randomBytes 12 e = (nonce, e')" by (cases "randomBytes 12 e")
  then have ln: "length nonce = 12" using length_randomBytes [of 12 e] by simp
  from assms ln obtain ct tag where
    seal: "aes_256_gcm_seal L K nonce AAD P = Some (ct, tag)"
    and len: "length ct = length P" "length tag = 16"
    and op: "aes_256_gcm_open L K nonce AAD tag ct = Some P"
    unfolding node_crypto_ok_def by blast
  show ?thesis
    using re ln seal len op by (simp add: encryptData_def)
qed

lemma encryptFileForStorage_seals:
  assumes "node_crypto_ok L"
  shows "\<exists>s. encryptFileForStorage L e P
               = (Inr s, snd (randomBytes 12 (snd (randomBytes 32 e))))
           \<and> fileKey s = fst (randomBytes 32 e)
           \<and> iv s = fst (randomBytes 12 (snd (randomBytes 32 e)))
           \<and> length (iv s) = 12 \<and> length (authTag s) = 16
           \<and> length (encryptedData s) = length P \<and> length (fileKey s) = 32
           \<and> aes_256_gcm_seal L (fileKey s) (iv s) AAD P = Some (encryptedData s, authTag s)
           \<and> aes_256_gcm_open L (fileKey s) (iv s) AAD (authTag s) (encryptedData s) = Some P"
proof -
  obtain key e1 where g: "randomBytes 32 e = (key, e1)" by (cases "randomBytes 32 e")
  then have lk: "length key = 32"
    using length_randomBytes [of 32 e] by simp
  from encryptData_ok [OF assms lk, of e1 P] obtain r where
    r: "fst (encryptData L e1 P key) = Inr r" "snd (encryptData L e1 P key) = snd (randomBytes 12 e1)"
       "iv r = fst (randomBytes 12 e1)"
       "length (iv r) = 12" "length (authTag r) = 16"
       "length (encryptedData r) = length P"
       "aes_256_gcm_seal L key (iv r) AAD P = Some (encryptedData r, authTag r)"
       "aes_256_gcm_open L key (iv r) AAD (authTag r) (encryptedData r) = Some P"
    by blast
  have ed: "encryptData L e1 P key = (Inr r, snd (randomBytes 12 e1))"
    using r(1,2) by (metis prod.collapse)
  show ?thesis
    using g lk r(3-) ed by (simp add: encryptFileForStorage_def generateFileKey_def)
qed


section \<open>Base64 decoding inverts encoding\<close>

lemma of_char_b64char:
  "n < 64 \<Longrightarrow> (of_char (b64char n) :: nat) =
     (if n < 26 then n + 65 else if n < 52 then n + 71 else if n < 62 then n - 4
      else if n = 62 then 43 else 47)"
  by (simp add: b64char_def)

lemma unbase64_b64char: "n < 64 \<Longrightarrow> unbase64 (b64char n) = Some n"
  unfolding unbase64_def Let_def by (simp only: of_char_b64char) auto

lemma b64char_not_pad: "n < 64 \<Longrightarrow> b64char n \<noteq> CHR ''=''"
proof
  assume "n < 64" and "b64char n = CHR ''=''"
  then have "(of_char (b64char n) :: nat) = 61" by simp
  with \<open>n < 64\<close> show False by (simp add: of_char_b64char split: if_splits)
qed

lemma byte_less: "unat (a :: byte) < 256"
  using unsigned_less [of a] by simp

lemma sextets_bound: "n \<in> set (sextets buf) \<Longrightarrow> n < 64"
proof (induction buf arbitrary: n rule: sextets.induct)
  case (1 a b c rest)
  with byte_less [of a] byte_less [of b] byte_less [of c] show ?case by auto
next
  case (2 a b)
  with byte_less [of a] byte_less [of b] show ?case by auto
next
  case (3 a)
  with byte_less [of a] show ?case by auto
qed simp

lemma regroup1: "b < 256 \<Longrightarrow> (a div 4) * 4 + ((a mod 4) * 16 + b div 16) div 16 = (a::nat)"
  by simp

lemma regroup2:
  assumes "b < 256" "c < 256"
  shows "(((a mod 4) * 16 + b div 16) mod 16) * 16 + ((b mod 16) * 4 + c div 64) div 4 = (b::nat)"
proof -
  have "b div 16 < 16" using assms(1) by simp
  then have hi: "((a mod 4) * 16 + b div 16) mod 16 = b div 16" by simp
  have "c div 64 < 4" using assms(2) by simp
  then have lo: "((b mod 16) * 4 + c div 64) div 4 = b mod 16" by simp
  show ?thesis unfolding hi lo by simp
qed

lemma regroup3:
  assumes "c < 256"
  shows "(((b mod 16) * 4 + c div 64) mod 4) * 64 + c mod 64 = (c::nat)"
proof -
  have "c div 64 < 4" using assms by simp
  then have "((b mod 16) * 4 + c div 64) mod 4 = c div 64" by simp
  then show ?thesis by simp
qed

lemma regroup2_last:
  "b < 256 \<Longrightarrow> (((a mod 4) * 16 + b div 16) mod 16) * 16 + ((b mod 16) * 4) div 4 = (b::nat)"
  using regroup2 [of b 0 a] by simp

lemma regroup1_last: "(a div 4) * 4 + ((a mod 4) * 16) div 16 = (a::nat)"
  using regroup1 [of 0 a] by simp

lemma of_nat_unat_byte: "(of_nat (unat (w :: byte)) :: byte) = w"
  by simp

lemma octet1:
  "(of_nat (unat a div 4 * 4 + (unat a mod 4 * 16 + unat (b :: byte) div 16) div 16) :: byte) = a"
  by (simp only: regroup1 [OF byte_less] of_nat_unat_byte)

lemma octet2:
  "(of_nat ((unat (a :: byte) mod 4 * 16 + unat b div 16) mod 16 * 16
      + (unat b mod 16 * 4 + unat (c :: byte) div 64) div 4) :: byte) = b"
  by (simp only: regroup2 [OF byte_less byte_less] of_nat_unat_byte)

lemma octet3:
  "(of_nat ((unat (b :: byte) mod 16 * 4 + unat c div 64) mod 4 * 64 + unat c mod 64) :: byte) = c"
  by (simp only: regroup3 [OF byte_less] of_nat_unat_byte)

lemma octet1_last:
  "(of_nat (unat a div 4 * 4 + (unat a mod 4 * 16) div 16) :: byte) = a"
  by (simp only: regroup1_last of_nat_unat_byte)

lemma octet2_last:
  "(of_nat ((unat (a :: byte) mod 4 * 16 + unat b div 16) mod 16 * 16
      + (unat b mod 16 * 4) div 4) :: byte) = b"
  by (simp only: regroup2_last [OF byte_less] of_nat_unat_byte)

lemma octets_sextets: "octets (sextets buf) = buf"
proof (induction buf rule: sextets.induct)
  case (1 a b c rest)
  then show ?case
    by (simp only: sextets.simps octets.simps append_Cons append_Nil octet1 octet2 octet3)
next
  case (2 a b)
  show ?case
    by (simp only: sextets.simps octets.simps octet1 octet2_last)
next
  case (3 a)
  show ?case
    by (simp only: sextets.simps octets.simps octet1_last)
next
  case 4
  show ?case by simp
qed

lemma map_filter_unbase64:
  "\<forall>n \<in> set ns. n < 64 \<Longrightarrow> List.map_filter unbase64 (map b64char ns) = ns"
  by (induction ns) (simp_all add: unbase64_b64char)

lemma takeWhile_pad: "takeWhile (\<lambda>c. c \<noteq> CHR ''='') (replicate k CHR ''='') = []"
  by (cases k) simp_all

lemma takeWhile_b64:
  assumes "\<forall>n \<in> set ns. n < 64"
  shows "takeWhile (\<lambda>c. c \<noteq> CHR ''='') (map b64char ns @ replicate k CHR ''='') = map b64char ns"
proof -
  have "\<And>x. x \<in> set (map b64char ns) \<Longrightarrow> x \<noteq> CHR ''=''"
    using assms b64char_not_pad by auto
  then have "takeWhile (\<lambda>c. c \<noteq> CHR ''='') (map b64char ns @ replicate k CHR ''='')
      = map b64char ns @ takeWhile (\<lambda>c. c \<noteq> CHR ''='') (replicate k CHR ''='')"
    by (rule takeWhile_append2)
  then show ?thesis by (simp only: takeWhile_pad append_Nil2)
qed

lemma Buffer_from_toString_base64: "Buffer_from_base64 (toString_base64 buf) = buf"
proof -
  have bound: "\<forall>n \<in> set (sextets buf). n < 64" using sextets_bound by blast
  show ?thesis
    unfolding Buffer_from_base64_def toString_base64_def
    by (simp only: takeWhile_b64 [OF bound] map_filter_unbase64 [OF bound] octets_sextets)
qed

lemma length_sextets: "length (sextets buf) = (length buf * 4 + 2) div 3"
  by (induction buf rule: sextets.induct) simp_all

section \<open>The key blob\<close>

lemma keyBlob_slices:
  assumes "length a = 12" "length b = 16"
  shows "subarray (a @ b @ c) 0 12 = a" "subarray (a @ b @ c) 12 28 = b"
    "subarray_from (a @ b @ c) 28 = c"
  using assms by (simp_all add: subarray_def subarray_from_def)

lemma encryptFileKey_ok:
  assumes ok: "node_crypto_ok L" and pw: "P \<noteq> []"
  shows "\<exists>ct tag. aes_256_gcm_seal L (pbkdf2 L P S 100000 32 ''sha256'')
              (fst (randomBytes 12 e)) AAD K = Some (ct, tag)
           \<and> length ct = length K \<and> length tag = 16
           \<and> aes_256_gcm_open L (pbkdf2 L P S 100000 32 ''sha256'')
               (fst (randomBytes 12 e)) AAD tag ct = Some K
           \<and> encryptFileKey L e K (Some P) S =
               (Inr \<lparr>encryptedKeyBlob = toString_base64 (fst (randomBytes 12 e) @ tag @ ct),
                     salt = toString_base64 S\<rparr>, snd (randomBytes 12 e))"
proof -
  let ?key = "pbkdf2 L P S 100000 32 ''sha256''"
  have lk: "length ?key = 32" using ok unfolding node_crypto_ok_def by blast
  from encryptData_ok [OF ok lk, of e K] obtain r where
    r: "fst (encryptData L e K ?key) = Inr r" "snd (encryptData L e K ?key) = snd (randomBytes 12 e)"
       "iv r = fst (randomBytes 12 e)"
       "length (authTag r) = 16" "length (encryptedData r) = length K"
       "aes_256_gcm_seal L ?key (iv r) AAD K = Some (encryptedData r, authTag r)"
       "aes_256_gcm_open L ?key (iv r) AAD (authTag r) (encryptedData r) = Some K"
    by blast
  have ed: "encryptData L e K ?key = (Inr r, snd (randomBytes 12 e))"
    using r(1,2) by (metis prod.collapse)
  have "encryptFileKey L e K (Some P) S =
          (Inr \<lparr>encryptedKeyBlob = toString_base64 (iv r @ authTag r @ encryptedData r),
                salt = toString_base64 S\<rparr>, snd (randomBytes 12 e))"
    using pw ed by (simp add: encryptFileKey_def deriveKeyFromPassword_def Let_def)
  with r show ?thesis by auto
qed

lemma decryptFileKey_unfold:
  "decryptFileKey L (Some b) P (Some s) =
     (case aes_256_gcm_open L (pbkdf2 L P (Buffer_from_base64 s) 100000 32 ''sha256'')
             (subarray (Buffer_from_base64 b) 0 12) AAD
             (subarray (Buffer_from_base64 b) 12 28)
             (subarray_from (Buffer_from_base64 b) 28) of
        None \<Rightarrow> Inl (File_key_decryption_failed CipherError)
      | Some key \<Rightarrow> Inr key)"
  by (simp add: decryptFileKey_def decryptData_def deriveKeyFromPassword_def Let_def
      split: option.splits)

text \<open>
  C2 (as amended). For every 32-octet content key \<open>K\<close>, every non-empty password \<open>P\<close> and
  every salt \<open>S\<close>, \<open>encryptFileKey\<close> succeeds, the blob it returns is the IV, the tag and the
  ciphertext of \<open>K\<close> sealed under PBKDF2-SHA256 (100000 iterations, 32 octets) of \<open>P\<close> and
  \<open>S\<close>, and \<open>decryptFileKey\<close> with the same password and the base64 of the salt returns
  \<open>K\<close>. The unwrap path derives its key by the same function with the same parameters.
\<close>

theorem encryptFileKey_roundtrip:
  assumes "node_crypto_ok L" and "length K = 32" and "P \<noteq> []"
  shows "\<exists>r ct tag.
           fst (encryptFileKey L e K (Some P) S) = Inr r
         \<and> salt r = toString_base64 S
         \<and> Buffer_from_base64 (encryptedKeyBlob r) = fst (randomBytes 12 e) @ tag @ ct
         \<and> aes_256_gcm_seal L (pbkdf2 L P S 100000 32 ''sha256'') (fst (randomBytes 12 e))
             (Buffer_from_ascii ''DisguiseDrive-v1'') K = Some (ct, tag)
         \<and> decryptFileKey L (Some (encryptedKeyBlob r)) P (Some (toString_base64 S)) = Inr K
         \<and> (\<forall>b p s. decryptFileKey L (Some b) p (Some s) =
               (case aes_256_gcm_open L (pbkdf2 L p (Buffer_from_base64 s) 100000 32 ''sha256'')
                       (subarray (Buffer_from_base64 b) 0 12)
                       (Buffer_from_ascii ''DisguiseDrive-v1'')
                       (subarray (Buffer_from_base64 b) 12 28)
                       (subarray_from (Buffer_from_base64 b) 28) of
                  None \<Rightarrow> Inl (File_key_decryption_failed CipherError)
                | Some key \<Rightarrow> Inr key))"
proof -
  let ?n = "fst (randomBytes 12 e)"
  from encryptFileKey_ok [OF assms(1,3), of S e K] obtain ct tag where
    seal: "aes_256_gcm_seal L (pbkdf2 L P S 100000 32 ''sha256'') ?n AAD K = Some (ct, tag)"
    and tag: "length tag = 16"
    and op: "aes_256_gcm_open L (pbkdf2 L P S 100000 32 ''sha256'') ?n AAD tag ct = Some K"
    and efk: "encryptFileKey L e K (Some P) S =
               (Inr \<lparr>encryptedKeyBlob = toString_base64 (?n @ tag @ ct),
                     salt = toString_base64 S\<rparr>, snd (randomBytes 12 e))"
    by blast
  have ln: "length ?n = 12" by (rule length_randomBytes)
  have "decryptFileKey L (Some (toString_base64 (?n @ tag @ ct))) P (Some (toString_base64 S))
          = Inr K"
    by (simp only: decryptFileKey_unfold Buffer_from_toString_base64
        keyBlob_slices [OF ln tag] op option.case)
  moreover have "\<forall>b p s. decryptFileKey L (Some b) p (Some s) =
               (case aes_256_gcm_open L (pbkdf2 L p (Buffer_from_base64 s) 100000 32 ''sha256'')
                       (subarray (Buffer_from_base64 b) 0 12)
                       (Buffer_from_ascii ''DisguiseDrive-v1'')
                       (subarray (Buffer_from_base64 b) 12 28)
                       (subarray_from (Buffer_from_base64 b) 28) of
                  None \<Rightarrow> Inl (File_key_decryption_failed CipherError)
                | Some key \<Rightarrow> Inr key)"
    using decryptFileKey_unfold [of L] by (simp add: AAD_def)
  ultimately show ?thesis
    using seal efk by (simp add: Buffer_from_toString_base64 AAD_def)
qed

section \<open>Properties of the crypto service\<close>

text \<open>
  C7. For every payload \<open>P\<close> and every 32-octet key \<open>K\<close>, \<open>encryptData\<close> succeeds, its IV is
  the 12 octets it draws itself from the random source, the payload is sealed with the
  associated data \<open>DisguiseDrive-v1\<close>, and \<open>decryptData\<close> with the same key, IV and tag
  returns \<open>P\<close>; \<open>decryptData\<close> opens every input with that same associated data.
  The constant is the same on both uses of the envelope. File content:
  \<open>encryptFileForStorage\<close> seals the payload under the key it generates (the first 32 octets
  of the random source) and an IV of its own (the next 12) with \<open>DisguiseDrive-v1\<close>, and
  \<open>decryptData\<close> returns the payload. Key wrapping: \<open>encryptFileKey\<close> seals the content key
  under the key derived from the password with \<open>DisguiseDrive-v1\<close> and an IV it draws
  itself, and \<open>decryptFileKey\<close> opens every blob with that associated data.
\<close>

theorem encryptData_roundtrip:
  assumes "node_crypto_ok L" and "length K = 32"
  shows "(\<exists>r. fst (encryptData L e P K) = Inr r
           \<and> iv r = fst (randomBytes 12 e) \<and> length (iv r) = 12
           \<and> aes_256_gcm_seal L K (iv r) (Buffer_from_ascii ''DisguiseDrive-v1'') P
               = Some (encryptedData r, authTag r)
           \<and> decryptData L (encryptedData r) K (iv r) (authTag r) = Inr P
           \<and> (\<forall>c k n t. decryptData L c k n t =
                 (case aes_256_gcm_open L k n (Buffer_from_ascii ''DisguiseDrive-v1'') t c of
                    None \<Rightarrow> Inl CipherError | Some d \<Rightarrow> Inr d)))
       \<and> (\<exists>s. fst (encryptFileForStorage L e P) = Inr s
           \<and> fileKey s = fst (randomBytes 32 e)
           \<and> iv s = fst (randomBytes 12 (snd (randomBytes 32 e)))
           \<and> aes_256_gcm_seal L (fileKey s) (iv s) (Buffer_from_ascii ''DisguiseDrive-v1'') P
               = Some (encryptedData s, authTag s)
           \<and> decryptData L (encryptedData s) (fileKey s) (iv s) (authTag s) = Inr P)
       \<and> (password \<noteq> [] \<longrightarrow>
            (\<exists>w ct tag. fst (encryptFileKey L e K (Some password) S) = Inr w
               \<and> Buffer_from_base64 (encryptedKeyBlob w) = fst (randomBytes 12 e) @ tag @ ct
               \<and> aes_256_gcm_seal L (deriveKeyFromPassword L password S) (fst (randomBytes 12 e))
                   (Buffer_from_ascii ''DisguiseDrive-v1'') K = Some (ct, tag)))
       \<and> (\<forall>b p s. decryptFileKey L (Some b) p (Some s) =
             (case aes_256_gcm_open L (deriveKeyFromPassword L p (Buffer_from_base64 s))
                     (subarray (Buffer_from_base64 b) 0 12)
                     (Buffer_from_ascii ''DisguiseDrive-v1'')
                     (subarray (Buffer_from_base64 b) 12 28)
                     (subarray_from (Buffer_from_base64 b) 28) of
                None \<Rightarrow> Inl (File_key_decryption_failed CipherError)
              | Some key \<Rightarrow> Inr key))"
proof (intro conjI impI)
  from encryptData_ok [OF assms, of e P] obtain r where
    r: "fst (encryptData L e P K) = Inr r" "iv r = fst (randomBytes 12 e)" "length (iv r) = 12"
       "aes_256_gcm_seal L K (iv r) AAD P = Some (encryptedData r, authTag r)"
       "aes_256_gcm_open L K (iv r) AAD (authTag r) (encryptedData r) = Some P"
    by blast
  have "decryptData L (encryptedData r) K (iv r) (authTag r) = Inr P"
    using r(5) by (simp add: decryptData_def)
  with r show "\<exists>r. fst (encryptData L e P K) = Inr r
           \<and> iv r = fst (randomBytes 12 e) \<and> length (iv r) = 12
           \<and> aes_256_gcm_seal L K (iv r) (Buffer_from_ascii ''DisguiseDrive-v1'') P
               = Some (encryptedData r, authTag r)
           \<and> decryptData L (encryptedData r) K (iv r) (authTag r) = Inr P
           \<and> (\<forall>c k n t. decryptData L c k n t =
                 (case aes_256_gcm_open L k n (Buffer_from_ascii ''DisguiseDrive-v1'') t c of
                    None \<Rightarrow> Inl CipherError | Some d \<Rightarrow> Inr d))"
    by (auto simp: AAD_def decryptData_def)
next
  from encryptFileForStorage_seals [OF assms(1), of e P] obtain s where
    s: "encryptFileForStorage L e P = (Inr s, snd (randomBytes 12 (snd (randomBytes 32 e))))"
       "fileKey s = fst (randomBytes 32 e)"
       "iv s = fst (randomBytes 12 (snd (randomBytes 32 e)))"
       "aes_256_gcm_seal L (fileKey s) (iv s) AAD P = Some (encryptedData s, authTag s)"
       "aes_256_gcm_open L (fileKey s) (iv s) AAD (authTag s) (encryptedData s) = Some P"
    by blast
  have "decryptData L (encryptedData s) (fileKey s) (iv s) (authTag s) = Inr P"
    using s(5) by (simp add: decryptData_def)
  with s show "\<exists>s. fst (encryptFileForStorage L e P) = Inr s
           \<and> fileKey s = fst (randomBytes 32 e)
           \<and> iv s = fst (randomBytes 12 (snd (randomBytes 32 e)))
           \<and> aes_256_gcm_seal L (fileKey s) (iv s) (Buffer_from_ascii ''DisguiseDrive-v1'') P
               = Some (encryptedData s, authTag s)
           \<and> decryptData L (encryptedData s) (fileKey s) (iv s) (authTag s) = Inr P"
    by (auto simp: AAD_def)
next
  assume pw: "password \<noteq> []"
  from encryptFileKey_ok [OF assms(1) pw, of S e K] obtain ct tag where
    seal: "aes_256_gcm_seal L (pbkdf2 L password S 100000 32 ''sha256'')
             (fst (randomBytes 12 e)) AAD K = Some (ct, tag)"
    and efk: "encryptFileKey L e K (Some password) S =
               (Inr \<lparr>encryptedKeyBlob = toString_base64 (fst (randomBytes 12 e) @ tag @ ct),
                     salt = toString_base64 S\<rparr>, snd (randomBytes 12 e))"
    by blast
  then show "\<exists>w ct tag. fst (encryptFileKey L e K (Some password) S) = Inr w
               \<and> Buffer_from_base64 (encryptedKeyBlob w) = fst (randomBytes 12 e) @ tag @ ct
               \<and> aes_256_gcm_seal L (deriveKeyFromPassword L password S) (fst (randomBytes 12 e))
                   (Buffer_from_ascii ''DisguiseDrive-v1'') K = Some (ct, tag)"
    by (simp add: Buffer_from_toString_base64 AAD_def deriveKeyFromPassword_def)
next
  show "\<forall>b p s. decryptFileKey L (Some b) p (Some s) =
             (case aes_256_gcm_open L (deriveKeyFromPassword L p (Buffer_from_base64 s))
                     (subarray (Buffer_from_base64 b) 0 12)
                     (Buffer_from_ascii ''DisguiseDrive-v1'')
                     (subarray (Buffer_from_base64 b) 12 28)
                     (subarray_from (Buffer_from_base64 b) 28) of
                None \<Rightarrow> Inl (File_key_decryption_failed CipherError)
              | Some key \<Rightarrow> Inr key)"
    using decryptFileKey_unfold [of L] by (simp add: AAD_def deriveKeyFromPassword_def)
qed

theorem encryptData_roundtrip_witness:
  "node_crypto_ok sample_crypto \<and> length sample_key = 32 \<and> ''abcd'' \<noteq> [] \<and>
   (\<exists>r. fst (encryptData sample_crypto sample_entropy [104, 105] sample_key) = Inr r
      \<and> iv r = [3, 10, 17, 24, 31, 38, 45, 52, 59, 66, 73, 80]
      \<and> decryptData sample_crypto (encryptedData r) sample_key (iv r) (authTag r)
          = Inr [104, 105]) \<and>
   (\<exists>s. fst (encryptFileForStorage sample_crypto sample_entropy [104, 105]) = Inr s
      \<and> aes_256_gcm_seal sample_crypto (fileKey s) (iv s)
          (Buffer_from_ascii ''DisguiseDrive-v1'') [104, 105] = Some (encryptedData s, authTag s)
      \<and> decryptData sample_crypto (encryptedData s) (fileKey s) (iv s) (authTag s)
          = Inr [104, 105]) \<and>
   (\<exists>w ct tag. fst (encryptFileKey sample_crypto sample_entropy sample_key (Some ''abcd'')
                     sample_salt) = Inr w
      \<and> Buffer_from_base64 (encryptedKeyBlob w)
          = [3, 10, 17, 24, 31, 38, 45, 52, 59, 66, 73, 80] @ tag @ ct
      \<and> aes_256_gcm_seal sample_crypto (deriveKeyFromPassword sample_crypto ''abcd'' sample_salt)
          [3, 10, 17, 24, 31, 38, 45, 52, 59, 66, 73, 80]
          (Buffer_from_ascii ''DisguiseDrive-v1'') sample_key = Some (ct, tag))"
proof -
  have k: "length sample_key = 32" by (simp add: sample_key_def)
  have n: "fst (randomBytes 12 sample_entropy) = [3, 10, 17, 24, 31, 38, 45, 52, 59, 66, 73, 80]"
    by (simp add: randomBytes_def sample_entropy_def upt_rec)
  have p: "''abcd'' \<noteq> []" by simp
  from encryptData_roundtrip [OF sample_crypto_ok k, of sample_entropy "[104, 105]" "''abcd''" sample_salt]
  show ?thesis
    unfolding n using sample_crypto_ok k p by blast
qed

text \<open>The round trip of the key wrap on the sample instance.\<close>

theorem encryptFileKey_roundtrip_witness:
  "node_crypto_ok sample_crypto \<and> length sample_key = 32 \<and> ''abcd'' \<noteq> [] \<and>
   (\<exists>r. fst (encryptFileKey sample_crypto sample_entropy sample_key (Some ''abcd'') sample_salt)
          = Inr r
      \<and> decryptFileKey sample_crypto (Some (encryptedKeyBlob r)) ''abcd''
           (Some (toString_base64 sample_salt)) = Inr sample_key)"
proof -
  have k: "length sample_key = 32" by (simp add: sample_key_def)
  have p: "''abcd'' \<noteq> []" by simp
  show ?thesis
    using encryptFileKey_roundtrip [OF sample_crypto_ok k p, of sample_entropy sample_salt]
      sample_crypto_ok k by auto
qed

text \<open>With the empty password the wrap throws, and there is no blob to unwrap.\<close>

theorem encryptFileKey_empty_password:
  "fst (encryptFileKey sample_crypto sample_entropy sample_key (Some []) sample_salt)
     = Inl (File_key_encryption_failed Missing_required_parameters)"
  by (simp add: encryptFileKey_def)


lemma encryptFileForStorage_ok:
  assumes "node_crypto_ok L"
  shows "\<exists>s. fst (encryptFileForStorage L e P) = Inr s
           \<and> length (iv s) = 12 \<and> length (authTag s) = 16
           \<and> length (encryptedData s) = length P \<and> length (fileKey s) = 32"
proof -
  obtain key e1 where g: "generateFileKey e = (key, e1)" by (cases "generateFileKey e")
  then have lk: "length key = 32"
    using length_randomBytes [of 32 e] by (simp add: generateFileKey_def)
  from encryptData_ok [OF assms lk, of e1 P] obtain r where
    r: "fst (encryptData L e1 P key) = Inr r" "length (iv r) = 12" "length (authTag r) = 16"
       "length (encryptedData r) = length P"
    by blast
  obtain e2 where "encryptData L e1 P key = (Inr r, e2)"
    using r(1) by (cases "encryptData L e1 P key") simp
  with g lk r show ?thesis by (simp add: encryptFileForStorage_def)
qed

text \<open>
  C10. A key blob that \<open>encryptFileKey\<close> returns for a 32-octet content key has 60 octets,
  and the storage blob built from the result of \<open>encryptFileForStorage\<close> is 28 octets longer
  than the payload.
\<close>

theorem blob_lengths:
  assumes "node_crypto_ok L" and "length K = 32"
  shows "(fst (encryptFileKey L e K password S) = Inr r
            \<longrightarrow> length (Buffer_from_base64 (encryptedKeyBlob r)) = 60)
       \<and> (fst (encryptFileForStorage L e' P) = Inr s
            \<longrightarrow> length (createStorageBlob (encryptedData s) (iv s) (authTag s)) = length P + 28)"
proof
  show "fst (encryptFileKey L e K password S) = Inr r
          \<longrightarrow> length (Buffer_from_base64 (encryptedKeyBlob r)) = 60"
  proof
    assume a: "fst (encryptFileKey L e K password S) = Inr r"
    then obtain pw where pw: "password = Some pw" "pw \<noteq> []"
      by (cases password) (auto simp: encryptFileKey_def split: if_splits)
    from encryptFileKey_ok [OF assms(1) pw(2), of S e K] obtain ct tag where
      "length ct = length K" "length tag = 16"
      "encryptFileKey L e K (Some pw) S =
         (Inr \<lparr>encryptedKeyBlob = toString_base64 (fst (randomBytes 12 e) @ tag @ ct),
               salt = toString_base64 S\<rparr>, snd (randomBytes 12 e))"
      by blast
    with a pw assms(2) show "length (Buffer_from_base64 (encryptedKeyBlob r)) = 60"
      by (auto simp: Buffer_from_toString_base64 length_randomBytes)
  qed
next
  show "fst (encryptFileForStorage L e' P) = Inr s
          \<longrightarrow> length (createStorageBlob (encryptedData s) (iv s) (authTag s)) = length P + 28"
  proof
    assume "fst (encryptFileForStorage L e' P) = Inr s"
    with encryptFileForStorage_ok [OF assms(1), of e' P]
    show "length (createStorageBlob (encryptedData s) (iv s) (authTag s)) = length P + 28"
      by (auto simp: createStorageBlob_def)
  qed
qed

theorem blob_lengths_witness:
  "node_crypto_ok sample_crypto \<and> length sample_key = 32 \<and>
   (\<exists>r. fst (encryptFileKey sample_crypto sample_entropy sample_key (Some ''abcd'') sample_salt)
          = Inr r \<and> length (Buffer_from_base64 (encryptedKeyBlob r)) = 60) \<and>
   (\<exists>s. fst (encryptFileForStorage sample_crypto sample_entropy [104, 105, 33]) = Inr s
      \<and> length (createStorageBlob (encryptedData s) (iv s) (authTag s)) = 31)"
proof -
  have k: "length sample_key = 32" by (simp add: sample_key_def)
  obtain r where r:
    "fst (encryptFileKey sample_crypto sample_entropy sample_key (Some ''abcd'') sample_salt) = Inr r"
    using encryptFileKey_ok [OF sample_crypto_ok, of "''abcd''" sample_salt sample_entropy sample_key]
    by auto
  obtain s where s: "fst (encryptFileForStorage sample_crypto sample_entropy [104, 105, 33]) = Inr s"
    using encryptFileForStorage_ok [OF sample_crypto_ok] by blast
  show ?thesis
    using blob_lengths [OF sample_crypto_ok k, of sample_entropy "Some ''abcd''" sample_salt r
        sample_entropy "[104, 105, 33]" s] r s sample_crypto_ok k
    by auto
qed

text \<open>
  C6. Decoding a storage blob. On a three-octet buffer \<open>parseStorageBlob\<close> throws the
  RangeError of \<open>readUInt32BE\<close>; on the blob that \<open>createStorageBlob\<close> builds in the unit
  test (IV \<open>123456789012\<close>, tag \<open>1234567890123456\<close>, data \<open>encrypted data\<close>) it does not
  return the IV and the data that went in, whatever the runtime's JSON parser and
  conversions answer.
\<close>

theorem parseStorageBlob_diverges:
  "parseStorageBlob R [1, 2, 3] = Inl ERR_BUFFER_OUT_OF_BOUNDS
   \<and> parseStorageBlob R
        (createStorageBlob (Buffer_from_ascii ''encrypted data'')
           (Buffer_from_ascii ''123456789012'') (Buffer_from_ascii ''1234567890123456''))
      \<noteq> Inr \<lparr>parsed_encryptedData = Buffer_from_ascii ''encrypted data'',
               parsed_iv = Buffer_from_ascii ''123456789012''\<rparr>"
  by (auto simp: parseStorageBlob_def readUInt32BE0_def createStorageBlob_def
      Buffer_from_ascii_def subarray_def subarray_rel_def subarray_rel_from_def
      relative_index_def Let_def split: sum.splits option.splits)

section \<open>The folder token gate of the file routes\<close>

lemma findFirst_None_iff:
  "folderAccessToken_findFirst w tok fid uid now = None \<longleftrightarrow>
     \<not> (\<exists>r \<in> set (folderAccessTokens w). token r = tok \<and> token_folderId r = fid
            \<and> token_userId r = uid \<and> now < expiresAt r)"
  by (auto simp: folderAccessToken_findFirst_def find_None_iff)

lemma file_folder_id: "file_folder w f = Some d \<Longrightarrow> folder_id d = file_folderId f"
  by (auto simp: file_folder_def find_Some_iff)

lemma gate_cases:
  assumes "file_findFirst w fileId (user_id req) = Some f"
    and "file_folder w f = Some d" and "folder_isProtected d" and "p \<noteq> []"
  shows "if \<exists>tok r. x_folder_token req = Some tok \<and> tok \<noteq> [] \<and> r \<in> set (folderAccessTokens w)
             \<and> token r = tok \<and> token_folderId r = folder_id d
             \<and> token_userId r = user_id req \<and> now < expiresAt r
         then post_decrypt_key L now req fileId (Some p) w = decrypt_key_attempt L req fileId p f w
            \<and> get_encrypted now req fileId w = get_encrypted_send f w
         else (\<exists>msg. post_decrypt_key L now req fileId (Some p) w
                       = ((403, ErrorRequiresFolderPassword msg), w))
            \<and> (\<exists>msg. get_encrypted now req fileId w
                       = ((403, ErrorRequiresFolderPassword msg), w))"
proof (cases "x_folder_token req")
  case None
  with assms show ?thesis by (simp add: post_decrypt_key_def get_encrypted_def)
next
  case (Some tok)
  note id = file_folder_id [OF assms(2)]
  show ?thesis
  proof (cases "tok = []")
    case True
    with Some assms show ?thesis by (simp add: post_decrypt_key_def get_encrypted_def)
  next
    case False
    show ?thesis
    proof (cases "folderAccessToken_findFirst w tok (folder_id d) (user_id req) now")
      case None
      then have "\<not> (\<exists>r \<in> set (folderAccessTokens w). token r = tok
                   \<and> token_folderId r = folder_id d \<and> token_userId r = user_id req
                   \<and> now < expiresAt r)"
        by (simp add: findFirst_None_iff)
      with None Some False assms id show ?thesis
        by (auto simp: post_decrypt_key_def get_encrypted_def)
    next
      case (Some r)
      then have "\<exists>r \<in> set (folderAccessTokens w). token r = tok
                   \<and> token_folderId r = folder_id d \<and> token_userId r = user_id req
                   \<and> now < expiresAt r"
        using findFirst_None_iff [of w tok "folder_id d" "user_id req" now] by auto
      with Some \<open>x_folder_token req = Some tok\<close> False assms id show ?thesis
        by (auto simp: post_decrypt_key_def get_encrypted_def)
    qed
  qed
qed

lemma delete_file_independent:
  "fst (delete_file (req\<lparr>x_folder_token := header\<rparr>) fileId
          (w\<lparr>folders := rows, folderAccessTokens := tokens\<rparr>))
     = fst (delete_file req fileId w)
   \<and> files (snd (delete_file (req\<lparr>x_folder_token := header\<rparr>) fileId
          (w\<lparr>folders := rows, folderAccessTokens := tokens\<rparr>)))
     = files (snd (delete_file req fileId w))
   \<and> bucket (snd (delete_file (req\<lparr>x_folder_token := header\<rparr>) fileId
          (w\<lparr>folders := rows, folderAccessTokens := tokens\<rparr>)))
     = bucket (snd (delete_file req fileId w))"
  by (simp add: delete_file_def file_findFirst_def file_delete_def deleteFile_def
      split: option.splits)

lemma post_decrypt_key_no_password:
  "falsy body_password \<Longrightarrow>
     post_decrypt_key L now req fileId body_password w = ((400, Error ''Password required''), w)"
  by (auto simp: falsy_def post_decrypt_key_def split: option.splits)

lemma file_findFirst_None_iff:
  "file_findFirst w fileId uid = None \<longleftrightarrow>
     (\<forall>g \<in> set (files w). file_id g = fileId \<longrightarrow> file_ownerId g \<noteq> uid)"
  by (auto simp: file_findFirst_def find_None_iff)

lemma delete_file_not_owner:
  assumes "\<forall>g \<in> set (files w). file_id g = fileId \<longrightarrow> file_ownerId g \<noteq> user_id req"
  shows "delete_file req fileId w = ((404, Error ''File not found''), w)"
  using assms file_findFirst_None_iff [of w fileId "user_id req"]
  by (simp add: delete_file_def)

lemma delete_file_owner:
  assumes "file_findFirst w fileId (user_id req) = Some g"
  shows "fst (delete_file req fileId w) = (200, Message ''File deleted successfully'')"
    "files (snd (delete_file req fileId w)) = filter (\<lambda>h. file_id h \<noteq> fileId) (files w)"
    "bucket (snd (delete_file req fileId w))
       = (bucket w)(file_storagePath g := None, file_coverPath g := None)"
    "folders (snd (delete_file req fileId w)) = folders w"
    "folderAccessTokens (snd (delete_file req fileId w)) = folderAccessTokens w"
    "securityLogs (snd (delete_file req fileId w)) = securityLogs w"
  using assms by (simp_all add: delete_file_def file_delete_def deleteFile_def)

lemma file_findFirst_Some_ex:
  "(\<exists>g \<in> set (files w). file_id g = fileId \<and> file_ownerId g = uid)
     \<Longrightarrow> \<exists>g. file_findFirst w fileId uid = Some g \<and> g \<in> set (files w)
            \<and> file_id g = fileId \<and> file_ownerId g = uid"
  using file_findFirst_None_iff [of w fileId uid]
  by (cases "file_findFirst w fileId uid") (auto simp: file_findFirst_def find_Some_iff)

text \<open>
  C1 (as amended). For every file whose folder is protected, the key-unwrap route and the
  encrypted-blob route go on to their work exactly when the request carries a non-empty
  \<open>x-folder-token\<close> that matches a token row of this folder and this user with
  \<open>expiresAt\<close> later than now; otherwise each answers 403 and leaves the stores as they
  were: no unwrap, no audit row, no blob. A key-unwrap request without a password, or with
  the empty one, is answered 400 before the file is looked up, with or without a token.

  The delete route is authorised by the ownership of the file and by nothing else. The
  owner's request for this file answers 200, removes the row and the two objects of the
  bucket, and does so whatever the \<open>x-folder-token\<close> header, the folder rows and the token
  rows are. In any stores, a user who owns no file of that id is answered 404 and nothing is
  removed, and a user who owns one is answered 200 and the row and the objects are removed.
\<close>

theorem protected_read_gate:
  assumes "file_findFirst w fileId (user_id req) = Some f"
    and "file_folder w f = Some d" and "folder_isProtected d"
  shows "(if \<exists>tok r. x_folder_token req = Some tok \<and> tok \<noteq> [] \<and> r \<in> set (folderAccessTokens w)
             \<and> token r = tok \<and> token_folderId r = folder_id d
             \<and> token_userId r = user_id req \<and> now < expiresAt r
          then (\<forall>p. p \<noteq> [] \<longrightarrow>
                  post_decrypt_key L now req fileId (Some p) w
                    = decrypt_key_attempt L req fileId p f w)
             \<and> get_encrypted now req fileId w = get_encrypted_send f w
          else (\<forall>p. p \<noteq> [] \<longrightarrow>
                  (\<exists>msg. post_decrypt_key L now req fileId (Some p) w
                        = ((403, ErrorRequiresFolderPassword msg), w)))
             \<and> (\<exists>msg. get_encrypted now req fileId w
                        = ((403, ErrorRequiresFolderPassword msg), w)))
       \<and> post_decrypt_key L now req fileId None w = ((400, Error ''Password required''), w)
       \<and> post_decrypt_key L now req fileId (Some []) w = ((400, Error ''Password required''), w)
       \<and> fst (delete_file req fileId w) = (200, Message ''File deleted successfully'')
       \<and> files (snd (delete_file req fileId w)) = filter (\<lambda>g. file_id g \<noteq> fileId) (files w)
       \<and> bucket (snd (delete_file req fileId w))
           = (bucket w)(file_storagePath f := None, file_coverPath f := None)
       \<and> (\<forall>other v.
             (\<forall>g \<in> set (files v). file_id g = fileId \<longrightarrow> file_ownerId g \<noteq> user_id other)
               \<longrightarrow> delete_file other fileId v = ((404, Error ''File not found''), v))
       \<and> (\<forall>owner v.
             (\<exists>g \<in> set (files v). file_id g = fileId \<and> file_ownerId g = user_id owner)
               \<longrightarrow> fst (delete_file owner fileId v) = (200, Message ''File deleted successfully'')
                 \<and> files (snd (delete_file owner fileId v))
                     = filter (\<lambda>g. file_id g \<noteq> fileId) (files v)
                 \<and> (\<exists>g \<in> set (files v). file_id g = fileId \<and> file_ownerId g = user_id owner
                       \<and> bucket (snd (delete_file owner fileId v))
                           = (bucket v)(file_storagePath g := None, file_coverPath g := None)))
       \<and> (\<forall>header rows tokens.
             fst (delete_file (req\<lparr>x_folder_token := header\<rparr>) fileId
                    (w\<lparr>folders := rows, folderAccessTokens := tokens\<rparr>))
               = fst (delete_file req fileId w)
           \<and> files (snd (delete_file (req\<lparr>x_folder_token := header\<rparr>) fileId
                    (w\<lparr>folders := rows, folderAccessTokens := tokens\<rparr>)))
               = files (snd (delete_file req fileId w))
           \<and> bucket (snd (delete_file (req\<lparr>x_folder_token := header\<rparr>) fileId
                    (w\<lparr>folders := rows, folderAccessTokens := tokens\<rparr>)))
               = bucket (snd (delete_file req fileId w)))"
proof -
  let ?live = "\<exists>tok r. x_folder_token req = Some tok \<and> tok \<noteq> [] \<and> r \<in> set (folderAccessTokens w)
             \<and> token r = tok \<and> token_folderId r = folder_id d
             \<and> token_userId r = user_id req \<and> now < expiresAt r"
  have gate: "if ?live
          then (\<forall>p. p \<noteq> [] \<longrightarrow>
                  post_decrypt_key L now req fileId (Some p) w
                    = decrypt_key_attempt L req fileId p f w)
             \<and> get_encrypted now req fileId w = get_encrypted_send f w
          else (\<forall>p. p \<noteq> [] \<longrightarrow>
                  (\<exists>msg. post_decrypt_key L now req fileId (Some p) w
                        = ((403, ErrorRequiresFolderPassword msg), w)))
             \<and> (\<exists>msg. get_encrypted now req fileId w
                        = ((403, ErrorRequiresFolderPassword msg), w))"
  proof (cases ?live)
    case True
    have "\<And>p. p \<noteq> [] \<Longrightarrow> post_decrypt_key L now req fileId (Some p) w
                    = decrypt_key_attempt L req fileId p f w"
      using gate_cases [OF assms, of _ now L] True by simp
    moreover have "get_encrypted now req fileId w = get_encrypted_send f w"
      using gate_cases [OF assms, of "''x''" now L] True by simp
    ultimately show ?thesis unfolding if_P [OF True] by blast
  next
    case False
    have "\<And>p. p \<noteq> [] \<Longrightarrow> \<exists>msg. post_decrypt_key L now req fileId (Some p) w
                        = ((403, ErrorRequiresFolderPassword msg), w)"
      using gate_cases [OF assms, of _ now L] False by simp
    moreover have "\<exists>msg. get_encrypted now req fileId w
                        = ((403, ErrorRequiresFolderPassword msg), w)"
      using gate_cases [OF assms, of "''x''" now L] False by simp
    ultimately show ?thesis unfolding if_not_P [OF False] by blast
  qed
  have nopw: "post_decrypt_key L now req fileId None w = ((400, Error ''Password required''), w)"
    "post_decrypt_key L now req fileId (Some []) w = ((400, Error ''Password required''), w)"
    by (simp_all add: post_decrypt_key_no_password falsy_def)
  note own = delete_file_owner [OF assms(1)]
  have other: "\<forall>other v.
             (\<forall>g \<in> set (files v). file_id g = fileId \<longrightarrow> file_ownerId g \<noteq> user_id other)
               \<longrightarrow> delete_file other fileId v = ((404, Error ''File not found''), v)"
    using delete_file_not_owner by blast
  have owner: "\<forall>owner v.
             (\<exists>g \<in> set (files v). file_id g = fileId \<and> file_ownerId g = user_id owner)
               \<longrightarrow> fst (delete_file owner fileId v) = (200, Message ''File deleted successfully'')
                 \<and> files (snd (delete_file owner fileId v))
                     = filter (\<lambda>g. file_id g \<noteq> fileId) (files v)
                 \<and> (\<exists>g \<in> set (files v). file_id g = fileId \<and> file_ownerId g = user_id owner
                       \<and> bucket (snd (delete_file owner fileId v))
                           = (bucket v)(file_storagePath g := None, file_coverPath g := None))"
  proof (intro allI impI)
    fix owner :: request and v :: world
    assume "\<exists>g \<in> set (files v). file_id g = fileId \<and> file_ownerId g = user_id owner"
    from file_findFirst_Some_ex [OF this] obtain g where
      g: "file_findFirst v fileId (user_id owner) = Some g" "g \<in> set (files v)"
         "file_id g = fileId" "file_ownerId g = user_id owner"
      by blast
    from delete_file_owner [OF g(1)] g(2-)
    show "fst (delete_file owner fileId v) = (200, Message ''File deleted successfully'')
                 \<and> files (snd (delete_file owner fileId v))
                     = filter (\<lambda>g. file_id g \<noteq> fileId) (files v)
                 \<and> (\<exists>g \<in> set (files v). file_id g = fileId \<and> file_ownerId g = user_id owner
                       \<and> bucket (snd (delete_file owner fileId v))
                           = (bucket v)(file_storagePath g := None, file_coverPath g := None))"
      by blast
  qed
  have indep: "\<forall>header rows tokens.
             fst (delete_file (req\<lparr>x_folder_token := header\<rparr>) fileId
                    (w\<lparr>folders := rows, folderAccessTokens := tokens\<rparr>))
               = fst (delete_file req fileId w)
           \<and> files (snd (delete_file (req\<lparr>x_folder_token := header\<rparr>) fileId
                    (w\<lparr>folders := rows, folderAccessTokens := tokens\<rparr>)))
               = files (snd (delete_file req fileId w))
           \<and> bucket (snd (delete_file (req\<lparr>x_folder_token := header\<rparr>) fileId
                    (w\<lparr>folders := rows, folderAccessTokens := tokens\<rparr>)))
               = bucket (snd (delete_file req fileId w))"
    using delete_file_independent [where req = req and w = w and fileId = fileId] by blast
  from gate nopw own(1,2,3) other owner indep show ?thesis
    by (intro conjI) assumption+
qed

lemma sample_lookups:
  "file_findFirst sample_world ''f1'' ''alice'' = Some secret_file"
  "file_findFirst sample_world ''f2'' ''alice'' = Some plain_file"
  "file_folder sample_world secret_file = Some vault"
  "file_folder sample_world plain_file = Some album"
  "file_findFirst unlocked_world ''f1'' ''alice'' = Some secret_file"
  "file_folder unlocked_world secret_file = Some vault"
  "file_findFirst sample_world ''f3'' ''alice'' = Some wrapped_file"
  "file_folder sample_world wrapped_file = Some album"
  "file_findFirst sample_world ''f4'' ''alice'' = Some tampered_file"
  "file_folder sample_world tampered_file = Some album"
  by (simp_all add: file_findFirst_def file_folder_def sample_world_def unlocked_world_def
      secret_file_def plain_file_def wrapped_file_def tampered_file_def vault_def album_def)

text \<open>The gate on the sample stores: without a token, without a password, with a live
  token, and with the same token at its expiry time; the delete route for a user who does
  not own the file and for the owner.\<close>

theorem protected_read_gate_witness:
  "(\<exists>msg. post_decrypt_key sample_crypto 1000 alice ''f1'' (Some ''abcd'') sample_world
            = ((403, ErrorRequiresFolderPassword msg), sample_world))
   \<and> post_decrypt_key sample_crypto 1000 alice ''f1'' None sample_world
        = ((400, Error ''Password required''), sample_world)
   \<and> (\<exists>msg. get_encrypted 1000 alice ''f1'' sample_world
            = ((403, ErrorRequiresFolderPassword msg), sample_world))
   \<and> get_encrypted 1000 alice_unlocked ''f1'' unlocked_world
        = ((200, Octets [1, 2, 3, 4]), unlocked_world)
   \<and> (\<exists>msg. get_encrypted 5000 alice_unlocked ''f1'' unlocked_world
            = ((403, ErrorRequiresFolderPassword msg), unlocked_world))
   \<and> delete_file bob ''f1'' sample_world = ((404, Error ''File not found''), sample_world)
   \<and> fst (delete_file alice ''f1'' sample_world) = (200, Message ''File deleted successfully'')
   \<and> files (snd (delete_file alice ''f1'' sample_world))
        = [plain_file, wrapped_file, tampered_file]
   \<and> fst (delete_file alice_unlocked ''f1'' unlocked_world)
        = (200, Message ''File deleted successfully'')"
proof -
  have v: "folder_isProtected vault" "folder_id vault = ''vault''" by (simp_all add: vault_def)
  have a: "user_id alice = ''alice''" "user_id alice_unlocked = ''alice''"
    "x_folder_token alice = None" "x_folder_token alice_unlocked = Some ''tok''"
    "user_id bob = ''bob''"
    by (simp_all add: alice_def alice_unlocked_def bob_def)
  have t: "folderAccessTokens sample_world = []" "folderAccessTokens unlocked_world = [vault_token]"
    by (simp_all add: sample_world_def unlocked_world_def)
  have send: "get_encrypted_send secret_file unlocked_world = ((200, Octets [1, 2, 3, 4]), unlocked_world)"
    by (simp add: get_encrypted_send_def downloadEncryptedFile_def unlocked_world_def
        sample_world_def secret_file_def)
  have fs: "files sample_world = [secret_file, plain_file, wrapped_file, tampered_file]"
    by (simp add: sample_world_def)
  have ids: "file_id secret_file = ''f1''" "file_id plain_file = ''f2''"
    "file_id wrapped_file = ''f3''" "file_id tampered_file = ''f4''"
    "file_ownerId secret_file = ''alice''"
    by (simp_all add: secret_file_def plain_file_def wrapped_file_def tampered_file_def)
  note locked = protected_read_gate [of sample_world "''f1''" alice secret_file vault 1000
      sample_crypto, unfolded a, OF sample_lookups(1) sample_lookups(3) v(1)]
  note live = protected_read_gate [of unlocked_world "''f1''" alice_unlocked secret_file vault
      1000 sample_crypto, unfolded a, OF sample_lookups(5) sample_lookups(6) v(1)]
  note late = protected_read_gate [of unlocked_world "''f1''" alice_unlocked secret_file vault
      5000 sample_crypto, unfolded a, OF sample_lookups(5) sample_lookups(6) v(1)]
  have 1: "\<exists>msg. post_decrypt_key sample_crypto 1000 alice ''f1'' (Some ''abcd'') sample_world
            = ((403, ErrorRequiresFolderPassword msg), sample_world)"
    using locked by (simp add: t)
  have 2: "post_decrypt_key sample_crypto 1000 alice ''f1'' None sample_world
        = ((400, Error ''Password required''), sample_world)"
    using locked by blast
  have 3: "\<exists>msg. get_encrypted 1000 alice ''f1'' sample_world
            = ((403, ErrorRequiresFolderPassword msg), sample_world)"
    using locked by (simp add: t)
  have 4: "get_encrypted 1000 alice_unlocked ''f1'' unlocked_world
        = ((200, Octets [1, 2, 3, 4]), unlocked_world)"
    using live by (simp add: t v vault_token_def send)
  have 5: "\<exists>msg. get_encrypted 5000 alice_unlocked ''f1'' unlocked_world
            = ((403, ErrorRequiresFolderPassword msg), unlocked_world)"
    using late by (simp add: t v vault_token_def)
  have "(\<forall>g \<in> set (files sample_world). file_id g = ''f1'' \<longrightarrow> file_ownerId g \<noteq> user_id bob)
          \<longrightarrow> delete_file bob ''f1'' sample_world = ((404, Error ''File not found''), sample_world)"
    using locked by blast
  then have 6: "delete_file bob ''f1'' sample_world = ((404, Error ''File not found''), sample_world)"
    by (simp add: fs ids a)
  have 7: "fst (delete_file alice ''f1'' sample_world) = (200, Message ''File deleted successfully'')"
    using locked by blast
  have "files (snd (delete_file alice ''f1'' sample_world))
          = filter (\<lambda>g. file_id g \<noteq> ''f1'') (files sample_world)"
    using locked by blast
  then have 8: "files (snd (delete_file alice ''f1'' sample_world))
        = [plain_file, wrapped_file, tampered_file]"
    by (simp add: fs ids)
  have "(\<exists>g \<in> set (files unlocked_world). file_id g = ''f1''
            \<and> file_ownerId g = user_id alice_unlocked)
          \<longrightarrow> fst (delete_file alice_unlocked ''f1'' unlocked_world)
                = (200, Message ''File deleted successfully'')"
    using locked by blast
  then have 9: "fst (delete_file alice_unlocked ''f1'' unlocked_world)
        = (200, Message ''File deleted successfully'')"
    by (simp add: unlocked_world_def fs ids a)
  from 1 2 3 4 5 6 7 8 9 show ?thesis by (intro conjI) assumption+
qed

text \<open>The delete route on a file of a protected folder, with no token in the request and
  none in the table: the file and its object are gone.\<close>

theorem delete_file_ignores_folder_token:
  "file_folder sample_world secret_file = Some vault \<and> folder_isProtected vault
   \<and> x_folder_token alice = None \<and> folderAccessTokens sample_world = []
   \<and> fst (delete_file alice ''f1'' sample_world) = (200, Message ''File deleted successfully'')
   \<and> files (snd (delete_file alice ''f1'' sample_world))
       = [plain_file, wrapped_file, tampered_file]
   \<and> bucket (snd (delete_file alice ''f1'' sample_world)) (file_storagePath secret_file) = None"
  by (simp add: delete_file_def file_findFirst_def file_folder_def file_delete_def deleteFile_def
      sample_world_def secret_file_def plain_file_def wrapped_file_def tampered_file_def
      vault_def album_def alice_def)

section \<open>The key-unwrap route\<close>

text \<open>
  C3. Whenever the key-unwrap route reaches the unwrap and \<open>decryptFileKey\<close> fails, with
  whatever error, the response is 401 with the body \<open>{error: 'Invalid password', success: false}\<close>.
\<close>

theorem decrypt_key_uniform_failure:
  assumes "file_findFirst w fileId (user_id req) = Some f"
    and "file_folder w f = Some d"
    and "folder_isProtected d \<longrightarrow>
           (\<exists>tok r. x_folder_token req = Some tok \<and> tok \<noteq> [] \<and> r \<in> set (folderAccessTokens w)
              \<and> token r = tok \<and> token_folderId r = folder_id d
              \<and> token_userId r = user_id req \<and> now < expiresAt r)"
    and "p \<noteq> []"
    and "decryptFileKey L (file_encryptedKeyBlob f) p (file_salt f) = Inl err"
  shows "fst (post_decrypt_key L now req fileId (Some p) w)
           = (401, ErrorSuccess ''Invalid password'' False)"
proof -
  have att: "fst (decrypt_key_attempt L req fileId p f w)
               = (401, ErrorSuccess ''Invalid password'' False)"
    using assms(5) by (simp add: decrypt_key_attempt_def)
  show ?thesis
  proof (cases "folder_isProtected d")
    case True
    with assms(3) gate_cases [OF assms(1,2) True assms(4), of now L] att
    show ?thesis by (simp split: if_splits)
  next
    case False
    with assms(1,2,4) att show ?thesis by (simp add: post_decrypt_key_def)
  qed
qed


lemma decrypt_null_blob:
  "decryptFileKey L None p s = Inl (File_key_decryption_failed ERR_INVALID_ARG_TYPE)"
  by (simp add: decryptFileKey_def)

lemma decrypt_malformed_blob:
  "decryptFileKey sample_crypto (Some ''AAAA'') ''abcd'' (Some ''AAAA'')
     = Inl (File_key_decryption_failed CipherError)"
  by (simp add: decryptFileKey_def decryptData_def deriveKeyFromPassword_def Let_def
      Buffer_from_base64_def unbase64_def List.map_filter_simps subarray_def subarray_from_def
      sample_crypto_def xor_open_def sum_pbkdf2_def xor_tag_def)

lemma replicate_16: "replicate 16 x = [x, x, x, x, x, x, x, x, x, x, x, x, x, x, x, x]"
  by (simp add: numeral_eq_Suc)

lemma decrypt_wrong_password:
  "decryptFileKey sample_crypto (file_encryptedKeyBlob wrapped_file) ''wxyz''
     (file_salt wrapped_file) = Inl (File_key_decryption_failed CipherError)"
  by (simp add: wrapped_file_def decryptFileKey_def decryptData_def deriveKeyFromPassword_def
      Buffer_from_base64_def unbase64_def subarray_def subarray_from_def
      sample_crypto_def xor_open_def xor_mask_def xor_tag_def sum_pbkdf2_def AAD_def
      Buffer_from_ascii_def upt_rec replicate_16 Let_def)

lemma decrypt_right_password:
  "decryptFileKey sample_crypto (file_encryptedKeyBlob wrapped_file) ''abcd''
     (file_salt wrapped_file) = Inr sample_key"
  by (simp add: wrapped_file_def decryptFileKey_def decryptData_def deriveKeyFromPassword_def
      Buffer_from_base64_def unbase64_def subarray_def subarray_from_def
      sample_crypto_def xor_open_def xor_mask_def xor_tag_def sum_pbkdf2_def AAD_def
      Buffer_from_ascii_def upt_rec replicate_16 sample_key_def Let_def)

lemma decrypt_tampered_blob:
  "decryptFileKey sample_crypto (file_encryptedKeyBlob tampered_file) ''abcd''
     (file_salt tampered_file) = Inl (File_key_decryption_failed CipherError)"
  by (simp add: tampered_file_def decryptFileKey_def decryptData_def deriveKeyFromPassword_def
      Buffer_from_base64_def unbase64_def subarray_def subarray_from_def
      sample_crypto_def xor_open_def xor_mask_def xor_tag_def sum_pbkdf2_def AAD_def
      Buffer_from_ascii_def upt_rec replicate_16 Let_def)

text \<open>Four causes, one response: a wrong password on a well-formed blob, a blob with one
  character changed, a blob of three octets (in a protected folder, with a live token),
  and a row without a key blob.\<close>

theorem decrypt_key_uniform_failure_witness:
  "fst (post_decrypt_key sample_crypto 1000 alice ''f3'' (Some ''wxyz'') sample_world)
     = (401, ErrorSuccess ''Invalid password'' False)
   \<and> fst (post_decrypt_key sample_crypto 1000 alice ''f4'' (Some ''abcd'') sample_world)
     = (401, ErrorSuccess ''Invalid password'' False)
   \<and> fst (post_decrypt_key sample_crypto 1000 alice_unlocked ''f1'' (Some ''abcd'') unlocked_world)
     = (401, ErrorSuccess ''Invalid password'' False)
   \<and> fst (post_decrypt_key sample_crypto 1000 alice ''f2'' (Some ''abcd'') sample_world)
     = (401, ErrorSuccess ''Invalid password'' False)"
proof -
  have a: "user_id alice = ''alice''" "user_id alice_unlocked = ''alice''"
    "x_folder_token alice_unlocked = Some ''tok''"
    by (simp_all add: alice_def alice_unlocked_def)
  have plain: "decryptFileKey sample_crypto (file_encryptedKeyBlob plain_file) ''abcd''
                 (file_salt plain_file) = Inl (File_key_decryption_failed ERR_INVALID_ARG_TYPE)"
    by (simp add: plain_file_def decrypt_null_blob)
  have secret: "decryptFileKey sample_crypto (file_encryptedKeyBlob secret_file) ''abcd''
                 (file_salt secret_file) = Inl (File_key_decryption_failed CipherError)"
    by (simp add: secret_file_def decrypt_malformed_blob)
  have open_folder: "folder_isProtected album \<longrightarrow>
      (\<exists>tok r. x_folder_token alice = Some tok \<and> tok \<noteq> [] \<and> r \<in> set (folderAccessTokens sample_world)
         \<and> token r = tok \<and> token_folderId r = folder_id album
         \<and> token_userId r = user_id alice \<and> 1000 < expiresAt r)"
    by (simp add: album_def)
  have locked_folder: "folder_isProtected vault \<longrightarrow>
      (\<exists>tok r. x_folder_token alice_unlocked = Some tok \<and> tok \<noteq> []
         \<and> r \<in> set (folderAccessTokens unlocked_world)
         \<and> token r = tok \<and> token_folderId r = folder_id vault
         \<and> token_userId r = user_id alice_unlocked \<and> 1000 < expiresAt r)"
    by (simp add: a unlocked_world_def vault_token_def vault_def)
  have p: "''abcd'' \<noteq> []" "''wxyz'' \<noteq> []" by simp_all
  have one: "fst (post_decrypt_key sample_crypto 1000 alice ''f3'' (Some ''wxyz'') sample_world)
     = (401, ErrorSuccess ''Invalid password'' False)"
    using decrypt_key_uniform_failure [of sample_world "''f3''" alice wrapped_file album 1000
        "''wxyz''" sample_crypto, OF _ _ open_folder p(2) decrypt_wrong_password] sample_lookups a
    by simp
  have two: "fst (post_decrypt_key sample_crypto 1000 alice ''f4'' (Some ''abcd'') sample_world)
     = (401, ErrorSuccess ''Invalid password'' False)"
    using decrypt_key_uniform_failure [of sample_world "''f4''" alice tampered_file album 1000
        "''abcd''" sample_crypto, OF _ _ open_folder p(1) decrypt_tampered_blob] sample_lookups a
    by simp
  have three: "fst (post_decrypt_key sample_crypto 1000 alice_unlocked ''f1'' (Some ''abcd'') unlocked_world)
       = (401, ErrorSuccess ''Invalid password'' False)"
    using decrypt_key_uniform_failure [of unlocked_world "''f1''" alice_unlocked secret_file vault
        1000 "''abcd''" sample_crypto, OF _ _ locked_folder p(1) secret] sample_lookups a
    by simp
  have four: "fst (post_decrypt_key sample_crypto 1000 alice ''f2'' (Some ''abcd'') sample_world)
     = (401, ErrorSuccess ''Invalid password'' False)"
    using decrypt_key_uniform_failure [of sample_world "''f2''" alice plain_file album 1000
        "''abcd''" sample_crypto, OF _ _ open_folder p(1) plain] sample_lookups a
    by simp
  from one two three four show ?thesis by simp
qed

text \<open>\<open>verifyFolderAccess\<close> denies and grants on the sample stores, and the audit table
  stays empty.\<close>

theorem verifyFolderAccess_writes_no_audit_row:
  "verifyFolderAccess 1000 alice (Some ''vault'') None sample_world
     = (Inl (403, ErrorRequiresFolderPassword ''Folder access token required''), sample_world)
   \<and> securityLogs sample_world = []
   \<and> verifyFolderAccess 1000 alice_unlocked (Some ''vault'') None unlocked_world
     = (Inr (vault, Some vault_token), unlocked_world)
   \<and> securityLogs unlocked_world = []"
  by (simp add: verifyFolderAccess_def js_or_def falsy_def folder_findFirst_def
      folderAccessToken_findFirst_def sample_world_def unlocked_world_def vault_def album_def
      alice_def alice_unlocked_def vault_token_def)

section \<open>The audit rows of the routes\<close>

lemma bucket_upload_cases:
  "bucket_upload path buf w = Inl err \<Longrightarrow> bucket w path \<noteq> None"
  "bucket_upload path buf w = Inr (path', w1) \<Longrightarrow>
     path' = path \<and> bucket w path = None \<and> w1 = w\<lparr>bucket := (bucket w)(path \<mapsto> buf)\<rparr>"
  by (auto simp: bucket_upload_def split: option.splits)

lemma store_file_stores:
  assumes "store_file L now uploadMode password file fileHash w e = (res, w1, e1)"
  shows "files w1 = files w \<and> securityLogs w1 = securityLogs w \<and> created w1 = created w
       \<and> folders w1 = folders w \<and> folderAccessTokens w1 = folderAccessTokens w"
  using assms
  by (auto simp: store_file_def uploadEncryptedFile_def uploadFile_def Let_def
      split: if_splits prod.splits sum.splits dest!: bucket_upload_cases(2))

lemma process_file_logs:
  assumes "process_file L S now req folderId uploadMode passwords file i (w, e, up, errs)
             = (w', e', up', errs')"
  shows "securityLogs w' = securityLogs w"
proof (cases "take 6 (mimetype file) = ''image/'' \<and> \<not> validateImage (upload_buffer file)")
  case True
  with assms show ?thesis by (simp add: process_file_def Let_def)
next
  case False
  obtain res w1 e1 where
    st: "store_file L now uploadMode
           (if uploadMode = ''secure'' then select_password passwords i else None) file
           (calculateHash L (upload_buffer file)) w e = (res, w1, e1)"
    by (metis prod.exhaust)
  note store_file_stores [OF st]
  with assms False st show ?thesis
    by (cases res) (auto simp: process_file_def Let_def split: prod.splits)
qed

lemma process_files_logs:
  "process_files L S now req folderId uploadMode passwords fs i (w, e, up, errs)
     = (w', e', up', errs') \<Longrightarrow> securityLogs w' = securityLogs w"
proof (induction fs arbitrary: i w e up errs)
  case Nil
  then show ?case by simp
next
  case (Cons f rest)
  obtain w1 e1 up1 errs1 where
    step: "process_file L S now req folderId uploadMode passwords f i (w, e, up, errs)
             = (w1, e1, up1, errs1)"
    by (metis prod.exhaust)
  with Cons have "securityLogs w' = securityLogs w1" by simp
  with process_file_logs [OF step] show ?case by simp
qed

lemma upload_loop_audit:
  assumes "upload_loop L S e now req folderId uploadMode pws coverTypes req_files w
             = (((status, b), w'), e')"
  shows "if status = 201
         then \<exists>n k. securityLogs w' = securityLogs w @ [upload_log req folderId n k]
         else w' = w \<and> e' = e"
proof (cases "coverTypes = JNull")
  case True
  with assms show ?thesis by (auto simp: upload_loop_def)
next
  case False
  obtain w1 e1 up errs where
    run: "process_files L S now req folderId uploadMode pws req_files 0 (w, e, [], [])
            = (w1, e1, up, errs)"
    by (metis prod.exhaust)
  with assms False process_files_logs [OF run]
  have "status = 201" and "securityLogs w' = securityLogs w @ [upload_log req folderId (length up) (length errs)]"
    by (auto simp: upload_loop_def securityLog_create_def)
  then show ?thesis by auto
qed

lemma post_files_audit:
  assumes "post_files L S e now req folderId req_files body_uploadMode body_passwords
             body_coverTypes w = (((status, b), w'), e')"
  shows "if status = 201
         then \<exists>n k. securityLogs w' = securityLogs w @ [upload_log req folderId n k]
         else w' = w \<and> e' = e"
  using assms
  by (auto simp: post_files_def Let_def split: if_splits option.splits
      dest!: upload_loop_audit)

lemma decrypt_key_attempt_audit:
  assumes "decrypt_key_attempt L req fileId p f w = ((status, b), w')"
  shows "(status = 200 \<or> status = 401)
       \<and> (\<exists>m. securityLogs w' = securityLogs w @ [unlock_attempt_log req (status = 200) m])"
  using assms
  by (auto simp: decrypt_key_attempt_def securityLog_create_def split: sum.splits)

lemma post_decrypt_key_audit:
  assumes "post_decrypt_key L now req fileId body_password w = ((status, b), w')"
  shows "if status = 200 \<or> status = 401
         then \<exists>m. securityLogs w' = securityLogs w @ [unlock_attempt_log req (status = 200) m]
         else w' = w"
  using assms
  by (auto simp: post_decrypt_key_def split: option.splits if_splits
      dest!: decrypt_key_attempt_audit)

lemma verifyFolderAccess_world: "snd (verifyFolderAccess now req a b w) = w"
  by (simp add: verifyFolderAccess_def split: option.splits)

text \<open>
  C4 (as amended). The key-unwrap route appends one \<open>file_unlock_attempt\<close> row, with the
  outcome as its success flag, to the audit table whenever it answers 200 or 401, that is
  whenever it attempted the unwrap, and changes nothing otherwise. The upload route
  appends one \<open>file_upload\<close> row whenever it answers 201, that is whenever it ran the loop
  that wraps the keys, and otherwise changes nothing and draws no random octet. The row
  is in the stores that are returned with the response. \<open>verifyFolderAccess\<close> returns the
  stores unchanged on every outcome.
\<close>

theorem audit_rows:
  "(post_decrypt_key L now req fileId body_password w = ((status, b), w') \<longrightarrow>
      (if status = 200 \<or> status = 401
       then \<exists>entry. securityLogs w' = securityLogs w @ [entry]
              \<and> action entry = ''file_unlock_attempt'' \<and> success entry = (status = 200)
              \<and> log_userId entry = Some (user_id req)
       else w' = w))
   \<and> (post_files L S e now req folderId req_files body_uploadMode body_passwords body_coverTypes w
        = (((status2, b2), w2), e2) \<longrightarrow>
      (if status2 = 201
       then \<exists>entry. securityLogs w2 = securityLogs w @ [entry]
              \<and> action entry = ''file_upload'' \<and> log_userId entry = Some (user_id req)
       else w2 = w \<and> e2 = e))
   \<and> snd (verifyFolderAccess now req params_id params_folderId w) = w"
proof (intro conjI impI)
  assume "post_decrypt_key L now req fileId body_password w = ((status, b), w')"
  from post_decrypt_key_audit [OF this]
  show "if status = 200 \<or> status = 401
        then \<exists>entry. securityLogs w' = securityLogs w @ [entry]
               \<and> action entry = ''file_unlock_attempt'' \<and> success entry = (status = 200)
               \<and> log_userId entry = Some (user_id req)
        else w' = w"
    by (auto simp: unlock_attempt_log_def split: if_splits)
next
  assume "post_files L S e now req folderId req_files body_uploadMode body_passwords
            body_coverTypes w = (((status2, b2), w2), e2)"
  from post_files_audit [OF this]
  show "if status2 = 201
        then \<exists>entry. securityLogs w2 = securityLogs w @ [entry]
               \<and> action entry = ''file_upload'' \<and> log_userId entry = Some (user_id req)
        else w2 = w \<and> e2 = e"
    by (auto simp: upload_log_def split: if_splits)
next
  show "snd (verifyFolderAccess now req params_id params_folderId w) = w"
    by (rule verifyFolderAccess_world)
qed

lemma upload_loop_status:
  "coverTypes \<noteq> JNull \<Longrightarrow>
   fst (fst (fst (upload_loop L S e now req folderId uploadMode pws coverTypes req_files w))) = 201"
  by (simp add: upload_loop_def split: prod.splits)

lemma sample_normal_upload_status:
  "fst (fst (fst (post_files sample_crypto sample_services sample_entropy 1000 alice ''album''
      [png_upload] (Some ''normal'') None None sample_world))) = 201"
  by (simp add: post_files_def or_default_def js_or_def falsy_def sample_services_def
      upload_loop_status)

lemma sample_secure_upload_status:
  "fst (fst (fst (post_files sample_crypto sample_services sample_entropy 1000 alice ''album''
      [png_upload] None (Some ''[\"abcd\"]'') None sample_world))) = 201"
  by (simp add: post_files_def or_default_def js_or_def falsy_def sample_services_def
      secureUploadSchema_validate_def upload_loop_status)

lemma sample_plain_decrypt:
  "post_decrypt_key sample_crypto 1000 alice ''f2'' (Some ''abcd'') sample_world
     = ((401, ErrorSuccess ''Invalid password'' False),
        securityLog_create
          (unlock_attempt_log alice False
             (FileIdError ''f2'' (File_key_decryption_failed ERR_INVALID_ARG_TYPE)))
          sample_world)"
proof -
  have "user_id alice = ''alice''" by (simp add: alice_def)
  moreover have "\<not> folder_isProtected album" by (simp add: album_def)
  moreover have "decryptFileKey sample_crypto (file_encryptedKeyBlob plain_file) ''abcd''
                   (file_salt plain_file) = Inl (File_key_decryption_failed ERR_INVALID_ARG_TYPE)"
    by (simp add: plain_file_def decrypt_null_blob)
  ultimately show ?thesis
    by (simp add: post_decrypt_key_def sample_lookups decrypt_key_attempt_def)
qed

text \<open>A successful unwrap, a failed unwrap, a plain upload and a secure upload on the
  sample stores, each with its audit row.\<close>

lemma sample_right_unwrap:
  "post_decrypt_key sample_crypto 1000 alice ''f3'' (Some ''abcd'') sample_world
     = ((200, FileKey (toString_base64 sample_key)),
        securityLog_create (unlock_attempt_log alice True (FileId ''f3'')) sample_world)"
proof -
  have "user_id alice = ''alice''" by (simp add: alice_def)
  moreover have "\<not> folder_isProtected album" by (simp add: album_def)
  ultimately show ?thesis
    by (simp add: post_decrypt_key_def sample_lookups decrypt_key_attempt_def
        decrypt_right_password)
qed

theorem audit_rows_witness:
  "(\<exists>entry. securityLogs (snd (post_decrypt_key sample_crypto 1000 alice ''f3'' (Some ''abcd'')
                 sample_world)) = securityLogs sample_world @ [entry]
      \<and> action entry = ''file_unlock_attempt'' \<and> success entry = True)
   \<and> (\<exists>entry. securityLogs (snd (post_decrypt_key sample_crypto 1000 alice ''f2'' (Some ''abcd'')
                 sample_world)) = securityLogs sample_world @ [entry]
      \<and> action entry = ''file_unlock_attempt'' \<and> success entry = False)
   \<and> (\<exists>entry. securityLogs (snd (fst (post_files sample_crypto sample_services sample_entropy 1000
                 alice ''album'' [png_upload] (Some ''normal'') None None sample_world)))
               = securityLogs sample_world @ [entry]
      \<and> action entry = ''file_upload'')
   \<and> (\<exists>entry. securityLogs (snd (fst (post_files sample_crypto sample_services sample_entropy 1000
                 alice ''album'' [png_upload] None (Some ''[\"abcd\"]'') None sample_world)))
               = securityLogs sample_world @ [entry]
      \<and> action entry = ''file_upload'')"
proof -
  obtain b4 w4 e4 where
    sec: "post_files sample_crypto sample_services sample_entropy 1000 alice ''album''
           [png_upload] None (Some ''[\"abcd\"]'') None sample_world = (((201, b4), w4), e4)"
    using sample_secure_upload_status by (metis prod.collapse)
  have wrapped: "\<exists>entry. securityLogs w4 = securityLogs sample_world @ [entry]
      \<and> action entry = ''file_upload''"
    using audit_rows [where L = sample_crypto and S = sample_services and e = sample_entropy
        and now = 1000 and req = alice and folderId = "''album''" and req_files = "[png_upload]"
        and body_uploadMode = None and body_passwords = "Some ''[\"abcd\"]''"
        and body_coverTypes = None and w = sample_world and ?status2.0 = 201 and ?b2.0 = b4
        and ?w2.0 = w4 and ?e2.0 = e4, THEN conjunct2, THEN conjunct1, rule_format, OF sec]
    by auto
  obtain b w' where
    dk: "post_decrypt_key sample_crypto 1000 alice ''f2'' (Some ''abcd'') sample_world
           = ((401, b), w')"
    using sample_plain_decrypt by blast
  obtain b2 w2 e2 where
    up: "post_files sample_crypto sample_services sample_entropy 1000 alice ''album''
           [png_upload] (Some ''normal'') None None sample_world = (((201, b2), w2), e2)"
    using sample_normal_upload_status by (metis prod.collapse)
  obtain b3 w3 where
    ok: "post_decrypt_key sample_crypto 1000 alice ''f3'' (Some ''abcd'') sample_world
           = ((200, b3), w3)"
    using sample_right_unwrap by blast
  have failed: "\<exists>entry. securityLogs w' = securityLogs sample_world @ [entry]
      \<and> action entry = ''file_unlock_attempt'' \<and> success entry = False"
    and uploaded: "\<exists>entry. securityLogs w2 = securityLogs sample_world @ [entry]
      \<and> action entry = ''file_upload''"
    using audit_rows [of sample_crypto 1000 alice "''f2''" "Some ''abcd''" sample_world 401 b w'
        sample_services sample_entropy "''album''" "[png_upload]" "Some ''normal''" None None
        201 b2 w2 e2 None None] dk up
    by auto
  have succeeded: "\<exists>entry. securityLogs w3 = securityLogs sample_world @ [entry]
      \<and> action entry = ''file_unlock_attempt'' \<and> success entry = True"
    using audit_rows [of sample_crypto 1000 alice "''f3''" "Some ''abcd''" sample_world 200 b3 w3
        sample_services sample_entropy "''album''" "[png_upload]" "Some ''normal''" None None
        201 b2 w2 e2 None None] ok
    by auto
  from failed uploaded succeeded wrapped dk up ok sec show ?thesis by simp
qed

section \<open>Folder access tokens\<close>

lemma generateToken_nonempty: "fst (generateToken e) \<noteq> []"
proof -
  have "length (fst (generateToken e)) = 43"
    by (simp add: generateToken_def randomBytes_def toString_base64url_def length_sextets)
  then show ?thesis by auto
qed

lemma verify_granted_iff:
  assumes "folder_findFirst w fid (user_id rq) = Some d" and "folder_isProtected d"
    and "fid \<noteq> []"
  shows "(\<exists>ctx. fst (verifyFolderAccess t rq (Some fid) None w) = Inr ctx) \<longleftrightarrow>
         (\<exists>tk r. x_folder_token rq = Some tk \<and> tk \<noteq> [] \<and> r \<in> set (folderAccessTokens w)
            \<and> token r = tk \<and> token_folderId r = fid \<and> token_userId r = user_id rq
            \<and> t < expiresAt r)"
proof (cases "x_folder_token rq")
  case None
  with assms show ?thesis by (simp add: verifyFolderAccess_def js_or_def falsy_def)
next
  case (Some tk)
  show ?thesis
  proof (cases "tk = []")
    case True
    with Some assms show ?thesis by (simp add: verifyFolderAccess_def js_or_def falsy_def)
  next
    case False
    show ?thesis
    proof (cases "folderAccessToken_findFirst w tk fid (user_id rq) t")
      case None
      with Some False assms findFirst_None_iff [of w tk fid "user_id rq" t] show ?thesis
        by (auto simp: verifyFolderAccess_def js_or_def falsy_def)
    next
      case (Some r)
      with \<open>x_folder_token rq = Some tk\<close> False assms
        findFirst_None_iff [of w tk fid "user_id rq" t] show ?thesis
        by (auto simp: verifyFolderAccess_def js_or_def falsy_def)
    qed
  qed
qed

lemma verify_granted_general:
  assumes "fid \<noteq> []"
  shows "(\<exists>ctx. fst (verifyFolderAccess t rq (Some fid) None w) = Inr ctx) \<longleftrightarrow>
         (\<exists>d. folder_findFirst w fid (user_id rq) = Some d \<and>
            (folder_isProtected d \<longrightarrow>
               (\<exists>tk r. x_folder_token rq = Some tk \<and> tk \<noteq> [] \<and> r \<in> set (folderAccessTokens w)
                  \<and> token r = tk \<and> token_folderId r = fid \<and> token_userId r = user_id rq
                  \<and> t < expiresAt r)))"
proof (cases "folder_findFirst w fid (user_id rq)")
  case None
  with assms show ?thesis by (simp add: verifyFolderAccess_def js_or_def falsy_def)
next
  case (Some d2)
  show ?thesis
  proof (cases "folder_isProtected d2")
    case True
    with Some verify_granted_iff [OF Some True assms, of t] show ?thesis by simp
  next
    case False
    with Some assms show ?thesis
      by (simp add: verifyFolderAccess_def js_or_def falsy_def)
  qed
qed

lemma post_unlock_success:
  assumes "post_unlock e t0 req folderId body_password w = (((200, b), w'), e')"
  shows "\<exists>d. folder_findFirst w folderId (user_id req) = Some d \<and> folder_isProtected d
           \<and> b = Unlocked ''Folder unlocked successfully'' (fst (generateToken e)) (t0 + 7200000)
           \<and> \<not> (\<exists>r \<in> set (folderAccessTokens w). token r = fst (generateToken e))
           \<and> folders w' = folders w
           \<and> folderAccessTokens w' = folderAccessTokens w @
                [\<lparr>token = fst (generateToken e), token_folderId = folderId,
                  token_userId = user_id req, expiresAt = t0 + 7200000\<rparr>]"
  using assms
  by (auto simp: post_unlock_def Let_def folderAccessToken_create_def securityLog_create_def
      list_ex_iff split: option.splits if_splits prod.splits sum.splits)

text \<open>
  C5. A successful unlock at time \<open>t0\<close> answers with a token and stores a row for it whose
  expiry is \<open>t0\<close> plus two hours (7200000 ms). With that token, \<open>verifyFolderAccess\<close> at time
  \<open>t\<close> grants exactly when \<open>t < t0 + 7200000\<close>. For any request, it grants exactly when
  the folder is found for the user and, the folder being protected, the table holds a row
  with the request's token, this folder and this user whose \<open>expiresAt\<close> is greater than
  \<open>t\<close>.
\<close>

theorem unlock_token_expiry:
  assumes "post_unlock e t0 req folderId body_password w = (((200, b), w'), e')"
    and "folderId \<noteq> []"
  shows "\<exists>tok. b = Unlocked ''Folder unlocked successfully'' tok (t0 + 7200000)
         \<and> \<lparr>token = tok, token_folderId = folderId, token_userId = user_id req,
             expiresAt = t0 + 2 * 60 * 60 * 1000\<rparr> \<in> set (folderAccessTokens w')
         \<and> (\<forall>t. (\<exists>ctx. fst (verifyFolderAccess t (req\<lparr>x_folder_token := Some tok\<rparr>)
                           (Some folderId) None w') = Inr ctx)
                \<longleftrightarrow> t < t0 + 7200000)
         \<and> (\<forall>t rq. (\<exists>ctx. fst (verifyFolderAccess t rq (Some folderId) None w') = Inr ctx)
                \<longleftrightarrow> (\<exists>d. folder_findFirst w' folderId (user_id rq) = Some d \<and>
                        (folder_isProtected d \<longrightarrow>
                          (\<exists>tk r. x_folder_token rq = Some tk \<and> tk \<noteq> []
                             \<and> r \<in> set (folderAccessTokens w') \<and> token r = tk
                             \<and> token_folderId r = folderId \<and> token_userId r = user_id rq
                             \<and> t < expiresAt r))))"
proof -
  let ?tok = "fst (generateToken e)"
  let ?row = "\<lparr>token = ?tok, token_folderId = folderId, token_userId = user_id req,
               expiresAt = t0 + 7200000\<rparr>"
  from post_unlock_success [OF assms(1)] obtain d where
    d: "folder_findFirst w folderId (user_id req) = Some d" "folder_isProtected d"
    and b: "b = Unlocked ''Folder unlocked successfully'' ?tok (t0 + 7200000)"
    and fresh: "\<not> (\<exists>r \<in> set (folderAccessTokens w). token r = ?tok)"
    and fo: "folders w' = folders w"
    and toks: "folderAccessTokens w' = folderAccessTokens w @ [?row]"
    by blast
  have d': "folder_findFirst w' folderId (user_id req) = Some d"
    using d(1) fo by (simp add: folder_findFirst_def)
  have own: "\<forall>t. (\<exists>ctx. fst (verifyFolderAccess t (req\<lparr>x_folder_token := Some ?tok\<rparr>)
                           (Some folderId) None w') = Inr ctx) \<longleftrightarrow> t < t0 + 7200000"
  proof
    fix t
    have "(\<exists>ctx. fst (verifyFolderAccess t (req\<lparr>x_folder_token := Some ?tok\<rparr>)
                           (Some folderId) None w') = Inr ctx)
          \<longleftrightarrow> (\<exists>r \<in> set (folderAccessTokens w'). token r = ?tok \<and> token_folderId r = folderId
                 \<and> token_userId r = user_id req \<and> t < expiresAt r)"
      using verify_granted_iff [of w' folderId "req\<lparr>x_folder_token := Some ?tok\<rparr>" d t]
        d' d(2) assms(2) generateToken_nonempty [of e]
      by auto
    also have "\<dots> \<longleftrightarrow> t < t0 + 7200000"
      using fresh by (auto simp: toks)
    finally show "(\<exists>ctx. fst (verifyFolderAccess t (req\<lparr>x_folder_token := Some ?tok\<rparr>)
                           (Some folderId) None w') = Inr ctx) \<longleftrightarrow> t < t0 + 7200000" .
  qed
  have "?row \<in> set (folderAccessTokens w')" by (simp add: toks)
  with b own verify_granted_general [OF assms(2), of _ _ w'] show ?thesis
    by (intro exI [of _ ?tok]) simp
qed

lemma sample_unlock:
  "post_unlock sample_entropy 1000 alice ''vault'' (Some ''folder123'') sample_world =
     (((200, Unlocked ''Folder unlocked successfully'' (fst (generateToken sample_entropy)) 7201000),
       securityLog_create (unlock_log alice True (FolderId ''vault''))
         (sample_world\<lparr>folderAccessTokens :=
            [\<lparr>token = fst (generateToken sample_entropy), token_folderId = ''vault'',
              token_userId = ''alice'', expiresAt = 7201000\<rparr>]\<rparr>)),
      snd (generateToken sample_entropy))"
  by (simp add: post_unlock_def falsy_def folder_findFirst_def sample_world_def vault_def
      alice_def Let_def case_prod_beta folderAccessToken_create_def)

text \<open>An unlock of the sample vault at time 1000: granted one millisecond before the
  expiry, denied at the expiry.\<close>

theorem unlock_token_expiry_witness:
  "\<exists>tok. fst (fst (post_unlock sample_entropy 1000 alice ''vault'' (Some ''folder123'')
                    sample_world))
          = (200, Unlocked ''Folder unlocked successfully'' tok 7201000)
     \<and> (\<exists>ctx. fst (verifyFolderAccess 7200999 (alice\<lparr>x_folder_token := Some tok\<rparr>)
                    (Some ''vault'') None
                    (snd (fst (post_unlock sample_entropy 1000 alice ''vault''
                                 (Some ''folder123'') sample_world)))) = Inr ctx)
     \<and> \<not> (\<exists>ctx. fst (verifyFolderAccess 7201000 (alice\<lparr>x_folder_token := Some tok\<rparr>)
                    (Some ''vault'') None
                    (snd (fst (post_unlock sample_entropy 1000 alice ''vault''
                                 (Some ''folder123'') sample_world)))) = Inr ctx)"
proof -
  have ne: "''vault'' \<noteq> []" by simp
  from unlock_token_expiry [OF sample_unlock ne] obtain tok where
    b: "Unlocked ''Folder unlocked successfully'' (fst (generateToken sample_entropy)) 7201000
          = Unlocked ''Folder unlocked successfully'' tok (1000 + 7200000)"
    and v: "\<forall>t. (\<exists>ctx. fst (verifyFolderAccess t (alice\<lparr>x_folder_token := Some tok\<rparr>)
                    (Some ''vault'') None
                    (securityLog_create (unlock_log alice True (FolderId ''vault''))
                       (sample_world\<lparr>folderAccessTokens :=
                          [\<lparr>token = fst (generateToken sample_entropy), token_folderId = ''vault'',
                            token_userId = ''alice'', expiresAt = 7201000\<rparr>]\<rparr>))) = Inr ctx)
               \<longleftrightarrow> t < 1000 + 7200000"
    by blast
  from v [rule_format, of 7200999] v [rule_format, of 7201000] b show ?thesis
    by (intro exI [of _ tok]) (simp add: sample_unlock)
qed

section \<open>The upload route\<close>

lemma show_nat_samples: "show_nat 1000 = ''1000''" "show_nat 123 = ''123''" "show_nat 4 = ''4''"
  "show_nat (Suc 0) = ''1''"
  by (simp_all add: show_nat.simps)

lemma sample_hash: "calculateHash sample_crypto (upload_buffer png_upload) = ''123''"
  by (simp add: calculateHash_def sample_crypto_def png_upload_def show_nat.simps)

lemma toString_base64_nonempty: "buf \<noteq> [] \<Longrightarrow> toString_base64 buf \<noteq> []"
  by (cases buf rule: sextets.cases) (simp_all add: toString_base64_def)

lemma encryptFileKey_unwrap:
  assumes ok: "node_crypto_ok L" and pw: "P \<noteq> []"
  shows "\<exists>wr. encryptFileKey L e K (Some P) S = (Inr wr, snd (randomBytes 12 e))
           \<and> encryptedKeyBlob wr \<noteq> []
           \<and> decryptFileKey L (Some (encryptedKeyBlob wr)) P (Some (toString_base64 S)) = Inr K"
proof -
  let ?n = "fst (randomBytes 12 e)"
  from encryptFileKey_ok [OF ok pw, of S e K] obtain ct tag where
    tag: "length tag = 16"
    and op: "aes_256_gcm_open L (pbkdf2 L P S 100000 32 ''sha256'') ?n AAD tag ct = Some K"
    and efk: "encryptFileKey L e K (Some P) S =
               (Inr \<lparr>encryptedKeyBlob = toString_base64 (?n @ tag @ ct),
                     salt = toString_base64 S\<rparr>, snd (randomBytes 12 e))"
    by blast
  have ln: "length ?n = 12" by (rule length_randomBytes)
  then have ne: "?n @ tag @ ct \<noteq> []" by auto
  have "decryptFileKey L (Some (toString_base64 (?n @ tag @ ct))) P (Some (toString_base64 S))
          = Inr K"
    by (simp only: decryptFileKey_unfold Buffer_from_toString_base64
        keyBlob_slices [OF ln tag] op option.case)
  with efk toString_base64_nonempty [OF ne] show ?thesis by simp
qed

lemma store_file_secure:
  assumes ok: "node_crypto_ok L" and pw: "p \<noteq> []"
  shows "\<exists>kb salt' blob key e3.
           store_file L now ''secure'' (Some p) f h w e =
             (case bucket w (''encrypted/'' @ show_nat now @ ''-'' @ ''encrypted/'' @ h @ ''-''
                               @ originalname f) of
                Some x \<Rightarrow> (Inl Supabase_upload_failed, w, e3)
              | None \<Rightarrow>
                  (Inr (''encrypted/'' @ show_nat now @ ''-'' @ ''encrypted/'' @ h @ ''-''
                          @ originalname f, Some kb, Some salt'),
                   w\<lparr>bucket := (bucket w)(''encrypted/'' @ show_nat now @ ''-'' @ ''encrypted/''
                        @ h @ ''-'' @ originalname f \<mapsto> blob)\<rparr>, e3))
         \<and> decryptFileKey L (Some kb) p (Some (toString_base64 salt')) = Inr key
         \<and> decryptData L (subarray_from blob 28) key (subarray blob 0 12) (subarray blob 12 28)
             = Inr (upload_buffer f)"
proof -
  from encryptFileForStorage_seals [OF ok, of e "upload_buffer f"] obtain enc e1 where
    enc: "encryptFileForStorage L e (upload_buffer f) = (Inr enc, e1)"
      "length (iv enc) = 12" "length (authTag enc) = 16"
      "aes_256_gcm_open L (fileKey enc) (iv enc) AAD (authTag enc) (encryptedData enc)
         = Some (upload_buffer f)"
    by blast
  obtain salt' e2 where s: "generateSalt e1 = (salt', e2)" by (cases "generateSalt e1")
  from encryptFileKey_unwrap [OF ok pw, of e2 "fileKey enc" salt'] obtain wr where
    wr: "encryptFileKey L e2 (fileKey enc) (Some p) salt' = (Inr wr, snd (randomBytes 12 e2))"
      "encryptedKeyBlob wr \<noteq> []"
      "decryptFileKey L (Some (encryptedKeyBlob wr)) p (Some (toString_base64 salt'))
         = Inr (fileKey enc)"
    by blast
  let ?blob = "iv enc @ authTag enc @ encryptedData enc"
  have open_blob: "decryptData L (subarray_from ?blob 28) (fileKey enc) (subarray ?blob 0 12)
                     (subarray ?blob 12 28) = Inr (upload_buffer f)"
    by (simp only: keyBlob_slices [OF enc(2,3)] decryptData_def enc(4) option.case)
  have "store_file L now ''secure'' (Some p) f h w e =
             (case bucket w (''encrypted/'' @ show_nat now @ ''-'' @ ''encrypted/'' @ h @ ''-''
                               @ originalname f) of
                Some x \<Rightarrow> (Inl Supabase_upload_failed, w, snd (randomBytes 12 e2))
              | None \<Rightarrow>
                  (Inr (''encrypted/'' @ show_nat now @ ''-'' @ ''encrypted/'' @ h @ ''-''
                          @ originalname f, Some (encryptedKeyBlob wr), Some salt'),
                   w\<lparr>bucket := (bucket w)(''encrypted/'' @ show_nat now @ ''-'' @ ''encrypted/''
                        @ h @ ''-'' @ originalname f \<mapsto> ?blob)\<rparr>, snd (randomBytes 12 e2)))"
    using enc(1) s wr(1,2)
    by (simp add: store_file_def createStorageBlob_def uploadEncryptedFile_def bucket_upload_def
        split: option.splits)
  with wr(3) open_blob show ?thesis by blast
qed


lemma process_file_secure_invalid:
  assumes "take 6 (mimetype f) = ''image/''" and "\<not> validateImage (upload_buffer f)"
  shows "process_file L S now req folderId uploadMode pws f i (w, e, up, errs)
           = (w, e, up, errs @ [(originalname f, Invalid_image_format)])"
  using assms by (simp add: process_file_def Let_def)

lemma process_file_secure_valid:
  fixes L :: node_crypto and S :: services and now :: nat and req :: request
    and folderId :: string and f :: upload and w :: world and path row
  defines "path \<equiv> ''encrypted/'' @ show_nat now @ ''-'' @ ''encrypted/''
                     @ calculateHash L (upload_buffer f) @ ''-'' @ originalname f"
    and "row \<equiv> (\<lambda>kb salt'.
           \<lparr>file_id = cuid S (created w), file_originalName = originalname f,
            file_mimeType = mimetype f, file_size = upload_size f,
            file_storagePath = path,
            file_coverPath = generateCover_data S (upload_buffer f)
                               (calculateHash L (upload_buffer f)) (user_id req),
            file_encryptedKeyBlob = Some kb, file_salt = Some (toString_base64 salt'),
            file_uploadMode = ''secure'', file_ownerId = user_id req,
            file_folderId = folderId\<rparr>)"
  assumes ok: "node_crypto_ok L" and sp: "select_password pws i = Some p" and pw: "p \<noteq> []"
    and valid: "\<not> (take 6 (mimetype f) = ''image/'' \<and> \<not> validateImage (upload_buffer f))"
  shows "\<exists>kb salt' blob key e3.
           process_file L S now req folderId ''secure'' pws f i (w, e, up, errs) =
             (case bucket w path of
                Some x \<Rightarrow> (w, e3, up, errs @ [(originalname f, Supabase_upload_failed)])
              | None \<Rightarrow>
                  (w\<lparr>bucket := (bucket w)(path \<mapsto> blob),
                     files := files w @ [row kb salt'], created := Suc (created w)\<rparr>,
                   e3, up @ [file_select (row kb salt')], errs))
         \<and> decryptFileKey L (Some kb) p (Some (toString_base64 salt')) = Inr key
         \<and> decryptData L (subarray_from blob 28) key (subarray blob 0 12) (subarray blob 12 28)
             = Inr (upload_buffer f)"
proof -
  from store_file_secure [OF ok pw, of now f "calculateHash L (upload_buffer f)" w e]
  obtain kb salt' blob key e3 where
    st: "store_file L now ''secure'' (Some p) f (calculateHash L (upload_buffer f)) w e =
             (case bucket w path of
                Some x \<Rightarrow> (Inl Supabase_upload_failed, w, e3)
              | None \<Rightarrow> (Inr (path, Some kb, Some salt'),
                   w\<lparr>bucket := (bucket w)(path \<mapsto> blob)\<rparr>, e3))"
    and dk: "decryptFileKey L (Some kb) p (Some (toString_base64 salt')) = Inr key"
    and dd: "decryptData L (subarray_from blob 28) key (subarray blob 0 12) (subarray blob 12 28)
             = Inr (upload_buffer f)"
    unfolding path_def by blast
  have "process_file L S now req folderId ''secure'' pws f i (w, e, up, errs) =
             (case bucket w path of
                Some x \<Rightarrow> (w, e3, up, errs @ [(originalname f, Supabase_upload_failed)])
              | None \<Rightarrow>
                  (w\<lparr>bucket := (bucket w)(path \<mapsto> blob),
                     files := files w @ [row kb salt'], created := Suc (created w)\<rparr>,
                   e3, up @ [file_select (row kb salt')], errs))"
    using valid sp st
    by (cases "bucket w path") (auto simp: process_file_def Let_def row_def)
  with dk dd show ?thesis by blast
qed


lemma process_file_secure_step:
  fixes L :: node_crypto and Q
  defines "Q \<equiv> (\<lambda>w row fp.
      file_originalName row = originalname (fst fp) \<and> file_uploadMode row = ''secure''
    \<and> (\<exists>key blob. decryptFileKey L (file_encryptedKeyBlob row) (snd fp) (file_salt row) = Inr key
          \<and> bucket w (file_storagePath row) = Some blob
          \<and> decryptData L (subarray_from blob 28) key (subarray blob 0 12) (subarray blob 12 28)
              = Inr (upload_buffer (fst fp))))"
  assumes ok: "node_crypto_ok L" and sp: "select_password pws i = Some p" and pw: "p \<noteq> []"
    and step: "process_file L S now req folderId ''secure'' pws f i (w, e, up, errs)
                 = (w', e', up', errs')"
    and inv: "list_all2 (Q w) new sel"
    and fl: "files w = base @ new" and sel: "up = map file_select new"
  shows "(files w' = base @ new \<and> up' = map file_select new
            \<and> length errs' = Suc (length errs) \<and> list_all2 (Q w') new sel)
       \<or> (\<exists>row. files w' = base @ new @ [row] \<and> up' = map file_select (new @ [row])
            \<and> errs' = errs \<and> list_all2 (Q w') (new @ [row]) (sel @ [(f, p)]))"
proof (cases "take 6 (mimetype f) = ''image/'' \<and> \<not> validateImage (upload_buffer f)")
  case True
  then have "process_file L S now req folderId ''secure'' pws f i (w, e, up, errs)
           = (w, e, up, errs @ [(originalname f, Invalid_image_format)])"
    by (simp add: process_file_secure_invalid)
  with step inv fl sel show ?thesis by simp
next
  case False
  let ?path = "''encrypted/'' @ show_nat now @ ''-'' @ ''encrypted/''
                     @ calculateHash L (upload_buffer f) @ ''-'' @ originalname f"
  let ?row = "\<lambda>kb salt'.
           \<lparr>file_id = cuid S (created w), file_originalName = originalname f,
            file_mimeType = mimetype f, file_size = upload_size f,
            file_storagePath = ?path,
            file_coverPath = generateCover_data S (upload_buffer f)
                               (calculateHash L (upload_buffer f)) (user_id req),
            file_encryptedKeyBlob = Some kb, file_salt = Some (toString_base64 salt'),
            file_uploadMode = ''secure'', file_ownerId = user_id req,
            file_folderId = folderId\<rparr>"
  from process_file_secure_valid [OF ok sp pw False, of S now req folderId w e up errs]
  obtain kb salt' blob key e3 where
    eq: "process_file L S now req folderId ''secure'' pws f i (w, e, up, errs) =
             (case bucket w ?path of
                Some x \<Rightarrow> (w, e3, up, errs @ [(originalname f, Supabase_upload_failed)])
              | None \<Rightarrow>
                  (w\<lparr>bucket := (bucket w)(?path \<mapsto> blob),
                     files := files w @ [?row kb salt'], created := Suc (created w)\<rparr>,
                   e3, up @ [file_select (?row kb salt')], errs))"
    and dk: "decryptFileKey L (Some kb) p (Some (toString_base64 salt')) = Inr key"
    and dd: "decryptData L (subarray_from blob 28) key (subarray blob 0 12) (subarray blob 12 28)
             = Inr (upload_buffer f)"
    by blast
  show ?thesis
  proof (cases "bucket w ?path")
    case (Some x)
    with eq step have "w' = w" "up' = up"
      "errs' = errs @ [(originalname f, Supabase_upload_failed)]"
      by simp_all
    with inv fl sel show ?thesis by simp
  next
    case None
    with eq step have
      w': "w' = w\<lparr>bucket := (bucket w)(?path \<mapsto> blob),
                  files := files w @ [?row kb salt'], created := Suc (created w)\<rparr>"
      and up': "up' = up @ [file_select (?row kb salt')]" and errs': "errs' = errs"
      by simp_all
    have keep: "\<And>r fp. Q w r fp \<Longrightarrow> Q w' r fp"
    proof -
      fix r fp assume q: "Q w r fp"
      then have "file_storagePath r \<noteq> ?path" using None unfolding Q_def by auto
      with q show "Q w' r fp" unfolding Q_def w' by auto
    qed
    have old: "list_all2 (Q w') new sel"
      using inv keep by (rule list_all2_mono)
    have fresh: "Q w' (?row kb salt') (f, p)"
      unfolding Q_def w' using dk dd by simp
    have "list_all2 (Q w') (new @ [?row kb salt']) (sel @ [(f, p)])"
      using old fresh by (simp add: list_all2_appendI)
    moreover have "files w' = base @ new @ [?row kb salt']" using w' fl by simp
    moreover have "up' = map file_select (new @ [?row kb salt'])" using up' sel by simp
    ultimately show ?thesis using errs' by blast
  qed
qed

lemma select_password_own:
  assumes "i < length pws" and "pws ! i \<noteq> []"
  shows "select_password pws i = Some (pws ! i)"
  using assms by (simp add: select_password_def nth_opt_def js_or_def falsy_def)

lemma process_files_secure:
  fixes L :: node_crypto and Q
  defines "Q \<equiv> (\<lambda>w row fp.
      file_originalName row = originalname (fst fp) \<and> file_uploadMode row = ''secure''
    \<and> (\<exists>key blob. decryptFileKey L (file_encryptedKeyBlob row) (snd fp) (file_salt row) = Inr key
          \<and> bucket w (file_storagePath row) = Some blob
          \<and> decryptData L (subarray_from blob 28) key (subarray blob 0 12) (subarray blob 12 28)
              = Inr (upload_buffer (fst fp))))"
  assumes ok: "node_crypto_ok L" and ne: "\<forall>p \<in> set pws. p \<noteq> []"
  shows "process_files L S now req folderId ''secure'' pws fs i (w, e, up, errs)
           = (w', e', up', errs') \<Longrightarrow>
         length pws = i + length fs \<Longrightarrow>
         files w = base @ new \<Longrightarrow> up = map file_select new \<Longrightarrow>
         list_all2 (Q w) new sel \<Longrightarrow>
         \<exists>new' sel'. files w' = base @ new @ new' \<and> up' = map file_select (new @ new')
           \<and> list_all2 (Q w') (new @ new') (sel @ sel')
           \<and> subseq sel' (zip fs (drop i pws))
           \<and> length errs' + length new' = length errs + length fs"
proof (induction fs arbitrary: i w e up errs new sel)
  case Nil
  then show ?case by (intro exI [of _ "[]"]) simp
next
  case (Cons f rest)
  obtain w1 e1 up1 errs1 where
    step: "process_file L S now req folderId ''secure'' pws f i (w, e, up, errs)
             = (w1, e1, up1, errs1)"
    by (metis prod.exhaust)
  have run: "process_files L S now req folderId ''secure'' pws rest (Suc i) (w1, e1, up1, errs1)
               = (w', e', up', errs')"
    using Cons.prems(1) step by simp
  have i: "i < length pws" using Cons.prems(2) by simp
  then have pi: "pws ! i \<noteq> []" using ne by simp
  have len: "length pws = Suc i + length rest" using Cons.prems(2) by simp
  have dr: "drop i pws = pws ! i # drop (Suc i) pws"
    using i by (simp add: Cons_nth_drop_Suc)
  from process_file_secure_step [OF ok select_password_own [OF i pi] pi step
      Cons.prems(5) [unfolded Q_def] Cons.prems(3) Cons.prems(4)]
  consider (err) "files w1 = base @ new" "up1 = map file_select new"
      "length errs1 = Suc (length errs)" "list_all2 (Q w1) new sel"
    | (row) row where "files w1 = base @ new @ [row]" "up1 = map file_select (new @ [row])"
      "errs1 = errs" "list_all2 (Q w1) (new @ [row]) (sel @ [(f, pws ! i)])"
    unfolding Q_def by blast
  then show ?case
  proof cases
    case err
    from Cons.IH [OF run len err(1) err(2) err(4)] obtain new' sel' where
      r: "files w' = base @ new @ new'" "up' = map file_select (new @ new')"
         "list_all2 (Q w') (new @ new') (sel @ sel')"
         "subseq sel' (zip rest (drop (Suc i) pws))"
         "length errs' + length new' = length errs1 + length rest"
      by blast
    have "subseq sel' (zip (f # rest) (drop i pws))"
      using r(4) by (auto simp: dr intro: list_emb.intros)
    with r err(3) show ?thesis by (intro exI [of _ new'] exI [of _ sel']) simp
  next
    case row
    have fl1: "files w1 = base @ (new @ [row])" using row(1) by simp
    from Cons.IH [OF run len fl1 row(2) row(4)] obtain new' sel' where
      r: "files w' = base @ (new @ [row]) @ new'" "up' = map file_select ((new @ [row]) @ new')"
         "list_all2 (Q w') ((new @ [row]) @ new') ((sel @ [(f, pws ! i)]) @ sel')"
         "subseq sel' (zip rest (drop (Suc i) pws))"
         "length errs' + length new' = length errs1 + length rest"
      by blast
    have "subseq ((f, pws ! i) # sel') (zip (f # rest) (drop i pws))"
      using r(4) by (simp add: dr)
    with r row(3) show ?thesis
      by (intro exI [of _ "row # new'"] exI [of _ "(f, pws ! i) # sel'"]) simp
  qed
qed


lemma process_file_own_password:
  assumes "select_password pws i = Some p"
  shows "process_file L S now req folderId uploadMode pws f i st
           = process_file L S now req folderId uploadMode [p] f 0 st"
proof -
  have "select_password [p] 0 = Some p \<or> p = []"
    by (simp add: select_password_def nth_opt_def js_or_def falsy_def)
  moreover have "p = [] \<Longrightarrow> select_password [p] 0 = Some p"
    by (simp add: select_password_def nth_opt_def js_or_def falsy_def)
  ultimately have "select_password [p] 0 = select_password pws i" using assms by auto
  then show ?thesis by (cases st) (simp add: process_file_def)
qed

lemma process_files_own_passwords:
  assumes ne: "\<forall>p \<in> set pws. p \<noteq> []"
  shows "length pws = i + length fs \<Longrightarrow>
         process_files L S now req folderId uploadMode pws fs i st
           = foldl (\<lambda>st (f, p). process_file L S now req folderId uploadMode [p] f 0 st) st
               (zip fs (drop i pws))"
proof (induction fs arbitrary: i st)
  case Nil
  then show ?case by simp
next
  case (Cons f rest)
  have i: "i < length pws" using Cons.prems by simp
  then have pi: "pws ! i \<noteq> []" using ne by simp
  have dr: "drop i pws = pws ! i # drop (Suc i) pws"
    using i by (simp add: Cons_nth_drop_Suc)
  have len: "length pws = Suc i + length rest" using Cons.prems by simp
  show ?case
    using Cons.IH [OF len] process_file_own_password [OF select_password_own [OF i pi]]
    by (simp add: dr)
qed

lemma password_item_Some: "password_item x = Some p \<Longrightarrow> x = JString p \<and> 4 \<le> length p"
  by (cases x) (auto split: if_splits)

lemma secureUploadSchema_validate_Some:
  assumes "secureUploadSchema_validate j = Some pws"
  shows "j = JArray (map JString pws)" "\<forall>p \<in> set pws. 4 \<le> length p" "pws \<noteq> []"
proof -
  from assms obtain items where items: "j = JArray items" "items \<noteq> []"
    "list_all (\<lambda>x. password_item x \<noteq> None) items"
    "pws = map (\<lambda>x. the (password_item x)) items"
    by (cases j) (auto simp: secureUploadSchema_validate_def split: if_splits)
  have each: "\<forall>x \<in> set items. x = JString (the (password_item x))
                 \<and> 4 \<le> length (the (password_item x))"
    using items(3) password_item_Some by (auto simp: list_all_iff)
  then have "map JString pws = items"
    unfolding items(4) by (induction items) auto
  then show "j = JArray (map JString pws)" using items(1) by simp
  show "\<forall>p \<in> set pws. 4 \<le> length p" using each unfolding items(4) by auto
  show "pws \<noteq> []" using items(2,4) by simp
qed

lemma post_files_secure_loop:
  assumes "or_default body_uploadMode ''secure'' = ''secure''"
    and "post_files L S e now req folderId req_files body_uploadMode body_passwords
             body_coverTypes w = (((201, b), w'), e')"
  shows "\<exists>pws w1 up errs msg.
           JSON_parse S (or_default body_passwords ''[]'') = Some (JArray (map JString pws))
         \<and> (\<forall>p \<in> set pws. 4 \<le> length p) \<and> length pws = length req_files
         \<and> process_files L S now req folderId ''secure'' pws req_files 0 (w, e, [], [])
             = (w1, e', up, errs)
         \<and> b = Uploaded msg up errs
         \<and> w' = securityLog_create (upload_log req folderId (length up) (length errs)) w1"
proof -
  from assms obtain j pws ct where
    j: "JSON_parse S (or_default body_passwords ''[]'') = Some j"
    and v: "secureUploadSchema_validate j = Some pws"
    and len: "length pws = length req_files"
    and loop: "upload_loop L S e now req folderId ''secure'' pws ct req_files w
                 = (((201, b), w'), e')"
    by (auto simp: post_files_def Let_def split: if_splits option.splits)
  from loop obtain w1 up errs where
    "process_files L S now req folderId ''secure'' pws req_files 0 (w, e, [], [])
             = (w1, e', up, errs)"
    "b = Uploaded (show_nat (length up) @ '' files uploaded successfully'') up errs"
    "w' = securityLog_create (upload_log req folderId (length up) (length errs)) w1"
    by (auto simp: upload_loop_def split: if_splits prod.splits)
  with j len secureUploadSchema_validate_Some [OF v] show ?thesis by blast
qed

text \<open>
  C9. A secure-mode upload whose parsed \<open>passwords\<close> array has another length than
  \<open>req.files\<close> is answered 400, with the stores and the random source untouched. For a
  password list that passed the schema and has the length of \<open>req.files\<close>, the password
  chosen for file \<open>i\<close> is the \<open>i\<close>-th one: the fallback to the first is never taken.
  The loop hands each file the password at the file's own index and no other: with such a
  list, the loop over \<open>req.files\<close> does what handling every file on its own does, as the
  only file of an upload whose only password is the one at the file's index. So, given the
  documented behaviour of the cipher, after a secure-mode upload that answers 201 the new
  rows are, in order, envelopes of a subsequence of the pairs (file \<open>i\<close>, password \<open>i\<close>) of
  the request, one row or one error per file. A row is the envelope of its pair when it
  carries the file's name, its key blob unwraps under that password to a key, and the object
  stored at the row's path opens under that key to the file's payload.
\<close>

theorem password_count_mismatch_rejected:
  "(or_default body_uploadMode ''secure'' = ''secure''
      \<and> JSON_parse S (or_default body_passwords ''[]'') = Some (JArray items)
      \<and> length items \<noteq> length req_files
    \<longrightarrow> (\<exists>b. post_files L S e now req folderId req_files body_uploadMode body_passwords
                 body_coverTypes w = (((400, b), w), e)))
   \<and> (secureUploadSchema_validate passwords = Some pws \<and> length pws = length req_files
      \<and> i < length req_files
    \<longrightarrow> select_password pws i = Some (pws ! i))
   \<and> (secureUploadSchema_validate passwords = Some pws \<and> length pws = length req_files
    \<longrightarrow> (\<forall>st. process_files L S now req folderId ''secure'' pws req_files 0 st
               = foldl (\<lambda>st (f, p). process_file L S now req folderId ''secure'' [p] f 0 st)
                   st (zip req_files pws)))
   \<and> (node_crypto_ok L \<and> or_default body_uploadMode ''secure'' = ''secure''
      \<and> post_files L S e now req folderId req_files body_uploadMode body_passwords
          body_coverTypes w = (((201, Uploaded msg uploadedFiles errors), w'), e')
    \<longrightarrow> (\<exists>sent new sel.
           JSON_parse S (or_default body_passwords ''[]'') = Some (JArray (map JString sent))
         \<and> length sent = length req_files
         \<and> files w' = files w @ new \<and> uploadedFiles = map file_select new
         \<and> length new + length errors = length req_files
         \<and> subseq sel (zip req_files sent)
         \<and> list_all2
             (\<lambda>row (f, p).
                file_originalName row = originalname f \<and> file_uploadMode row = ''secure''
              \<and> (\<exists>key blob.
                    decryptFileKey L (file_encryptedKeyBlob row) p (file_salt row) = Inr key
                  \<and> bucket w' (file_storagePath row) = Some blob
                  \<and> decryptData L (subarray_from blob 28) key (subarray blob 0 12)
                      (subarray blob 12 28) = Inr (upload_buffer f)))
             new sel))"
proof (intro conjI impI)
  assume a: "or_default body_uploadMode ''secure'' = ''secure''
      \<and> JSON_parse S (or_default body_passwords ''[]'') = Some (JArray items)
      \<and> length items \<noteq> length req_files"
  have len: "\<And>pws. secureUploadSchema_validate (JArray items) = Some pws
               \<Longrightarrow> length pws = length items"
    by (auto simp: secureUploadSchema_validate_def split: if_splits)
  show "\<exists>b. post_files L S e now req folderId req_files body_uploadMode body_passwords
                 body_coverTypes w = (((400, b), w), e)"
    using a len by (auto simp: post_files_def Let_def split: option.splits)
next
  assume a: "secureUploadSchema_validate passwords = Some pws \<and> length pws = length req_files
      \<and> i < length req_files"
  then have "\<forall>p \<in> set pws. 4 \<le> length p"
    using secureUploadSchema_validate_Some(2) by blast
  moreover have "pws ! i \<in> set pws" using a by simp
  ultimately have "4 \<le> length (pws ! i)" by blast
  then have "pws ! i \<noteq> []" by auto
  with a show "select_password pws i = Some (pws ! i)"
    by (simp add: select_password_own)
next
  assume a: "secureUploadSchema_validate passwords = Some pws \<and> length pws = length req_files"
  then have "\<forall>p \<in> set pws. 4 \<le> length p"
    using secureUploadSchema_validate_Some(2) by blast
  then have ne: "\<forall>p \<in> set pws. p \<noteq> []" by fastforce
  have len: "length pws = 0 + length req_files" using a by simp
  show "\<forall>st. process_files L S now req folderId ''secure'' pws req_files 0 st
               = foldl (\<lambda>st (f, p). process_file L S now req folderId ''secure'' [p] f 0 st)
                   st (zip req_files pws)"
    using process_files_own_passwords [OF ne len] by simp
next
  assume a: "node_crypto_ok L \<and> or_default body_uploadMode ''secure'' = ''secure''
      \<and> post_files L S e now req folderId req_files body_uploadMode body_passwords
          body_coverTypes w = (((201, Uploaded msg uploadedFiles errors), w'), e')"
  then have ok: "node_crypto_ok L" by simp
  from a post_files_secure_loop [of body_uploadMode L S e now req folderId req_files
      body_passwords body_coverTypes w "Uploaded msg uploadedFiles errors" w' e']
  obtain sent w1 where
    parse: "JSON_parse S (or_default body_passwords ''[]'') = Some (JArray (map JString sent))"
    and long: "\<forall>p \<in> set sent. 4 \<le> length p" and len: "length sent = length req_files"
    and run: "process_files L S now req folderId ''secure'' sent req_files 0 (w, e, [], [])
             = (w1, e', uploadedFiles, errors)"
    and w': "w' = securityLog_create
                    (upload_log req folderId (length uploadedFiles) (length errors)) w1"
    by auto
  have ne: "\<forall>p \<in> set sent. p \<noteq> []" using long by fastforce
  have len0: "length sent = 0 + length req_files" using len by simp
  have fl0: "files w = files w @ []" by simp
  have sel0: "[] = map file_select []" by simp
  from process_files_secure [OF ok ne run len0 fl0 sel0, of "[]"]
  obtain new sel where
    r: "files w1 = files w @ new" "uploadedFiles = map file_select new"
       "subseq sel (zip req_files sent)" "length errors + length new = length req_files"
    and rows: "list_all2
             (\<lambda>row fp.
                file_originalName row = originalname (fst fp) \<and> file_uploadMode row = ''secure''
              \<and> (\<exists>key blob.
                    decryptFileKey L (file_encryptedKeyBlob row) (snd fp) (file_salt row) = Inr key
                  \<and> bucket w1 (file_storagePath row) = Some blob
                  \<and> decryptData L (subarray_from blob 28) key (subarray blob 0 12)
                      (subarray blob 12 28) = Inr (upload_buffer (fst fp))))
             new sel"
    by auto
  have same: "bucket w' = bucket w1" "files w' = files w1"
    by (simp_all add: w' securityLog_create_def)
  have "list_all2
             (\<lambda>row (f, p).
                file_originalName row = originalname f \<and> file_uploadMode row = ''secure''
              \<and> (\<exists>key blob.
                    decryptFileKey L (file_encryptedKeyBlob row) p (file_salt row) = Inr key
                  \<and> bucket w' (file_storagePath row) = Some blob
                  \<and> decryptData L (subarray_from blob 28) key (subarray blob 0 12)
                      (subarray blob 12 28) = Inr (upload_buffer f)))
             new sel"
    using rows by (rule list_all2_mono) (auto simp: same)
  with parse len r same show "\<exists>sent new sel.
           JSON_parse S (or_default body_passwords ''[]'') = Some (JArray (map JString sent))
         \<and> length sent = length req_files
         \<and> files w' = files w @ new \<and> uploadedFiles = map file_select new
         \<and> length new + length errors = length req_files
         \<and> subseq sel (zip req_files sent)
         \<and> list_all2
             (\<lambda>row (f, p).
                file_originalName row = originalname f \<and> file_uploadMode row = ''secure''
              \<and> (\<exists>key blob.
                    decryptFileKey L (file_encryptedKeyBlob row) p (file_salt row) = Inr key
                  \<and> bucket w' (file_storagePath row) = Some blob
                  \<and> decryptData L (subarray_from blob 28) key (subarray blob 0 12)
                      (subarray blob 12 28) = Inr (upload_buffer f)))
             new sel"
    by (intro exI [of _ sent] exI [of _ new] exI [of _ sel]) simp
qed

lemma sample_secure_upload:
  "\<exists>w' e'. post_files sample_crypto sample_services sample_entropy 1000 alice ''album''
              [png_upload, gif_upload] None (Some ''[\"abcd\",\"efgh\"]'') None sample_world
     = (((201, Uploaded ''2 files uploaded successfully''
            [\<lparr>saved_id = ''c4'', saved_originalName = ''bird.png'',
              saved_mimeType = ''image/png'', saved_size = 5,
              saved_coverPath = ''https://images.unsplash.com/cover''\<rparr>,
             \<lparr>saved_id = ''c5'', saved_originalName = ''fish.gif'',
              saved_mimeType = ''image/gif'', saved_size = 4,
              saved_coverPath = ''https://images.unsplash.com/cover''\<rparr>] []), w'), e')"
proof -
  let ?pws = "[''abcd'', ''efgh'']"
  have sp: "select_password ?pws 0 = Some ''abcd''" "select_password ?pws (Suc 0) = Some ''efgh''"
    by (simp_all add: select_password_def nth_opt_def js_or_def falsy_def)
  have v1: "\<not> (take 6 (mimetype png_upload) = ''image/''
               \<and> \<not> validateImage (upload_buffer png_upload))"
    by (simp add: validateImage_def imageSignatures_def png_upload_def)
  have v2: "\<not> (take 6 (mimetype gif_upload) = ''image/''
               \<and> \<not> validateImage (upload_buffer gif_upload))"
    by (simp add: validateImage_def imageSignatures_def gif_upload_def)
  have h2: "calculateHash sample_crypto (upload_buffer gif_upload) = ''14''"
    by (simp add: calculateHash_def sample_crypto_def gif_upload_def show_nat.simps)
  have n: "show_nat 5 = ''5''" "show_nat (Suc (Suc 0)) = ''2''"
    by (simp_all add: show_nat.simps)
  have p: "originalname png_upload = ''bird.png''" "mimetype png_upload = ''image/png''"
    "upload_size png_upload = 5" "originalname gif_upload = ''fish.gif''"
    "mimetype gif_upload = ''image/gif''" "upload_size gif_upload = 4"
    by (simp_all add: png_upload_def gif_upload_def)
  have b: "bucket sample_world ''encrypted/1000-encrypted/123-bird.png'' = None"
    "bucket sample_world ''encrypted/1000-encrypted/14-fish.gif'' = None"
    by (simp_all add: sample_world_def)
  have c: "created sample_world = 4" by (simp add: sample_world_def)
  have s: "cuid sample_services = (\<lambda>n. ''c'' @ show_nat n)"
    "generateCover_data sample_services = (\<lambda>buf fileHash ownerId. ''https://images.unsplash.com/cover'')"
    by (simp_all add: sample_services_def)
  from process_file_secure_valid [OF sample_crypto_ok sp(1) _ v1, of sample_services 1000 alice
      "''album''" sample_world sample_entropy "[]" "[]"]
  obtain w1 e1 where
    st1: "process_file sample_crypto sample_services 1000 alice ''album'' ''secure'' ?pws
            png_upload 0 (sample_world, sample_entropy, [], [])
          = (w1, e1,
             [\<lparr>saved_id = ''c4'', saved_originalName = ''bird.png'',
               saved_mimeType = ''image/png'', saved_size = 5,
               saved_coverPath = ''https://images.unsplash.com/cover''\<rparr>], [])"
    and w1: "bucket w1 ''encrypted/1000-encrypted/14-fish.gif'' = None" "created w1 = 5"
    by (auto simp: sample_hash show_nat_samples p b c s file_select_def)
  from process_file_secure_valid [OF sample_crypto_ok sp(2) _ v2, of sample_services 1000 alice
      "''album''" w1 e1
      "[\<lparr>saved_id = ''c4'', saved_originalName = ''bird.png'',
               saved_mimeType = ''image/png'', saved_size = 5,
               saved_coverPath = ''https://images.unsplash.com/cover''\<rparr>]" "[]"]
  obtain w2 e2 where
    st2: "process_file sample_crypto sample_services 1000 alice ''album'' ''secure'' ?pws
            gif_upload (Suc 0) (w1, e1,
             [\<lparr>saved_id = ''c4'', saved_originalName = ''bird.png'',
               saved_mimeType = ''image/png'', saved_size = 5,
               saved_coverPath = ''https://images.unsplash.com/cover''\<rparr>], [])
          = (w2, e2,
             [\<lparr>saved_id = ''c4'', saved_originalName = ''bird.png'',
               saved_mimeType = ''image/png'', saved_size = 5,
               saved_coverPath = ''https://images.unsplash.com/cover''\<rparr>,
              \<lparr>saved_id = ''c5'', saved_originalName = ''fish.gif'',
               saved_mimeType = ''image/gif'', saved_size = 4,
               saved_coverPath = ''https://images.unsplash.com/cover''\<rparr>], [])"
    by (auto simp: h2 show_nat_samples n p w1 s file_select_def)
  have parse: "JSON_parse sample_services ''[\"abcd\",\"efgh\"]''
                 = Some (JArray [JString ''abcd'', JString ''efgh''])"
    "JSON_parse sample_services ''[]'' = Some (JArray [])"
    by (simp_all add: sample_services_def)
  have v: "secureUploadSchema_validate (JArray [JString ''abcd'', JString ''efgh''])
             = Some [''abcd'', ''efgh'']"
    by (simp add: secureUploadSchema_validate_def)
  show ?thesis
    by (simp add: post_files_def upload_loop_def or_default_def js_or_def falsy_def Let_def
        parse v st1 st2 n)
qed

text \<open>Two passwords for one file are refused; with two files the second gets the second
  password, and a secure upload of two files into the sample stores leaves two rows, the
  first unwrapping under the first password and the second under the second.\<close>

theorem password_count_mismatch_rejected_witness:
  "(\<exists>b. post_files sample_crypto sample_services sample_entropy 1000 alice ''album''
          [png_upload] None (Some ''[\"abcd\",\"efgh\"]'') None sample_world
        = (((400, b), sample_world), sample_entropy))
   \<and> select_password [''abcd'', ''efgh''] 1 = Some ''efgh''
   \<and> process_files sample_crypto sample_services 1000 alice ''album'' ''secure''
         [''abcd'', ''efgh''] [png_upload, gif_upload] 0 (sample_world, sample_entropy, [], [])
       = process_file sample_crypto sample_services 1000 alice ''album'' ''secure'' [''efgh'']
           gif_upload 0
           (process_file sample_crypto sample_services 1000 alice ''album'' ''secure'' [''abcd'']
              png_upload 0 (sample_world, sample_entropy, [], []))
   \<and> node_crypto_ok sample_crypto
   \<and> (\<exists>w' e' row1 row2 key1 key2 blob2.
         post_files sample_crypto sample_services sample_entropy 1000 alice ''album''
           [png_upload, gif_upload] None (Some ''[\"abcd\",\"efgh\"]'') None sample_world
         = (((201, Uploaded ''2 files uploaded successfully''
                [file_select row1, file_select row2] []), w'), e')
       \<and> files w' = files sample_world @ [row1, row2]
       \<and> file_originalName row1 = ''bird.png''
       \<and> decryptFileKey sample_crypto (file_encryptedKeyBlob row1) ''abcd'' (file_salt row1)
           = Inr key1
       \<and> file_originalName row2 = ''fish.gif''
       \<and> decryptFileKey sample_crypto (file_encryptedKeyBlob row2) ''efgh'' (file_salt row2)
           = Inr key2
       \<and> bucket w' (file_storagePath row2) = Some blob2
       \<and> decryptData sample_crypto (subarray_from blob2 28) key2 (subarray blob2 0 12)
            (subarray blob2 12 28) = Inr [0x47, 0x49, 0x46, 0x38])"
proof -
  let ?s1 = "\<lparr>saved_id = ''c4'', saved_originalName = ''bird.png'',
              saved_mimeType = ''image/png'', saved_size = 5,
              saved_coverPath = ''https://images.unsplash.com/cover''\<rparr>"
  let ?s2 = "\<lparr>saved_id = ''c5'', saved_originalName = ''fish.gif'',
              saved_mimeType = ''image/gif'', saved_size = 4,
              saved_coverPath = ''https://images.unsplash.com/cover''\<rparr>"
  have mode: "or_default None ''secure'' = ''secure''"
    by (simp add: or_default_def js_or_def falsy_def)
  have parse: "JSON_parse sample_services (or_default (Some ''[\"abcd\",\"efgh\"]'') ''[]'')
                 = Some (JArray [JString ''abcd'', JString ''efgh''])"
    by (simp add: or_default_def js_or_def falsy_def sample_services_def)
  have v: "secureUploadSchema_validate (JArray [JString ''abcd'', JString ''efgh''])
             = Some [''abcd'', ''efgh'']"
    by (simp add: secureUploadSchema_validate_def)
  have 1: "\<exists>b. post_files sample_crypto sample_services sample_entropy 1000 alice ''album''
          [png_upload] None (Some ''[\"abcd\",\"efgh\"]'') None sample_world
        = (((400, b), sample_world), sample_entropy)"
    using password_count_mismatch_rejected [where body_uploadMode = None
        and body_passwords = "Some ''[\"abcd\",\"efgh\"]''" and S = sample_services
        and items = "[JString ''abcd'', JString ''efgh'']" and req_files = "[png_upload]"
        and L = sample_crypto and e = sample_entropy and now = 1000 and req = alice
        and folderId = "''album''" and body_coverTypes = None and w = sample_world]
      mode parse by simp
  have 2: "select_password [''abcd'', ''efgh''] 1 = Some ''efgh''"
    using password_count_mismatch_rejected [where req_files = "[png_upload, gif_upload]"
        and passwords = "JArray [JString ''abcd'', JString ''efgh'']"
        and pws = "[''abcd'', ''efgh'']" and i = 1] v by simp
  have lens: "length [''abcd'', ''efgh''] = length [png_upload, gif_upload]" by simp
  note own = password_count_mismatch_rejected [where req_files = "[png_upload, gif_upload]"
        and passwords = "JArray [JString ''abcd'', JString ''efgh'']"
        and pws = "[''abcd'', ''efgh'']" and L = sample_crypto and S = sample_services
        and now = 1000 and req = alice and folderId = "''album''",
        THEN conjunct2, THEN conjunct2, THEN conjunct1, rule_format, OF conjI [OF v lens]]
  have 4: "process_files sample_crypto sample_services 1000 alice ''album'' ''secure''
         [''abcd'', ''efgh''] [png_upload, gif_upload] 0 (sample_world, sample_entropy, [], [])
       = process_file sample_crypto sample_services 1000 alice ''album'' ''secure'' [''efgh'']
           gif_upload 0
           (process_file sample_crypto sample_services 1000 alice ''album'' ''secure'' [''abcd'']
              png_upload 0 (sample_world, sample_entropy, [], []))"
    by (simp only: own zip_Cons_Cons zip_Nil foldl_Cons foldl_Nil case_prod_conv)
  from sample_secure_upload obtain w' e' where
    run: "post_files sample_crypto sample_services sample_entropy 1000 alice ''album''
            [png_upload, gif_upload] None (Some ''[\"abcd\",\"efgh\"]'') None sample_world
          = (((201, Uploaded ''2 files uploaded successfully'' [?s1, ?s2] []), w'), e')"
    by blast
  note third = password_count_mismatch_rejected [where body_uploadMode = None
        and body_passwords = "Some ''[\"abcd\",\"efgh\"]''" and S = sample_services
        and req_files = "[png_upload, gif_upload]"
        and L = sample_crypto and e = sample_entropy and now = 1000 and req = alice
        and folderId = "''album''" and body_coverTypes = None and w = sample_world
        and msg = "''2 files uploaded successfully''" and uploadedFiles = "[?s1, ?s2]"
        and errors = "[]" and w' = w' and e' = e', THEN conjunct2, THEN conjunct2,
        THEN conjunct2, rule_format,
        OF conjI [OF sample_crypto_ok conjI [OF mode run]]]
  from third
  obtain sent new sel where
    sent: "JSON_parse sample_services (or_default (Some ''[\"abcd\",\"efgh\"]'') ''[]'')
             = Some (JArray (map JString sent))"
    and fl: "files w' = files sample_world @ new" and up: "[?s1, ?s2] = map file_select new"
    and sub: "subseq sel (zip [png_upload, gif_upload] sent)"
    and rows: "list_all2
             (\<lambda>row (f, p).
                file_originalName row = originalname f \<and> file_uploadMode row = ''secure''
              \<and> (\<exists>key blob.
                    decryptFileKey sample_crypto (file_encryptedKeyBlob row) p (file_salt row)
                      = Inr key
                  \<and> bucket w' (file_storagePath row) = Some blob
                  \<and> decryptData sample_crypto (subarray_from blob 28) key (subarray blob 0 12)
                      (subarray blob 12 28) = Inr (upload_buffer f)))
             new sel"
    by (elim exE conjE) (rule that)
  from sent parse have "map JString sent = [JString ''abcd'', JString ''efgh'']" by simp
  then have sent2: "sent = [''abcd'', ''efgh'']" by (auto simp: map_eq_Cons_conv)
  from up obtain row1 row2 where new: "new = [row1, row2]"
    "file_select row1 = ?s1" "file_select row2 = ?s2"
    by (auto simp: map_eq_Cons_conv)
  have "length sel = length (zip [png_upload, gif_upload] sent)"
    using list_all2_lengthD [OF rows] new sent2 by simp
  with sub have sel: "sel = [(png_upload, ''abcd''), (gif_upload, ''efgh'')]"
    using subseq_same_length sent2 by fastforce
  from rows [unfolded new sel] obtain key1 key2 blob2 where
    "file_originalName row1 = originalname png_upload"
    "decryptFileKey sample_crypto (file_encryptedKeyBlob row1) ''abcd'' (file_salt row1) = Inr key1"
    "file_originalName row2 = originalname gif_upload"
    "decryptFileKey sample_crypto (file_encryptedKeyBlob row2) ''efgh'' (file_salt row2) = Inr key2"
    "bucket w' (file_storagePath row2) = Some blob2"
    "decryptData sample_crypto (subarray_from blob2 28) key2 (subarray blob2 0 12)
            (subarray blob2 12 28) = Inr (upload_buffer gif_upload)"
    by auto
  then have 3: "\<exists>w' e' row1 row2 key1 key2 blob2.
         post_files sample_crypto sample_services sample_entropy 1000 alice ''album''
           [png_upload, gif_upload] None (Some ''[\"abcd\",\"efgh\"]'') None sample_world
         = (((201, Uploaded ''2 files uploaded successfully''
                [file_select row1, file_select row2] []), w'), e')
       \<and> files w' = files sample_world @ [row1, row2]
       \<and> file_originalName row1 = ''bird.png''
       \<and> decryptFileKey sample_crypto (file_encryptedKeyBlob row1) ''abcd'' (file_salt row1)
           = Inr key1
       \<and> file_originalName row2 = ''fish.gif''
       \<and> decryptFileKey sample_crypto (file_encryptedKeyBlob row2) ''efgh'' (file_salt row2)
           = Inr key2
       \<and> bucket w' (file_storagePath row2) = Some blob2
       \<and> decryptData sample_crypto (subarray_from blob2 28) key2 (subarray blob2 0 12)
            (subarray blob2 12 28) = Inr [0x47, 0x49, 0x46, 0x38]"
    using run fl new
    by (intro exI [of _ w'] exI [of _ e'] exI [of _ row1] exI [of _ row2] exI [of _ key1]
        exI [of _ key2] exI [of _ blob2]) (simp add: png_upload_def gif_upload_def)
  from 1 2 4 sample_crypto_ok 3 show ?thesis by (intro conjI) assumption+
qed

lemma store_file_normal:
  assumes "uploadMode \<noteq> ''secure''"
  shows "store_file L now uploadMode password f fileHash w e =
     (case bucket w (''normal/'' @ show_nat now @ ''-'' @ ''normal/'' @ fileHash @ ''-''
                       @ originalname f) of
        Some x \<Rightarrow> (Inl Supabase_upload_failed, w, e)
      | None \<Rightarrow>
          (Inr (''normal/'' @ show_nat now @ ''-'' @ ''normal/'' @ fileHash @ ''-''
                  @ originalname f, None, None),
           w\<lparr>bucket := (bucket w)(''normal/'' @ show_nat now @ ''-'' @ ''normal/'' @ fileHash
                                     @ ''-'' @ originalname f \<mapsto> upload_buffer f)\<rparr>, e))"
  using assms
  by (simp add: store_file_def uploadFile_def bucket_upload_def split: option.splits)

lemma process_file_normal:
  assumes m: "uploadMode \<noteq> ''secure''"
    and step: "process_file L S now req folderId uploadMode pws f i (w, e, up, errs)
                 = (w', e', up', errs')"
    and inv: "\<forall>row \<in> set new. file_encryptedKeyBlob row = None \<and> file_salt row = None
                \<and> file_uploadMode row = uploadMode
                \<and> (\<exists>g \<in> A. file_originalName row = originalname g
                      \<and> bucket w (file_storagePath row) = Some (upload_buffer g))"
    and fA: "f \<in> A"
    and fl: "files w = base @ new" and sel: "up = map file_select new"
  shows "\<exists>new'. files w' = base @ new' \<and> up' = map file_select new' \<and> e' = e
           \<and> (\<forall>row \<in> set new'. file_encryptedKeyBlob row = None \<and> file_salt row = None
                \<and> file_uploadMode row = uploadMode
                \<and> (\<exists>g \<in> A. file_originalName row = originalname g
                      \<and> bucket w' (file_storagePath row) = Some (upload_buffer g)))"
proof (cases "take 6 (mimetype f) = ''image/'' \<and> \<not> validateImage (upload_buffer f)")
  case True
  with step inv fl sel show ?thesis
    by (intro exI [of _ new]) (simp add: process_file_def Let_def)
next
  case False
  let ?p = "''normal/'' @ show_nat now @ ''-'' @ ''normal/'' @ calculateHash L (upload_buffer f)
              @ ''-'' @ originalname f"
  show ?thesis
  proof (cases "bucket w ?p")
    case (Some x)
    with step inv fl sel False m show ?thesis
      by (intro exI [of _ new]) (simp add: process_file_def Let_def store_file_normal)
  next
    case None
    let ?row = "\<lparr>file_id = cuid S (created w), file_originalName = originalname f,
                  file_mimeType = mimetype f, file_size = upload_size f,
                  file_storagePath = ?p,
                  file_coverPath = generateCover_data S (upload_buffer f)
                                     (calculateHash L (upload_buffer f)) (user_id req),
                  file_encryptedKeyBlob = None, file_salt = None,
                  file_uploadMode = uploadMode, file_ownerId = user_id req,
                  file_folderId = folderId\<rparr>"
    have old: "\<forall>row \<in> set new. file_storagePath row \<noteq> ?p"
      using inv None by auto
    from step False m None have
      w': "w' = (w\<lparr>bucket := (bucket w)(?p \<mapsto> upload_buffer f)\<rparr>)
                  \<lparr>files := files w @ [?row], created := Suc (created w)\<rparr>"
      and e': "e' = e"
      and up': "up' = up @ [file_select ?row]"
      by (auto simp: process_file_def Let_def store_file_normal)
    have keep: "\<forall>row \<in> set new. \<exists>g \<in> A. file_originalName row = originalname g
                 \<and> bucket w' (file_storagePath row) = Some (upload_buffer g)"
      using inv old w' by auto
    have fresh: "\<exists>g \<in> A. file_originalName ?row = originalname g
                 \<and> bucket w' (file_storagePath ?row) = Some (upload_buffer g)"
      using fA w' by auto
    have "\<forall>row \<in> set (new @ [?row]).
            file_encryptedKeyBlob row = None \<and> file_salt row = None
                \<and> file_uploadMode row = uploadMode
                \<and> (\<exists>g \<in> A. file_originalName row = originalname g
                      \<and> bucket w' (file_storagePath row) = Some (upload_buffer g))"
      using inv keep fresh by auto
    moreover have "files w' = base @ new @ [?row]"
      using w' fl by simp
    moreover have "up' = map file_select (new @ [?row])"
      using up' sel by simp
    ultimately show ?thesis using e' by blast
  qed
qed

lemma process_files_normal:
  assumes m: "uploadMode \<noteq> ''secure''"
  shows "process_files L S now req folderId uploadMode pws fs i (w, e, up, errs)
           = (w', e', up', errs') \<Longrightarrow>
         \<forall>row \<in> set new. file_encryptedKeyBlob row = None \<and> file_salt row = None
                \<and> file_uploadMode row = uploadMode
                \<and> (\<exists>g \<in> A. file_originalName row = originalname g
                      \<and> bucket w (file_storagePath row) = Some (upload_buffer g)) \<Longrightarrow>
         set fs \<subseteq> A \<Longrightarrow> files w = base @ new \<Longrightarrow> up = map file_select new \<Longrightarrow>
         \<exists>new'. files w' = base @ new' \<and> up' = map file_select new' \<and> e' = e
           \<and> (\<forall>row \<in> set new'. file_encryptedKeyBlob row = None \<and> file_salt row = None
                \<and> file_uploadMode row = uploadMode
                \<and> (\<exists>g \<in> A. file_originalName row = originalname g
                      \<and> bucket w' (file_storagePath row) = Some (upload_buffer g)))"
proof (induction fs arbitrary: i w e up errs new)
  case Nil
  then show ?case by (intro exI [of _ new]) simp
next
  case (Cons f rest)
  obtain w1 e1 up1 errs1 where
    step: "process_file L S now req folderId uploadMode pws f i (w, e, up, errs)
             = (w1, e1, up1, errs1)"
    by (metis prod.exhaust)
  have fA: "f \<in> A" using Cons.prems(3) by simp
  from process_file_normal [OF m step Cons.prems(2) fA Cons.prems(4) Cons.prems(5)]
  obtain new1 where
    fl1: "files w1 = base @ new1" and sel1: "up1 = map file_select new1" and e1: "e1 = e"
    and inv1: "\<forall>row \<in> set new1. file_encryptedKeyBlob row = None \<and> file_salt row = None
                \<and> file_uploadMode row = uploadMode
                \<and> (\<exists>g \<in> A. file_originalName row = originalname g
                      \<and> bucket w1 (file_storagePath row) = Some (upload_buffer g))"
    by blast
  have run: "process_files L S now req folderId uploadMode pws rest (Suc i) (w1, e1, up1, errs1)
               = (w', e', up', errs')"
    using Cons.prems(1) step by simp
  have sub: "set rest \<subseteq> A" using Cons.prems(3) by simp
  from Cons.IH [OF run inv1 sub fl1 sel1] e1 show ?case by simp
qed

lemma post_files_normal_loop:
  assumes "post_files L S e now req folderId req_files (Some ''normal'') body_passwords
             body_coverTypes w = (((201, b), w'), e')"
  shows "\<exists>w1 up errs msg.
           process_files L S now req folderId ''normal'' [] req_files 0 (w, e, [], [])
             = (w1, e', up, errs)
         \<and> b = Uploaded msg up errs
         \<and> w' = securityLog_create (upload_log req folderId (length up) (length errs)) w1"
  using assms
  by (auto simp: post_files_def upload_loop_def or_default_def js_or_def falsy_def Let_def
      split: if_splits option.splits prod.splits)

lemma decrypt_key_attempt_null_blob:
  "file_encryptedKeyBlob row = None \<Longrightarrow>
   fst (decrypt_key_attempt L rq fileId p row w) = (401, ErrorSuccess ''Invalid password'' False)"
  by (simp add: decrypt_key_attempt_def decrypt_null_blob)

text \<open>
  C8 (as amended). After an upload in \<open>normal\<close> mode the new rows are exactly the uploaded
  files, no random octet was drawn, and for every new row: the bucket holds, at the row's
  storage path, the unchanged payload of the request file of that name; the key blob and
  the salt are null; \<open>uploadMode\<close> is \<open>normal\<close>, not \<open>secure\<close>; and an unwrap attempted on
  the row never yields a key: it is answered 401 \<open>Invalid password\<close>.
\<close>

theorem normal_upload_stored_plain:
  assumes "post_files L S e now req folderId req_files (Some ''normal'') body_passwords
             body_coverTypes w = (((201, Uploaded msg uploadedFiles errors), w'), e')"
  shows "\<exists>new. files w' = files w @ new \<and> uploadedFiles = map file_select new \<and> e' = e
       \<and> (\<forall>row \<in> set new.
             (\<exists>f \<in> set req_files. file_originalName row = originalname f
                \<and> bucket w' (file_storagePath row) = Some (upload_buffer f))
           \<and> file_encryptedKeyBlob row = None \<and> file_salt row = None
           \<and> file_uploadMode row = ''normal'' \<and> file_uploadMode row \<noteq> ''secure''
           \<and> (\<forall>L' rq fileId p w2.
                 fst (decrypt_key_attempt L' rq fileId p row w2)
                   = (401, ErrorSuccess ''Invalid password'' False)))"
proof -
  from post_files_normal_loop [OF assms] obtain w1 errs where
    run: "process_files L S now req folderId ''normal'' [] req_files 0 (w, e, [], [])
            = (w1, e', uploadedFiles, errs)"
    and w': "w' = securityLog_create (upload_log req folderId (length uploadedFiles)
                    (length errs)) w1"
    by auto
  have m: "''normal'' \<noteq> ''secure''" by simp
  have inv0: "\<forall>row \<in> set []. file_encryptedKeyBlob row = None \<and> file_salt row = None
                \<and> file_uploadMode row = ''normal''
                \<and> (\<exists>g \<in> set req_files. file_originalName row = originalname g
                      \<and> bucket w (file_storagePath row) = Some (upload_buffer g))"
    by simp
  have fl0: "files w = files w @ []" by simp
  have sel0: "[] = map file_select []" by simp
  from process_files_normal [OF m run inv0 subset_refl fl0 sel0]
  obtain new where
    fl: "files w1 = files w @ new" and sel: "uploadedFiles = map file_select new"
    and e: "e' = e"
    and rows: "\<forall>row \<in> set new. file_encryptedKeyBlob row = None \<and> file_salt row = None
                \<and> file_uploadMode row = ''normal''
                \<and> (\<exists>g \<in> set req_files. file_originalName row = originalname g
                      \<and> bucket w1 (file_storagePath row) = Some (upload_buffer g))"
    by blast
  have same: "bucket w' = bucket w1" "files w' = files w1"
    by (simp_all add: w' securityLog_create_def)
  show ?thesis
    using rows fl sel e same decrypt_key_attempt_null_blob
    by (intro exI [of _ new]) auto
qed

text \<open>The key-unwrap route on a row stored in \<open>normal\<close> mode: it calls \<open>decryptFileKey\<close>
  on the null blob and records the failed attempt.\<close>

theorem plain_file_unwrap_attempted:
  "file_uploadMode plain_file = ''normal'' \<and> file_encryptedKeyBlob plain_file = None
   \<and> file_findFirst sample_world ''f2'' ''alice'' = Some plain_file
   \<and> post_decrypt_key sample_crypto 1000 alice ''f2'' (Some ''abcd'') sample_world
     = ((401, ErrorSuccess ''Invalid password'' False),
        sample_world\<lparr>securityLogs :=
          [\<lparr>log_userId = Some ''alice'', action = ''file_unlock_attempt'', success = False,
            ipAddress = ''10.0.0.1'', userAgent = ''curl'',
            metadata = FileIdError ''f2'' (File_key_decryption_failed ERR_INVALID_ARG_TYPE)\<rparr>]\<rparr>)"
  using sample_plain_decrypt sample_lookups(2)
  by (simp add: plain_file_def securityLog_create_def unlock_attempt_log_def alice_def
      sample_world_def)

lemma sample_normal_upload:
  "fst (fst (post_files sample_crypto sample_services sample_entropy 1000 alice ''album''
      [png_upload] (Some ''normal'') None None sample_world))
   = (201, Uploaded ''1 files uploaded successfully''
        [\<lparr>saved_id = ''c4'', saved_originalName = ''bird.png'', saved_mimeType = ''image/png'',
          saved_size = 5, saved_coverPath = ''https://images.unsplash.com/cover''\<rparr>] [])"
proof -
  have v: "validateImage (upload_buffer png_upload)"
    by (simp add: validateImage_def imageSignatures_def png_upload_def)
  have b: "bucket sample_world ''normal/1000-normal/123-bird.png'' = None"
    by (simp add: sample_world_def)
  have c: "created sample_world = 4" by (simp add: sample_world_def)
  have p: "originalname png_upload = ''bird.png''" "mimetype png_upload = ''image/png''"
    "upload_size png_upload = 5"
    by (simp_all add: png_upload_def)
  show ?thesis
    by (simp add: post_files_def upload_loop_def or_default_def js_or_def falsy_def
        sample_services_def process_file_def store_file_normal sample_hash show_nat_samples
        v b c p alice_def file_select_def Let_def)
qed


text \<open>A plain upload of one PNG into the sample stores.\<close>

theorem normal_upload_stored_plain_witness:
  "\<exists>w' row. post_files sample_crypto sample_services sample_entropy 1000 alice ''album''
               [png_upload] (Some ''normal'') None None sample_world
             = (((201, Uploaded ''1 files uploaded successfully'' [file_select row] []), w'),
                sample_entropy)
     \<and> files w' = [secret_file, plain_file, wrapped_file, tampered_file, row]
     \<and> file_originalName row = ''bird.png''
     \<and> bucket w' (file_storagePath row) = Some [0x89, 0x50, 0x4E, 0x47, 0x0D]
     \<and> file_encryptedKeyBlob row = None \<and> file_salt row = None
     \<and> file_uploadMode row = ''normal''"
proof -
  let ?saved = "\<lparr>saved_id = ''c4'', saved_originalName = ''bird.png'',
                  saved_mimeType = ''image/png'', saved_size = 5,
                  saved_coverPath = ''https://images.unsplash.com/cover''\<rparr>"
  obtain w' e' where
    run: "post_files sample_crypto sample_services sample_entropy 1000 alice ''album''
            [png_upload] (Some ''normal'') None None sample_world
          = (((201, Uploaded ''1 files uploaded successfully'' [?saved] []), w'), e')"
    using sample_normal_upload by (metis prod.collapse)
  from normal_upload_stored_plain [OF run] obtain new where
    new: "files w' = files sample_world @ new" "[?saved] = map file_select new"
      "e' = sample_entropy"
    and rows: "\<forall>row \<in> set new.
             (\<exists>f \<in> set [png_upload]. file_originalName row = originalname f
                \<and> bucket w' (file_storagePath row) = Some (upload_buffer f))
           \<and> file_encryptedKeyBlob row = None \<and> file_salt row = None
           \<and> file_uploadMode row = ''normal''"
    by auto
  from new(2) obtain row where row: "new = [row]" "file_select row = ?saved"
    by (cases new) auto
  have "files sample_world = [secret_file, plain_file, wrapped_file, tampered_file]"
    by (simp add: sample_world_def)
  moreover have "originalname png_upload = ''bird.png''"
    "upload_buffer png_upload = [0x89, 0x50, 0x4E, 0x47, 0x0D]"
    by (simp_all add: png_upload_def)
  ultimately show ?thesis
    using new rows row run
    by (intro exI [of _ w'] exI [of _ row]) simp
qed

end
